(* ===== verification/Json.thy ===== *)
theory Json
  imports Prelude
begin

text \<open>
  The part of Python's \<open>json\<close> module the sources use. \<open>json\<close> is the type of
  JSON-representable Python values (a \<open>dict\<close> in insertion order, a \<open>float\<close> by
  its \<open>repr\<close>); \<open>dumps\<close> is \<open>json.dumps(v, ensure_ascii=False)\<close>,
  \<open>sort_keys\<close> the reordering that \<open>sort_keys=True\<close> makes, \<open>loads\<close> is
  \<open>json.loads\<close>: a recursive-descent parser with a fuel argument that is shown to be
  always sufficient (\<open>parse_value_enough\<close>). The main results are that \<open>loads\<close>
  reads back what \<open>dumps\<close> wrote and that \<open>dumps\<close> is injective.
\<close>

datatype json =
    JNull
  | JBool bool
  | JInt int
  | JFloat string
  | JStr string
  | JArr "json list"
  | JObj "(string \<times> json) list"

named_theorems json_simps \<open>access to the members of JSON values\<close>

subsection \<open>Writing\<close>

text \<open>The escapes of \<open>json.encoder.ESCAPE\<close>; bytes from 128 on are written as they are.\<close>

definition hex_digit :: "nat \<Rightarrow> char" where
  "hex_digit n = (if n < 10 then char_of (48 + n) else char_of (87 + n))"

definition escape_char :: "char \<Rightarrow> string" where
  "escape_char c =
     (if c = CHR 0x22 then [CHR 0x5C, CHR 0x22]
      else if c = CHR 0x5C then [CHR 0x5C, CHR 0x5C]
      else if c = CHR 0x0A then [CHR 0x5C, CHR ''n'']
      else if c = CHR 0x0D then [CHR 0x5C, CHR ''r'']
      else if c = CHR 0x09 then [CHR 0x5C, CHR ''t'']
      else if c = CHR 0x0C then [CHR 0x5C, CHR ''f'']
      else if c = CHR 0x08 then [CHR 0x5C, CHR ''b'']
      else if (of_char c :: nat) < 32
        then [CHR 0x5C, CHR ''u'', CHR ''0'', CHR ''0'',
              hex_digit (of_char c div 16), hex_digit (of_char c mod 16)]
      else [c])"

definition dumps_str :: "string \<Rightarrow> string" where
  "dumps_str s = CHR 0x22 # concat (map escape_char s) @ [CHR 0x22]"

fun dumps :: "json \<Rightarrow> string"
  and dumps_items :: "json list \<Rightarrow> string"
  and dumps_members :: "(string \<times> json) list \<Rightarrow> string" where
  "dumps JNull = ''null''"
| "dumps (JBool b) = (if b then ''true'' else ''false'')"
| "dumps (JInt i) = show_int i"
| "dumps (JFloat t) = t"
| "dumps (JStr s) = dumps_str s"
| "dumps (JArr vs) = CHR ''['' # dumps_items vs"
| "dumps (JObj kvs) = CHR ''{'' # dumps_members kvs"
| "dumps_items [] = '']''"
| "dumps_items [v] = dumps v @ '']''"
| "dumps_items (v # w # vs) = dumps v @ '', '' @ dumps_items (w # vs)"
| "dumps_members [] = ''}''"
| "dumps_members [(k, v)] = dumps_str k @ '': '' @ dumps v @ ''}''"
| "dumps_members ((k, v) # m # kvs) =
     dumps_str k @ '': '' @ dumps v @ '', '' @ dumps_members (m # kvs)"

text \<open>\<open>sort_keys=True\<close> orders the members of every object by key.\<close>

fun sort_keys :: "json \<Rightarrow> json" where
  "sort_keys (JArr vs) = JArr (map sort_keys vs)"
| "sort_keys (JObj kvs) = JObj (sort_key fst (map (\<lambda>(k, v). (k, sort_keys v)) kvs))"
| "sort_keys v = v"

subsection \<open>Reading\<close>

definition is_ws :: "char \<Rightarrow> bool" where
  "is_ws c \<longleftrightarrow> c = CHR '' '' \<or> c = CHR 0x09 \<or> c = CHR 0x0A \<or> c = CHR 0x0D"

definition skip_ws :: "string \<Rightarrow> string" where
  "skip_ws s = dropWhile is_ws s"

definition hex_val :: "char \<Rightarrow> nat option" where
  "hex_val c = (let n = of_char c :: nat in
     if 48 \<le> n \<and> n \<le> 57 then Some (n - 48)
     else if 97 \<le> n \<and> n \<le> 102 then Some (n - 87)
     else if 65 \<le> n \<and> n \<le> 70 then Some (n - 55)
     else None)"

definition hex4 :: "char \<Rightarrow> char \<Rightarrow> char \<Rightarrow> char \<Rightarrow> nat option" where
  "hex4 a b c d =
     (case (hex_val a, hex_val b, hex_val c, hex_val d) of
        (Some w, Some x, Some y, Some z) \<Rightarrow> Some (((w * 16 + x) * 16 + y) * 16 + z)
      | _ \<Rightarrow> None)"

text \<open>The UTF-8 bytes of a code point.\<close>

definition utf8 :: "nat \<Rightarrow> string" where
  "utf8 n =
     (if n < 0x80 then [char_of n]
      else if n < 0x800 then [char_of (0xC0 + n div 64), char_of (0x80 + n mod 64)]
      else if n < 0x10000 then
        [char_of (0xE0 + n div 4096), char_of (0x80 + n div 64 mod 64), char_of (0x80 + n mod 64)]
      else [char_of (0xF0 + n div 262144), char_of (0x80 + n div 4096 mod 64),
            char_of (0x80 + n div 64 mod 64), char_of (0x80 + n mod 64)])"

text \<open>The \<open>BACKSLASH\<close> table of \<open>json.decoder\<close>.\<close>

definition unescape :: "char \<Rightarrow> char option" where
  "unescape c =
     (if c = CHR 0x22 then Some (CHR 0x22)
      else if c = CHR 0x5C then Some (CHR 0x5C)
      else if c = CHR ''/'' then Some (CHR ''/'')
      else if c = CHR ''b'' then Some (CHR 0x08)
      else if c = CHR ''f'' then Some (CHR 0x0C)
      else if c = CHR ''n'' then Some (CHR 0x0A)
      else if c = CHR ''r'' then Some (CHR 0x0D)
      else if c = CHR ''t'' then Some (CHR 0x09)
      else None)"

definition cons_text :: "string \<Rightarrow> (string \<times> string) option \<Rightarrow> (string \<times> string) option" where
  "cons_text u r = (case r of None \<Rightarrow> None | Some (s, rest) \<Rightarrow> Some (u @ s, rest))"

text \<open>
  \<open>scanstring\<close> after the opening quote, in the default strict mode: a raw control character
  is an error; a high surrogate escape followed by a low one makes one code point.
\<close>

definition low_surrogate :: "string \<Rightarrow> (nat \<times> string) option" where
  "low_surrogate s =
     (case s of e # u # a # b # c # d # rest \<Rightarrow>
        (if e = CHR 0x5C \<and> u = CHR ''u'' then
           (case hex4 a b c d of
              Some m \<Rightarrow> if 0xDC00 \<le> m \<and> m \<le> 0xDFFF then Some (m, rest) else None
            | None \<Rightarrow> None)
         else None)
      | _ \<Rightarrow> None)"

lemma low_surrogate_length: "low_surrogate s = Some (m, rest) \<Longrightarrow> length rest < length s"
  by (auto simp: low_surrogate_def split: list.splits if_splits option.splits)

function (sequential) parse_str :: "string \<Rightarrow> (string \<times> string) option" where
  "parse_str [] = None"
| "parse_str (c # cs) =
     (if c = CHR 0x22 then Some ([], cs)
      else if c = CHR 0x5C then
        (case cs of [] \<Rightarrow> None
         | e # es \<Rightarrow>
             if e = CHR ''u'' then
               (case es of a # b # x # y # rest \<Rightarrow>
                  (case hex4 a b x y of None \<Rightarrow> None
                   | Some n \<Rightarrow>
                       (case (if 0xD800 \<le> n \<and> n \<le> 0xDBFF then low_surrogate rest else None) of
                          None \<Rightarrow> cons_text (utf8 n) (parse_str rest)
                        | Some (m, rest') \<Rightarrow>
                            cons_text (utf8 (0x10000 + (n - 0xD800) * 0x400 + (m - 0xDC00)))
                              (parse_str rest')))
                | _ \<Rightarrow> None)
             else (case unescape e of None \<Rightarrow> None
                   | Some d \<Rightarrow> cons_text [d] (parse_str es)))
      else if (of_char c :: nat) < 32 then None
      else cons_text [c] (parse_str cs))"
  by pat_completeness auto
termination
  by (relation "measure length")
     (auto split: if_splits dest: low_surrogate_length)

definition num_sign :: "string \<Rightarrow> string" where
  "num_sign s = (case s of [] \<Rightarrow> [] | c # _ \<Rightarrow> if c = CHR ''-'' then [c] else [])"

definition num_int :: "string \<Rightarrow> string" where
  "num_int s = (case takeWhile is_digit s of [] \<Rightarrow> []
     | d # ds \<Rightarrow> if d = CHR ''0'' then [d] else d # ds)"

definition num_frac :: "string \<Rightarrow> string" where
  "num_frac s = (case s of [] \<Rightarrow> [] | c # cs \<Rightarrow>
     if c = CHR ''.'' \<and> takeWhile is_digit cs \<noteq> [] then c # takeWhile is_digit cs else [])"

definition exp_sign :: "string \<Rightarrow> string" where
  "exp_sign s = (case s of [] \<Rightarrow> [] | c # _ \<Rightarrow> if c = CHR ''+'' \<or> c = CHR ''-'' then [c] else [])"

definition num_exp :: "string \<Rightarrow> string" where
  "num_exp s = (case s of [] \<Rightarrow> [] | c # cs \<Rightarrow>
     if c = CHR ''e'' \<or> c = CHR ''E'' then
       (let sg = exp_sign cs; ds = takeWhile is_digit (drop (length sg) cs)
        in if ds = [] then [] else c # sg @ ds)
     else [])"

text \<open>\<open>NUMBER_RE\<close> of \<open>json.scanner\<close>: sign, integer part, fraction, exponent.\<close>

definition parse_number :: "string \<Rightarrow> (json \<times> string) option" where
  "parse_number s =
     (let sg = num_sign s; s1 = drop (length sg) s;
          ip = num_int s1; s2 = drop (length ip) s1;
          fp = num_frac s2; s3 = drop (length fp) s2;
          ep = num_exp s3; s4 = drop (length ep) s3
      in if ip = [] then None
         else if fp = [] \<and> ep = [] then
           Some (JInt (if sg = [] then int (read_nat ip) else - int (read_nat ip)), s4)
         else Some (JFloat (sg @ ip @ fp @ ep), s4))"

definition strip_prefix :: "string \<Rightarrow> string \<Rightarrow> string option" where
  "strip_prefix p s = (if starts_with s p then Some (drop (length p) s) else None)"

definition parse_word :: "string \<Rightarrow> (json \<times> string) option" where
  "parse_word s =
     (case strip_prefix ''null'' s of Some r \<Rightarrow> Some (JNull, r) | None \<Rightarrow>
      (case strip_prefix ''true'' s of Some r \<Rightarrow> Some (JBool True, r) | None \<Rightarrow>
       (case strip_prefix ''false'' s of Some r \<Rightarrow> Some (JBool False, r) | None \<Rightarrow>
        (case parse_number s of Some r \<Rightarrow> Some r | None \<Rightarrow>
         (case strip_prefix ''NaN'' s of Some r \<Rightarrow> Some (JFloat ''NaN'', r) | None \<Rightarrow>
          (case strip_prefix ''Infinity'' s of Some r \<Rightarrow> Some (JFloat ''Infinity'', r) | None \<Rightarrow>
           (case strip_prefix ''-Infinity'' s of Some r \<Rightarrow> Some (JFloat ''-Infinity'', r)
            | None \<Rightarrow> None)))))))"

fun parse_value :: "nat \<Rightarrow> string \<Rightarrow> (json \<times> string) option"
  and parse_items :: "nat \<Rightarrow> string \<Rightarrow> (json list \<times> string) option"
  and parse_members :: "nat \<Rightarrow> string \<Rightarrow> ((string \<times> json) list \<times> string) option" where
  "parse_value 0 s = None"
| "parse_value (Suc n) [] = None"
| "parse_value (Suc n) (c # cs) =
     (if c = CHR 0x22 then
        (case parse_str cs of None \<Rightarrow> None | Some (t, r) \<Rightarrow> Some (JStr t, r))
      else if c = CHR ''{'' then
        (let s1 = skip_ws cs in
         if s1 \<noteq> [] \<and> hd s1 = CHR ''}'' then Some (JObj [], tl s1)
         else (case parse_members n s1 of None \<Rightarrow> None
               | Some (kvs, r) \<Rightarrow> Some (JObj (dict_of kvs), r)))
      else if c = CHR ''['' then
        (let s1 = skip_ws cs in
         if s1 \<noteq> [] \<and> hd s1 = CHR '']'' then Some (JArr [], tl s1)
         else (case parse_items n s1 of None \<Rightarrow> None | Some (vs, r) \<Rightarrow> Some (JArr vs, r)))
      else parse_word (c # cs))"
| "parse_items 0 s = None"
| "parse_items (Suc n) s =
     (case parse_value n s of None \<Rightarrow> None
      | Some (v, r) \<Rightarrow>
          (case skip_ws r of [] \<Rightarrow> None
           | c # cs \<Rightarrow>
               if c = CHR '']'' then Some ([v], cs)
               else if c = CHR '','' then
                 (case parse_items n (skip_ws cs) of None \<Rightarrow> None
                  | Some (vs, r') \<Rightarrow> Some (v # vs, r'))
               else None))"
| "parse_members 0 s = None"
| "parse_members (Suc n) [] = None"
| "parse_members (Suc n) (q # s) =
     (if q \<noteq> CHR 0x22 then None else
      (case parse_str s of None \<Rightarrow> None
       | Some (k, r) \<Rightarrow>
           (case skip_ws r of [] \<Rightarrow> None
            | c # cs \<Rightarrow>
                if c \<noteq> CHR '':'' then None else
                (case parse_value n (skip_ws cs) of None \<Rightarrow> None
                 | Some (v, r2) \<Rightarrow>
                     (case skip_ws r2 of [] \<Rightarrow> None
                      | d # ds \<Rightarrow>
                          if d = CHR ''}'' then Some ([(k, v)], ds)
                          else if d = CHR '','' then
                            (case parse_members n (skip_ws ds) of None \<Rightarrow> None
                             | Some (kvs, r3) \<Rightarrow> Some ((k, v) # kvs, r3))
                          else None)))))"

text \<open>\<open>json.loads\<close>: surrounding white space is skipped, anything left over is an error.\<close>

definition loads :: "string \<Rightarrow> exn + json" where
  "loads s =
     (case parse_value (2 * length s + 2) (skip_ws s) of
        None \<Rightarrow> Inl (JSONDecodeError s)
      | Some (v, r) \<Rightarrow> if skip_ws r = [] then Inr v else Inl (JSONDecodeError s))"

subsection \<open>Strings and numbers are read back\<close>

lemma hex_val_digit: "n < 16 \<Longrightarrow> hex_val (hex_digit n) = Some n"
proof -
  assume "n < 16"
  then have "n \<in> {0..<16}" by simp
  then show ?thesis
    by (auto simp: hex_val_def hex_digit_def of_char_of take_bit_eq_mod)
qed

lemma hex4_escape:
  "n < 32 \<Longrightarrow> hex4 (CHR ''0'') (CHR ''0'') (hex_digit (n div 16)) (hex_digit (n mod 16)) = Some n"
proof -
  assume "n < 32"
  then have "n div 16 < 16" "n mod 16 < 16" by auto
  moreover have "hex_val (CHR ''0'') = Some 0" by code_simp
  ultimately show ?thesis by (simp add: hex4_def hex_val_digit)
qed

lemma parse_str_escape_char: "parse_str (escape_char c @ t) = cons_text [c] (parse_str t)"
proof -
  have u: "utf8 (of_char c) = [c]" if "(of_char c :: nat) < 32"
    using that by (simp add: utf8_def)
  show ?thesis
    by (auto simp: escape_char_def unescape_def hex4_escape u)
qed

lemma parse_str_escape:
  "parse_str (concat (map escape_char s) @ CHR 0x22 # rest) = Some (s, rest)"
  by (induction s) (simp_all add: parse_str_escape_char cons_text_def)

definition num_char :: "char \<Rightarrow> bool" where
  "num_char c \<longleftrightarrow> is_digit c \<or> c \<in> {CHR ''.'', CHR ''e'', CHR ''E'', CHR ''+'', CHR ''-''}"

definition stops :: "string \<Rightarrow> bool" where
  "stops rest \<longleftrightarrow> rest = [] \<or> \<not> num_char (hd rest)"

lemma stops_Nil [simp]: "stops []" by (simp add: stops_def)

lemma stops_takeWhile: "stops rest \<Longrightarrow> takeWhile is_digit (s @ rest) = takeWhile is_digit s"
  by (induction s) (cases rest; auto simp: stops_def num_char_def)+

lemma num_sign_append: "s \<noteq> [] \<Longrightarrow> num_sign (s @ rest) = num_sign s"
  by (cases s) (auto simp: num_sign_def)

lemma num_int_append: "stops rest \<Longrightarrow> num_int (s @ rest) = num_int s"
  by (simp add: num_int_def stops_takeWhile)

lemma num_frac_append: "stops rest \<Longrightarrow> num_frac (s @ rest) = num_frac s"
  by (cases s; cases rest) (auto simp: num_frac_def stops_def num_char_def stops_takeWhile)

lemma exp_sign_append: "stops rest \<Longrightarrow> exp_sign (s @ rest) = exp_sign s"
  by (cases s; cases rest) (auto simp: exp_sign_def stops_def num_char_def)

lemma exp_sign_length: "length (exp_sign s) \<le> length s"
  by (cases s) (auto simp: exp_sign_def)

lemma num_exp_append: "stops rest \<Longrightarrow> num_exp (s @ rest) = num_exp s"
proof (cases s)
  case Nil
  assume "stops rest"
  with Nil show ?thesis
    by (cases rest) (auto simp: num_exp_def stops_def num_char_def)
next
  case (Cons c cs)
  assume st: "stops rest"
  have "drop (length (exp_sign cs)) (cs @ rest) = drop (length (exp_sign cs)) cs @ rest"
    using exp_sign_length [of cs] by simp
  with st Cons show ?thesis
    by (simp add: num_exp_def Let_def exp_sign_append stops_takeWhile del: drop_append)
qed

lemma length_num_sign: "length (num_sign s) \<le> length s"
  by (cases s) (auto simp: num_sign_def)

lemma length_num_int: "length (num_int s) \<le> length s"
proof -
  have "length (num_int s) \<le> length (takeWhile is_digit s)"
    by (auto simp: num_int_def split: list.splits)
  also have "\<dots> \<le> length s" by (rule length_takeWhile_le)
  finally show ?thesis .
qed

lemma length_num_frac: "length (num_frac s) \<le> length s"
  by (cases s) (auto simp: num_frac_def length_takeWhile_le)

lemma length_num_exp: "length (num_exp s) \<le> length s"
proof (cases s)
  case Nil
  then show ?thesis by (simp add: num_exp_def)
next
  case (Cons c cs)
  have "length (takeWhile is_digit (drop (length (exp_sign cs)) cs)) \<le> length cs - length (exp_sign cs)"
    using length_takeWhile_le [of is_digit "drop (length (exp_sign cs)) cs"] by simp
  with exp_sign_length [of cs] Cons show ?thesis
    by (auto simp: num_exp_def Let_def)
qed

lemmas length_num = length_num_sign length_num_int length_num_frac length_num_exp

lemma drop_num_append: "length a \<le> length s \<Longrightarrow> drop (length a) (s @ rest) = drop (length a) s @ rest"
  by simp

lemma parse_number_append:
  assumes st: "stops rest" and ne: "s \<noteq> []" and p: "parse_number s = Some (v, r)"
  shows "parse_number (s @ rest) = Some (v, r @ rest)"
proof -
  define s1 where "s1 = drop (length (num_sign s)) s"
  define s2 where "s2 = drop (length (num_int s1)) s1"
  define s3 where "s3 = drop (length (num_frac s2)) s2"
  define s4 where "s4 = drop (length (num_exp s3)) s3"
  have d: "drop (length (num_sign s)) (s @ rest) = s1 @ rest"
      "drop (length (num_int s1)) (s1 @ rest) = s2 @ rest"
      "drop (length (num_frac s2)) (s2 @ rest) = s3 @ rest"
      "drop (length (num_exp s3)) (s3 @ rest) = s4 @ rest"
    using drop_num_append [OF length_num(1)] drop_num_append [OF length_num(2)]
      drop_num_append [OF length_num(3)] drop_num_append [OF length_num(4)]
    unfolding s1_def s2_def s3_def s4_def by blast+
  define res where "res q = (if num_int s1 = [] then None
      else if num_frac s2 = [] \<and> num_exp s3 = [] then
        Some (JInt (if num_sign s = [] then int (read_nat (num_int s1))
                    else - int (read_nat (num_int s1))), q)
      else Some (JFloat (num_sign s @ num_int s1 @ num_frac s2 @ num_exp s3), q))" for q :: string
  have "parse_number s = res s4"
    by (simp only: parse_number_def Let_def res_def s1_def [symmetric] s2_def [symmetric]
        s3_def [symmetric] s4_def [symmetric])
  moreover have "parse_number (s @ rest) = res (s4 @ rest)"
    by (simp only: parse_number_def Let_def res_def num_sign_append [OF ne] num_int_append [OF st]
        num_frac_append [OF st] num_exp_append [OF st] d)
  ultimately show ?thesis
    using p by (auto simp add: res_def split: if_splits)
qed

text \<open>The texts that are the \<open>repr\<close> of a float as far as reading goes.\<close>

definition wf_float :: "string \<Rightarrow> bool" where
  "wf_float t \<longleftrightarrow> t \<in> {''NaN'', ''Infinity'', ''-Infinity''} \<or> parse_number t = Some (JFloat t, [])"

lemma takeWhile_show_nat: "takeWhile is_digit (show_nat n) = show_nat n"
  by (rule takeWhile_eq_all_conv [THEN iffD2]) (simp add: show_nat_digits)

lemma num_int_show_nat: "num_int (show_nat n) = show_nat n"
proof (cases "n = 0")
  case True
  have "show_nat 0 = ''0''" by code_simp
  then show ?thesis using True by (simp add: num_int_def) code_simp
next
  case False
  then have "hd (show_nat n) \<noteq> CHR ''0''" by (simp add: hd_show_nat)
  then show ?thesis
    unfolding num_int_def takeWhile_show_nat by (cases "show_nat n") auto
qed

lemma num_tail_Nil [simp]: "num_frac [] = []" "num_exp [] = []"
  by (simp_all add: num_frac_def num_exp_def)

lemma not_digit_minus: "\<not> is_digit (CHR ''-'')"
  by (simp add: is_digit_def)

lemma num_sign_show_nat: "num_sign (show_nat n) = []"
proof -
  obtain c cs where c: "show_nat n = c # cs" using show_nat_not_Nil by (cases "show_nat n") auto
  then have "is_digit c" using show_nat_digits [of c n] by simp
  then have "c \<noteq> CHR ''-''" using not_digit_minus by auto
  with c show ?thesis by (simp add: num_sign_def)
qed

lemma parse_number_show_int: "parse_number (show_int i) = Some (JInt i, [])"
proof (cases "i < 0")
  case True
  then have "num_sign (show_int i) = ''-''" by (simp add: show_int_def num_sign_def)
  with True show ?thesis
    by (simp add: parse_number_def show_int_def num_int_show_nat)
next
  case False
  then show ?thesis
    by (simp add: parse_number_def show_int_def num_int_show_nat num_sign_show_nat)
qed

lemma show_int_not_Nil [simp]: "show_int i \<noteq> []"
  by (simp add: show_int_def)

lemma show_int_append: "stops rest \<Longrightarrow> parse_number (show_int i @ rest) = Some (JInt i, rest)"
  using parse_number_append [of rest "show_int i" "JInt i" "[]"] by (simp add: parse_number_show_int)

text \<open>Whatever is read as a number begins with a digit or a minus sign.\<close>

lemma parse_number_hd:
  assumes "parse_number s = Some (v, r)"
  shows "s \<noteq> [] \<and> (is_digit (hd s) \<or> hd s = CHR ''-'')"
proof (cases s)
  case Nil
  with assms show ?thesis by (simp add: parse_number_def num_sign_def num_int_def)
next
  case (Cons c cs)
  with assms show ?thesis
    by (auto simp: parse_number_def Let_def num_sign_def num_int_def split: if_splits)
qed

lemma parse_word_number:
  assumes "parse_number s = Some (v, r)"
  shows "parse_word s = Some (v, r)"
proof -
  obtain c cs where s: "s = c # cs" and c: "is_digit c \<or> c = CHR ''-''"
    using parse_number_hd [OF assms] by (cases s) auto
  have "c \<noteq> CHR ''n''" "c \<noteq> CHR ''t''" "c \<noteq> CHR ''f''"
    using c by (auto simp: is_digit_def)
  with assms s show ?thesis
    by (simp add: parse_word_def strip_prefix_def starts_with_def)
qed

lemma parse_value_number:
  assumes "parse_number s = Some (v, r)"
  shows "parse_value (Suc n) s = Some (v, r)"
proof -
  obtain c cs where s: "s = c # cs" and c: "is_digit c \<or> c = CHR ''-''"
    using parse_number_hd [OF assms] by (cases s) auto
  have "c \<noteq> CHR 0x22" "c \<noteq> CHR ''{''" "c \<noteq> CHR ''[''"
    using c by (auto simp: is_digit_def)
  with s parse_word_number [OF assms] show ?thesis by simp
qed

subsection \<open>Round trip\<close>

lemma parse_value_float:
  assumes "wf_float t" "stops rest"
  shows "parse_value (Suc n) (t @ rest) = Some (JFloat t, rest)"
proof (cases "parse_number t = Some (JFloat t, [])")
  case True
  then have "t \<noteq> []" using parse_number_hd by blast
  with True assms(2) have "parse_number (t @ rest) = Some (JFloat t, rest)"
    using parse_number_append [of rest t "JFloat t" "[]"] by simp
  then show ?thesis by (rule parse_value_number)
next
  case False
  then have t: "t = ''NaN'' \<or> t = ''Infinity'' \<or> t = ''-Infinity''"
    using assms(1) by (auto simp: wf_float_def)
  have "parse_number (t @ rest) = None"
    using t by (auto simp: parse_number_def num_sign_def num_int_def is_digit_def)
  with t show ?thesis
    by (auto simp: parse_word_def strip_prefix_def starts_with_def)
qed

fun wf_json :: "json \<Rightarrow> bool"
  and wf_items :: "json list \<Rightarrow> bool"
  and wf_members :: "(string \<times> json) list \<Rightarrow> bool" where
  "wf_json (JFloat t) = wf_float t"
| "wf_json (JArr vs) = wf_items vs"
| "wf_json (JObj kvs) = (distinct (map fst kvs) \<and> wf_members kvs)"
| "wf_json _ = True"
| "wf_items [] = True"
| "wf_items (v # vs) = (wf_json v \<and> wf_items vs)"
| "wf_members [] = True"
| "wf_members ((k, v) # kvs) = (wf_json v \<and> wf_members kvs)"

lemma wf_items_iff: "wf_items vs \<longleftrightarrow> (\<forall>v \<in> set vs. wf_json v)"
  by (induction vs) auto

lemma wf_members_iff: "wf_members kvs \<longleftrightarrow> (\<forall>(k, v) \<in> set kvs. wf_json v)"
  by (induction kvs) auto

definition value_start :: "string \<Rightarrow> bool" where
  "value_start s \<longleftrightarrow> s \<noteq> [] \<and> \<not> is_ws (hd s) \<and> hd s \<noteq> CHR '']'' \<and> hd s \<noteq> CHR ''}''"

lemma value_start_append: "value_start s \<Longrightarrow> value_start (s @ r)"
  by (auto simp: value_start_def)

lemma skip_ws_start: "value_start s \<Longrightarrow> skip_ws s = s"
  by (cases s) (auto simp: value_start_def skip_ws_def)

lemma number_start: "is_digit c \<or> c = CHR ''-'' \<Longrightarrow> value_start (c # cs)"
  by (auto simp: value_start_def is_ws_def is_digit_def)

lemma value_start_dumps: "wf_json v \<Longrightarrow> value_start (dumps v)"
proof (cases v)
  case (JInt i)
  have "value_start (show_int i)"
    using parse_number_hd [OF parse_number_show_int [of i]] number_start
    by (cases "show_int i") auto
  with JInt show ?thesis by simp
next
  case (JFloat t)
  assume "wf_json v"
  with JFloat have wf: "wf_float t" by simp
  have "value_start t"
  proof (cases "parse_number t = Some (JFloat t, [])")
    case True
    then show ?thesis using parse_number_hd [of t] number_start by (cases t) auto
  next
    case False
    with wf show ?thesis by (auto simp: wf_float_def value_start_def is_ws_def)
  qed
  with JFloat show ?thesis by simp
qed (auto simp: value_start_def is_ws_def dumps_str_def)

lemma skip_ws_simps [simp]:
  "skip_ws [] = []"
  "skip_ws (CHR '' '' # s) = skip_ws s"
  "skip_ws (CHR '','' # s) = CHR '','' # s"
  "skip_ws (CHR '':'' # s) = CHR '':'' # s"
  "skip_ws (CHR '']'' # s) = CHR '']'' # s"
  "skip_ws (CHR ''}'' # s) = CHR ''}'' # s"
  "skip_ws (CHR 0x22 # s) = CHR 0x22 # s"
  by (simp_all add: skip_ws_def is_ws_def)

lemma stops_delim [simp]:
  "stops (CHR '','' # s)" "stops (CHR '']'' # s)" "stops (CHR ''}'' # s)"
  by (simp_all add: stops_def num_char_def is_digit_def)

lemma parse_str_dumps_str:
  "parse_str (concat (map escape_char s) @ CHR 0x22 # rest) = Some (s, rest)"
  by (rule parse_str_escape)

lemma parse_dumps:
  shows "wf_json v \<Longrightarrow> stops rest \<Longrightarrow> 2 * length (dumps v) + 1 \<le> n \<Longrightarrow>
      parse_value n (dumps v @ rest) = Some (v, rest)"
    and "wf_items vs \<Longrightarrow> vs \<noteq> [] \<Longrightarrow> 2 * length (dumps_items vs) + 2 \<le> n \<Longrightarrow>
      parse_items n (dumps_items vs @ rest) = Some (vs, rest)"
    and "wf_members kvs \<Longrightarrow> kvs \<noteq> [] \<Longrightarrow> 2 * length (dumps_members kvs) + 2 \<le> n \<Longrightarrow>
      parse_members n (dumps_members kvs @ rest) = Some (kvs, rest)"
proof (induction v and vs and kvs arbitrary: n rest and n rest and n rest
    rule: dumps_dumps_items_dumps_members.induct)
  case 1
  then show ?case
    by (cases n) (auto simp: parse_word_def strip_prefix_def starts_with_def)
next
  case (2 b)
  then show ?case
    by (cases n) (auto simp: parse_word_def strip_prefix_def starts_with_def)
next
  case (3 i)
  then show ?case
    by (cases n) (simp_all add: parse_value_number show_int_append)
next
  case (4 t)
  then show ?case
    by (cases n) (simp_all add: parse_value_float del: parse_value.simps)
next
  case (5 s)
  then show ?case
    by (cases n) (simp_all add: dumps_str_def parse_str_escape)
next
  case (6 vs)
  then obtain m where n: "n = Suc m" by (cases n) auto
  show ?case
  proof (cases vs)
    case Nil
    with n show ?thesis by simp
  next
    case (Cons w ws)
    have "value_start (dumps w)" using 6 Cons by (intro value_start_dumps) simp
    then have st: "value_start (dumps_items vs @ rest)"
      using Cons by (cases ws) (auto simp: value_start_def)
    have "parse_items m (dumps_items vs @ rest) = Some (vs, rest)"
      using 6 Cons n by (intro 6(1)) auto
    with n st show ?thesis by (simp add: skip_ws_start) (simp add: value_start_def)
  qed
next
  case (7 kvs)
  then obtain m where n: "n = Suc m" by (cases n) auto
  show ?case
  proof (cases kvs)
    case Nil
    with n show ?thesis by simp
  next
    case (Cons kv kvs')
    have st: "value_start (dumps_members kvs @ rest)"
      using Cons by (cases kv; cases kvs') (auto simp: value_start_def dumps_str_def is_ws_def)
    have "parse_members m (dumps_members kvs @ rest) = Some (kvs, rest)"
      using 7 Cons n by (intro 7(1)) auto
    with n st 7(2) show ?thesis by (simp add: skip_ws_start) (simp add: value_start_def)
  qed
next
  case 8
  then show ?case by simp
next
  case (9 v)
  then obtain m where n: "n = Suc m" by (cases n) auto
  have "parse_value m (dumps v @ CHR '']'' # rest) = Some (v, CHR '']'' # rest)"
    using 9 n by (intro 9(1)) auto
  with n show ?case by simp
next
  case (10 v w vs)
  then obtain m where n: "n = Suc m" by (cases n) auto
  have 1: "parse_value m (dumps v @ CHR '','' # CHR '' '' # dumps_items (w # vs) @ rest)
      = Some (v, CHR '','' # CHR '' '' # dumps_items (w # vs) @ rest)"
    using 10 n by (intro 10(1)) auto
  have 2: "parse_items m (dumps_items (w # vs) @ rest) = Some (w # vs, rest)"
    using 10 n by (intro 10(2)) auto
  have "value_start (dumps w)" using 10 by (intro value_start_dumps) simp
  then have "value_start (dumps_items (w # vs) @ rest)"
    by (cases vs) (auto simp: value_start_def)
  with n 1 2 show ?case by (simp add: skip_ws_start)
next
  case 11
  then show ?case by simp
next
  case (12 k v)
  then obtain m where n: "n = Suc m" by (cases n) auto
  have "parse_value m (dumps v @ CHR ''}'' # rest) = Some (v, CHR ''}'' # rest)"
    using 12 n by (intro 12(1)) auto
  moreover have "value_start (dumps v @ CHR ''}'' # rest)"
    using 12 by (intro value_start_append value_start_dumps) simp
  ultimately show ?case
    using n by (simp add: dumps_str_def parse_str_escape skip_ws_start)
next
  case (13 k v m kvs)
  then obtain p where n: "n = Suc p" by (cases n) auto
  have 1: "parse_value p (dumps v @ CHR '','' # CHR '' '' # dumps_members (m # kvs) @ rest)
      = Some (v, CHR '','' # CHR '' '' # dumps_members (m # kvs) @ rest)"
    using 13 n by (intro 13(1)) auto
  have 2: "parse_members p (dumps_members (m # kvs) @ rest) = Some (m # kvs, rest)"
    using 13 n by (intro 13(2)) (auto split: prod.splits)
  have 3: "value_start (dumps v @ CHR '','' # CHR '' '' # dumps_members (m # kvs) @ rest)"
    using 13 by (intro value_start_append value_start_dumps) simp
  have 4: "value_start (dumps_members (m # kvs) @ rest)"
    by (cases m; cases kvs) (auto simp: value_start_def dumps_str_def is_ws_def)
  from n 1 2 3 4 show ?case
    by (simp add: dumps_str_def parse_str_escape skip_ws_start)
qed

theorem loads_dumps: "wf_json v \<Longrightarrow> loads (dumps v) = Inr v"
proof -
  assume wf: "wf_json v"
  have "skip_ws (dumps v) = dumps v"
    using value_start_dumps [OF wf] by (rule skip_ws_start)
  moreover have "parse_value (2 * length (dumps v) + 2) (dumps v) = Some (v, [])"
    using parse_dumps(1) [of v "[]" "2 * length (dumps v) + 2"] wf by simp
  ultimately show ?thesis by (simp add: loads_def)
qed

lemma dumps_inj: "wf_json v \<Longrightarrow> wf_json w \<Longrightarrow> dumps v = dumps w \<Longrightarrow> v = w"
  by (metis loads_dumps sum.inject(2))

subsection \<open>The fuel is enough\<close>

lemma cons_text_Some: "cons_text u r = Some (t, rest) \<longleftrightarrow> (\<exists>s. r = Some (s, rest) \<and> t = u @ s)"
  by (cases r) (auto simp: cons_text_def)

lemma parse_str_length: "parse_str s = Some (t, r) \<Longrightarrow> length r < length s"
proof (induction s arbitrary: t rule: length_induct)
  case (1 s)
  then have IH: "length r < length s" if "parse_str u = Some (w, r)" "length u < length s" for u w
    using that less_trans by blast
  show ?case
  proof (cases s)
    case Nil
    with "1.prems" show ?thesis by simp
  next
    case (Cons c cs)
    from "1.prems" Cons IH show ?thesis
      by (auto simp: cons_text_Some split: if_splits list.splits option.splits
          dest!: low_surrogate_length)
  qed
qed

lemma skip_ws_length: "length (skip_ws s) \<le> length s"
  by (simp add: skip_ws_def length_dropWhile_le)

lemma parse_number_length: "parse_number s = Some (v, r) \<Longrightarrow> length r < length s"
proof -
  assume p: "parse_number s = Some (v, r)"
  define s1 where "s1 = drop (length (num_sign s)) s"
  define k where "k = length (num_frac (drop (length (num_int s1)) s1))
     + length (num_exp (drop (length (num_frac (drop (length (num_int s1)) s1)))
         (drop (length (num_int s1)) s1)))"
  have "num_int s1 \<noteq> []" "r = drop (k + length (num_int s1)) s1"
    using p by (auto simp: parse_number_def Let_def s1_def k_def add_ac split: if_splits)
  moreover have "s1 \<noteq> []" using calculation(1) by (auto simp: num_int_def)
  ultimately have "length r < length s1"
    by (simp add: diff_less)
  then show ?thesis by (simp add: s1_def)
qed

lemma strip_prefix_length: "p \<noteq> [] \<Longrightarrow> strip_prefix p s = Some r \<Longrightarrow> length r < length s"
  by (auto simp: strip_prefix_def starts_with_iff split: if_splits)

lemma parse_word_length: "parse_word s = Some (v, r) \<Longrightarrow> length r < length s"
  by (auto simp: parse_word_def split: option.splits
      dest: strip_prefix_length [rotated] parse_number_length)

lemma skip_ws_Cons_length: "skip_ws s = c # cs \<Longrightarrow> length cs < length s"
  using skip_ws_length [of s] by simp

lemma parse_length:
  shows "parse_value n s = Some (v, r) \<Longrightarrow> length r < length s"
    and "parse_items n s = Some (vs, r) \<Longrightarrow> length r < length s"
    and "parse_members n s = Some (kvs, r) \<Longrightarrow> length r < length s"
proof (induction n s and n s and n s arbitrary: v r and vs r and kvs r
    rule: parse_value_parse_items_parse_members.induct)
  case (3 n c cs)
  have ws: "length (skip_ws cs) \<le> length cs" by (rule skip_ws_length)
  show ?case
  proof (cases "c = CHR 0x22 \<or> c \<noteq> CHR ''{'' \<and> c \<noteq> CHR ''[''")
    case True
    with "3.prems" show ?thesis
      by (auto split: if_splits option.splits dest: parse_str_length parse_word_length)
  next
    case False
    then consider "c = CHR ''{''" | "c = CHR ''[''" by blast
    then show ?thesis
    proof cases
      case 1
      show ?thesis
      proof (cases "skip_ws cs \<noteq> [] \<and> hd (skip_ws cs) = CHR ''}''")
        case True
        with 1 "3.prems" ws show ?thesis by (auto simp: Let_def)
      next
        case False
        with 1 "3.prems" obtain kvs where "parse_members n (skip_ws cs) = Some (kvs, r)"
          by (auto simp: Let_def split: option.splits)
        with "3.IH"(1) 1 False ws show ?thesis by fastforce
      qed
    next
      case 2
      show ?thesis
      proof (cases "skip_ws cs \<noteq> [] \<and> hd (skip_ws cs) = CHR '']''")
        case True
        with 2 "3.prems" ws show ?thesis by (auto simp: Let_def)
      next
        case False
        with 2 "3.prems" obtain vs where "parse_items n (skip_ws cs) = Some (vs, r)"
          by (auto simp: Let_def split: option.splits)
        with "3.IH"(2) 2 False ws show ?thesis by fastforce
      qed
    qed
  qed
next
  case (5 n s)
  from "5.prems" obtain v r1 c cs where a: "parse_value n s = Some (v, r1)" "skip_ws r1 = c # cs"
    by (auto split: option.splits list.splits)
  have r1: "length r1 < length s" by (rule "5.IH"(1) [OF a(1)])
  have cs: "length cs < length r1" by (rule skip_ws_Cons_length [OF a(2)])
  show ?case
  proof (cases "c = CHR '']''")
    case True
    with a "5.prems" r1 cs show ?thesis by simp
  next
    case False
    with a "5.prems" obtain vs' where "c = CHR '',''" "parse_items n (skip_ws cs) = Some (vs', r)"
      by (auto split: option.splits if_splits)
    with "5.IH"(2) [OF a(1) _ a(2)] False have "length r < length (skip_ws cs)" by auto
    with r1 cs skip_ws_length [of cs] show ?thesis by simp
  qed
next
  case (8 n q s)
  from "8.prems" obtain k r1 c cs v r2 d ds where a: "q = CHR 0x22" "parse_str s = Some (k, r1)"
      "skip_ws r1 = c # cs" "c = CHR '':''" "parse_value n (skip_ws cs) = Some (v, r2)"
      "skip_ws r2 = d # ds"
    by (auto split: option.splits list.splits if_splits)
  have l: "length r1 < length s" "length cs < length r1" "length ds < length r2"
    using parse_str_length [OF a(2)] skip_ws_Cons_length [OF a(3)] skip_ws_Cons_length [OF a(6)]
    by auto
  have "length r2 < length (skip_ws cs)"
    using "8.IH"(1) a by auto
  then have r2: "length r2 < length cs" using skip_ws_length [of cs] by simp
  show ?case
  proof (cases "d = CHR ''}''")
    case True
    with a "8.prems" l r2 show ?thesis by simp
  next
    case False
    with a "8.prems" obtain kvs' where "d = CHR '',''" "parse_members n (skip_ws ds) = Some (kvs', r)"
      by (auto split: option.splits if_splits)
    with "8.IH"(2) a False have "length r < length (skip_ws ds)" by auto
    with l r2 skip_ws_length [of ds] show ?thesis by simp
  qed
qed auto

lemma parse_enough:
  shows "2 * length s + 1 \<le> n \<Longrightarrow> parse_value (Suc n) s = parse_value n s"
    and "2 * length s + 2 \<le> n \<Longrightarrow> parse_items (Suc n) s = parse_items n s"
    and "2 * length s + 2 \<le> n \<Longrightarrow> parse_members (Suc n) s = parse_members n s"
proof (induction n s and n s and n s rule: parse_value_parse_items_parse_members.induct)
  case (3 n c cs)
  have "2 * length (skip_ws cs) + 2 \<le> n"
    using "3.prems" skip_ws_length [of cs] by simp
  with "3.IH" show ?case
    by (cases "skip_ws cs") (simp_all add: Let_def del: parse_items.simps parse_members.simps)
next
  case (5 n s)
  have v: "parse_value (Suc n) s = parse_value n s" using 5 by simp
  show ?case
  proof (cases "parse_value n s")
    case None
    with v show ?thesis by simp
  next
    case (Some vr)
    obtain w r where vr: "vr = (w, r)" by (cases vr)
    show ?thesis
    proof (cases "skip_ws r")
      case Nil
      with v Some vr show ?thesis by simp
    next
      case (Cons c cs)
      have "length r < length s" using Some vr by (intro parse_length(1)) simp
      with skip_ws_Cons_length [OF Cons] skip_ws_length [of cs]
      have "2 * length (skip_ws cs) + 2 \<le> n" using "5.prems" by simp
      then have "c \<noteq> CHR '']'' \<longrightarrow> c = CHR '','' \<longrightarrow> parse_items (Suc n) (skip_ws cs) = parse_items n (skip_ws cs)"
        using "5.IH"(2) [OF Some vr [symmetric] Cons] by blast
      then have "parse_items (Suc (Suc n)) s = parse_items (Suc n) s"
        unfolding parse_items.simps v Some vr by (auto simp: Cons simp del: parse_items.simps)
      then show ?thesis .
    qed
  qed
next
  case (8 n q s)
  show ?case
  proof (cases "q = CHR 0x22 \<and> parse_str s \<noteq> None")
    case False
    then show ?thesis by (cases "parse_str s") auto
  next
    case True
    then obtain k r where q: "q = CHR 0x22" "parse_str s = Some (k, r)" by auto
    have lr: "length r < length s" using parse_str_length [OF q(2)] .
    show ?thesis
    proof (cases "\<exists>cs. skip_ws r = CHR '':'' # cs")
      case False
      with q show ?thesis by (cases "skip_ws r") auto
    next
      case True
      then obtain cs where cs: "skip_ws r = CHR '':'' # cs" by blast
      have lcs: "length (skip_ws cs) < length r"
        using skip_ws_Cons_length [OF cs] skip_ws_length [of cs] by simp
      have v: "parse_value (Suc n) (skip_ws cs) = parse_value n (skip_ws cs)"
        using "8.IH"(1) q cs lcs lr "8.prems" by auto
      show ?thesis
      proof (cases "parse_value n (skip_ws cs)")
        case None
        with v q cs show ?thesis by simp
      next
        case (Some vr)
        obtain w r2 where vr: "vr = (w, r2)" by (cases vr)
        have l2: "length r2 < length (skip_ws cs)" using Some vr by (intro parse_length(1)) simp
        show ?thesis
        proof (cases "skip_ws r2")
          case Nil
          with v q cs Some vr show ?thesis by simp
        next
          case (Cons d ds)
          have "2 * length (skip_ws ds) + 2 \<le> n"
            using skip_ws_Cons_length [OF Cons] skip_ws_length [of ds] l2 lcs lr "8.prems" by simp
          then have "d \<noteq> CHR ''}'' \<longrightarrow> d = CHR '','' \<longrightarrow>
              parse_members (Suc n) (skip_ws ds) = parse_members n (skip_ws ds)"
            using "8.IH"(2) q cs Some vr Cons by auto
          then have "parse_members (Suc (Suc n)) (q # s) = parse_members (Suc n) (q # s)"
            unfolding parse_members.simps q(2) using q cs v Some vr
            by (auto simp: Cons simp del: parse_members.simps)
          then show ?thesis .
        qed
      qed
    qed
  qed
qed auto

lemma parse_value_enough:
  assumes "2 * length s + 1 \<le> n"
  shows "parse_value (n + k) s = parse_value n s"
  using assms by (induction k) (simp_all add: parse_enough(1))

subsection \<open>Sorted keys\<close>

abbreviation sort_member :: "string \<times> json \<Rightarrow> string \<times> json" where
  "sort_member \<equiv> \<lambda>(k, v). (k, sort_keys v)"

lemma sort_keys_Obj: "sort_keys (JObj kvs) = JObj (map sort_member (sort_key fst kvs))"
  by (simp add: sort_key_map split_beta)

lemma sort_keys_idem [simp]: "sort_keys (sort_keys v) = sort_keys v"
proof (induction v)
  case (JArr vs)
  then show ?case by simp
next
  case (JObj kvs)
  have "map (sort_member \<circ> sort_member) (sort_key fst kvs) = map sort_member (sort_key fst kvs)"
    using JObj.IH by (auto intro!: map_cong simp: snds.simps split: prod.splits)
  moreover have "sort_key fst (map sort_member (sort_key fst kvs)) = map sort_member (sort_key fst kvs)"
    by (simp add: sort_key_map split_beta sort_key_id_if_sorted)
  ultimately show ?case by (simp add: sort_keys_Obj del: sort_keys.simps(2))
qed simp_all

lemma wf_json_sort_keys: "wf_json v \<Longrightarrow> wf_json (sort_keys v)"
proof (induction v)
  case (JArr vs)
  then show ?case by (auto simp: wf_items_iff)
next
  case (JObj kvs)
  have "distinct (map fst (map sort_member (sort_key fst kvs)))"
    using JObj.prems by (simp add: comp_def split_beta distinct_fst_sort_key)
  moreover have "wf_members (map sort_member (sort_key fst kvs))"
    using JObj by (fastforce simp: wf_members_iff snds.simps split_beta)
  ultimately show ?case by (simp add: sort_keys_Obj del: sort_keys.simps(2))
qed simp_all

definition dumps_sorted :: "json \<Rightarrow> string" where
  "dumps_sorted v = dumps (sort_keys v)"

theorem loads_dumps_sorted: "wf_json v \<Longrightarrow> loads (dumps_sorted v) = Inr (sort_keys v)"
  by (simp add: dumps_sorted_def loads_dumps wf_json_sort_keys)

lemma dumps_sorted_inj:
  "wf_json v \<Longrightarrow> wf_json w \<Longrightarrow> dumps_sorted v = dumps_sorted w \<Longrightarrow> sort_keys v = sort_keys w"
  by (metis loads_dumps_sorted sum.inject(2))

lemma dumps_sorted_sort_keys [simp]: "dumps_sorted (sort_keys v) = dumps_sorted v"
  by (simp add: dumps_sorted_def)

text \<open>\<open>d.get(k)\<close> on a loaded object.\<close>

fun obj_get :: "json \<Rightarrow> string \<Rightarrow> json option" where
  "obj_get (JObj kvs) k = map_of kvs k"
| "obj_get _ k = None"

lemma obj_get_sort_keys:
  assumes "distinct (map fst kvs)"
  shows "obj_get (sort_keys (JObj kvs)) k = map_option sort_keys (map_of kvs k)"
proof -
  have "map_of (map sort_member (sort_key fst kvs)) k = map_option sort_keys (map_of (sort_key fst kvs) k)"
    by (rule map_of_map [THEN fun_cong, unfolded comp_def])
  then show ?thesis
    using assms by (simp add: sort_keys_Obj map_of_sort_key_fst del: sort_keys.simps(2))
qed

definition drop_key :: "string \<Rightarrow> (string \<times> json) list \<Rightarrow> (string \<times> json) list" where
  "drop_key k kvs = filter (\<lambda>kv. fst kv \<noteq> k) kvs"

text \<open>Dropping a member and then serializing does not depend on the order of the members.\<close>

lemma dumps_sorted_drop_key:
  "sort_keys (JObj kvs) = JObj kvs' \<Longrightarrow>
    dumps_sorted (JObj (drop_key k kvs')) = dumps_sorted (JObj (drop_key k kvs))"
proof -
  assume "sort_keys (JObj kvs) = JObj kvs'"
  then have kvs': "kvs' = map sort_member (sort_key fst kvs)"
    by (simp add: sort_keys_Obj del: sort_keys.simps(2))
  have "drop_key k kvs' = map sort_member (sort_key fst (drop_key k kvs))"
    by (simp add: kvs' drop_key_def filter_map comp_def split_beta filter_sort)
  then have "JObj (drop_key k kvs') = sort_keys (JObj (drop_key k kvs))"
    by (simp add: sort_keys_Obj del: sort_keys.simps(2))
  then show ?thesis by (simp del: sort_keys.simps(2))
qed

lemma wf_drop_key: "wf_json (JObj kvs) \<Longrightarrow> wf_json (JObj (drop_key k kvs))"
  by (auto simp: drop_key_def wf_members_iff distinct_map_filter)

subsection \<open>What is read is well-formed\<close>

lemma takeWhile_digits: "\<forall>c \<in> set ds. is_digit c \<Longrightarrow> (r = [] \<or> \<not> is_digit (hd r)) \<Longrightarrow>
    takeWhile is_digit (ds @ r) = ds"
  by (induction ds) (cases r; auto)+

lemma num_int_digits: "c \<in> set (num_int s) \<Longrightarrow> is_digit c"
  by (auto simp: num_int_def split: list.splits if_splits dest: set_takeWhileD)
    (metis list.set_intros(1) list.set_intros(2) set_takeWhileD)+

lemma parse_number_wf:
  assumes "parse_number s = Some (JFloat t, r)"
  shows "wf_float t"
proof -
  define sg where "sg = num_sign s"
  define s1 where "s1 = drop (length sg) s"
  define ip where "ip = num_int s1"
  define s2 where "s2 = drop (length ip) s1"
  define fp where "fp = num_frac s2"
  define s3 where "s3 = drop (length fp) s2"
  define ep where "ep = num_exp s3"
  have t: "t = sg @ ip @ fp @ ep" and ne: "ip \<noteq> []" and fe: "fp \<noteq> [] \<or> ep \<noteq> []"
    using assms by (auto simp: parse_number_def Let_def sg_def s1_def ip_def s2_def fp_def
        s3_def ep_def split: if_splits)
  have dig: "\<forall>c \<in> set ip. is_digit c" using num_int_digits by (auto simp: ip_def)
  have zero: "hd ip = CHR ''0'' \<Longrightarrow> ip = [hd ip]"
    using ne by (auto simp: ip_def num_int_def split: list.splits)
  have sg: "sg = [] \<or> sg = ''-''" by (auto simp: sg_def num_sign_def split: list.splits)
  have hd_ip: "is_digit (hd ip)" using dig ne by (cases ip) auto
  then have hm: "hd ip \<noteq> CHR ''-''" by (auto simp: is_digit_def)
  have fp: "fp = [] \<or> (\<exists>ds. fp = CHR ''.'' # ds \<and> ds \<noteq> [] \<and> (\<forall>c \<in> set ds. is_digit c))"
    by (auto simp: fp_def num_frac_def split: list.splits dest: set_takeWhileD)
  have ep: "ep = [] \<or> (\<exists>c sg' ds. ep = c # sg' @ ds \<and> (c = CHR ''e'' \<or> c = CHR ''E'')
      \<and> (sg' = [] \<or> sg' = ''+'' \<or> sg' = ''-'') \<and> ds \<noteq> [] \<and> (\<forall>c \<in> set ds. is_digit c))"
  proof (cases s3)
    case Nil
    then show ?thesis by (simp add: ep_def)
  next
    case (Cons c cs)
    define ds where "ds = takeWhile is_digit (drop (length (exp_sign cs)) cs)"
    have "exp_sign cs = [] \<or> exp_sign cs = ''+'' \<or> exp_sign cs = ''-''"
      by (auto simp: exp_sign_def split: list.splits)
    moreover have "\<forall>c \<in> set ds. is_digit c" by (auto simp: ds_def dest: set_takeWhileD)
    moreover have "ep = (if (c = CHR ''e'' \<or> c = CHR ''E'') \<and> ds \<noteq> [] then c # exp_sign cs @ ds else [])"
      by (simp add: ep_def Cons num_exp_def Let_def ds_def)
    ultimately show ?thesis by auto
  qed
  have nd: "\<not> is_digit (CHR ''.'')" "\<not> is_digit (CHR ''e'')" "\<not> is_digit (CHR ''E'')"
      "\<not> is_digit (CHR ''+'')" "\<not> is_digit (CHR ''-'')"
    by (simp_all add: is_digit_def)
  have fe_hd: "fp @ ep = [] \<or> \<not> is_digit (hd (fp @ ep))" using fp ep nd by auto
  have 1: "num_sign t = sg" using sg ne hm by (cases ip) (auto simp: t num_sign_def)
  have 2: "num_int (ip @ fp @ ep) = ip"
    using takeWhile_digits [OF dig fe_hd] ne zero by (cases ip) (auto simp: num_int_def)
  have ep_hd: "ep = [] \<or> \<not> is_digit (hd ep)" using ep nd by auto
  have 3: "num_frac (fp @ ep) = fp"
    using fp
  proof
    assume "fp = []"
    moreover have "num_frac ep = []" using ep by (auto simp: num_frac_def)
    ultimately show ?thesis by simp
  next
    assume "\<exists>ds. fp = CHR ''.'' # ds \<and> ds \<noteq> [] \<and> (\<forall>c \<in> set ds. is_digit c)"
    then obtain ds where ds: "fp = CHR ''.'' # ds" "ds \<noteq> []" "\<forall>c \<in> set ds. is_digit c" by blast
    with takeWhile_digits [OF ds(3) ep_hd] show ?thesis by (simp add: num_frac_def)
  qed
  have 4: "num_exp ep = ep"
  proof (cases "ep = []")
    case True
    then show ?thesis by simp
  next
    case False
    then obtain c sg' ds where e: "ep = c # sg' @ ds" "c = CHR ''e'' \<or> c = CHR ''E''"
        "sg' = [] \<or> sg' = ''+'' \<or> sg' = ''-''" "ds \<noteq> []" "\<forall>c \<in> set ds. is_digit c"
      using ep by blast
    have "is_digit (hd ds)" using e(4,5) by (cases ds) auto
    then have "exp_sign (sg' @ ds) = sg'"
      using e(3,4) nd by (cases ds) (auto simp: exp_sign_def)
    moreover have "takeWhile is_digit ds = ds"
      using takeWhile_digits [OF e(5), of "[]"] by simp
    ultimately show ?thesis using e(1,2,4) by (auto simp: num_exp_def Let_def simp del: takeWhile_eq_all_conv)
  qed
  have "parse_number t = Some (JFloat t, [])"
    unfolding parse_number_def Let_def 1
    using ne fe by (simp add: t 2 3 4)
  then show ?thesis by (simp add: wf_float_def)
qed

lemma parse_word_wf: "parse_word s = Some (v, r) \<Longrightarrow> wf_json v"
proof -
  assume p: "parse_word s = Some (v, r)"
  have "wf_json v" if "parse_number s = Some (v, r)"
  proof -
    from that consider i where "v = JInt i" | u where "v = JFloat u"
      by (auto simp: parse_number_def Let_def split: if_splits)
    then show ?thesis
    proof cases
      case 1
      then show ?thesis by simp
    next
      case 2
      with that show ?thesis by (auto intro: parse_number_wf)
    qed
  qed
  with p show ?thesis
    by (auto simp: parse_word_def wf_float_def split: option.splits)
qed

lemma wf_members_dict_of: "wf_members kvs \<Longrightarrow> wf_members (dict_of kvs)"
proof -
  have "wf_members d \<Longrightarrow> wf_members kvs \<Longrightarrow>
      wf_members (foldl (\<lambda>d (k, v). dict_set k v d) d kvs)" for d
  proof (induction kvs arbitrary: d)
    case Nil
    then show ?case by simp
  next
    case (Cons kv kvs)
    obtain k v where kv: "kv = (k, v)" by (cases kv)
    have "wf_members (dict_set k v d)"
      using Cons.prems kv by (induction d) auto
    with Cons kv show ?case by simp
  qed
  then show "wf_members kvs \<Longrightarrow> wf_members (dict_of kvs)" by (simp add: dict_of_def)
qed

lemma parse_wf:
  shows "parse_value n s = Some (v, r) \<Longrightarrow> wf_json v"
    and "parse_items n s = Some (vs, r) \<Longrightarrow> wf_items vs"
    and "parse_members n s = Some (kvs, r) \<Longrightarrow> wf_members kvs"
proof (induction n s and n s and n s arbitrary: v r and vs r and kvs r
    rule: parse_value_parse_items_parse_members.induct)
  case (3 n c cs)
  show ?case
  proof (cases "c = CHR 0x22 \<or> c \<noteq> CHR ''{'' \<and> c \<noteq> CHR ''[''")
    case True
    with "3.prems" show ?thesis
      by (auto split: if_splits option.splits dest: parse_word_wf)
  next
    case False
    with "3.prems" "3.IH" show ?thesis
      by (auto simp: Let_def distinct_dict_of wf_members_dict_of split: if_splits option.splits)
  qed
next
  case (5 n s)
  from "5.prems" obtain w r1 c cs where a: "parse_value n s = Some (w, r1)" "skip_ws r1 = c # cs"
    by (auto split: option.splits list.splits)
  have w: "wf_json w" by (rule "5.IH"(1) [OF a(1)])
  show ?case
  proof (cases "c = CHR '']''")
    case True
    with a "5.prems" w show ?thesis by auto
  next
    case False
    with a "5.prems" obtain vs' where "c = CHR '',''" "parse_items n (skip_ws cs) = Some (vs', r)"
        "vs = w # vs'"
      by (auto split: option.splits if_splits)
    with "5.IH"(2) [OF a(1) _ a(2)] False w show ?thesis by auto
  qed
next
  case (8 n q s)
  from "8.prems" obtain k r1 c cs w r2 d ds where a: "q = CHR 0x22" "parse_str s = Some (k, r1)"
      "skip_ws r1 = c # cs" "c = CHR '':''" "parse_value n (skip_ws cs) = Some (w, r2)"
      "skip_ws r2 = d # ds"
    by (auto split: option.splits list.splits if_splits)
  have w: "wf_json w" using "8.IH"(1) a by auto
  show ?case
  proof (cases "d = CHR ''}''")
    case True
    with a "8.prems" w show ?thesis by auto
  next
    case False
    with a "8.prems" obtain kvs' where "d = CHR '',''" "parse_members n (skip_ws ds) = Some (kvs', r)"
        "kvs = (k, w) # kvs'"
      by (auto split: option.splits if_splits)
    with "8.IH"(2) a False w show ?thesis by auto
  qed
qed auto

theorem loads_wf: "loads s = Inr v \<Longrightarrow> wf_json v"
  by (auto simp: loads_def split: option.splits if_splits dest: parse_wf(1))

text \<open>More fuel than \<open>loads\<close> uses never changes a parse.\<close>

lemma loads_fuel:
  "parse_value (2 * length s + 2 + k) (skip_ws s) = parse_value (2 * length s + 2) (skip_ws s)"
  using skip_ws_length [of s] by (intro parse_value_enough) simp

end
