(* ===== verification/I18n.thy ===== *)
theory I18n
  imports Prelude
begin

text \<open>
  \<open>koguchi/i18n.py\<close>: the JSON message catalogs, the locale and the catalog cache as
  explicit state, the fallback chain of \<open>t\<close> and the part of \<open>str.format\<close> it
  uses. The catalog files are data: \<open>files loc\<close> is the parsed content of
  \<open>locales/<loc>.json\<close>, \<open>None\<close> when the file does not exist. The main
  result is that the cache is not observable (\<open>t_translate\<close>), so the other theories use
  the stateless \<open>translate\<close>.
\<close>

type_synonym catalog = "(string \<times> string) list"

record i18n =
  cur_locale :: string
  catalogs :: "(string \<times> catalog) list"

definition DEFAULT_LOCALE :: string where
  "DEFAULT_LOCALE = ''ja''"

text \<open>
  The module-level initialisation: \<open>os.environ.get("KOGUCHI_LOCALE", "ja")\<close> and an empty
  cache.
\<close>

definition i18n_init :: "string option \<Rightarrow> i18n" where
  "i18n_init env = \<lparr>cur_locale = (case env of None \<Rightarrow> DEFAULT_LOCALE | Some l \<Rightarrow> l), catalogs = []\<rparr>"

definition load_catalog :: "(string \<Rightarrow> catalog option) \<Rightarrow> string \<Rightarrow> catalog" where
  "load_catalog files loc = (case files loc of None \<Rightarrow> [] | Some c \<Rightarrow> c)"

definition get_catalog :: "(string \<Rightarrow> catalog option) \<Rightarrow> string \<Rightarrow> i18n \<Rightarrow> catalog \<times> i18n" where
  "get_catalog files loc st =
     (case map_of (catalogs st) loc of
        Some c \<Rightarrow> (c, st)
      | None \<Rightarrow> (let c = load_catalog files loc
                 in (c, st\<lparr>catalogs := dict_set loc c (catalogs st)\<rparr>)))"

definition set_locale :: "string \<Rightarrow> i18n \<Rightarrow> i18n" where
  "set_locale loc st = st\<lparr>cur_locale := loc\<rparr>"

definition get_locale :: "i18n \<Rightarrow> string" where
  "get_locale st = cur_locale st"

text \<open>\<open>s.replace(cc, c)\<close> for a doubled character: left to right, without overlap.\<close>

fun collapse :: "char \<Rightarrow> string \<Rightarrow> string" where
  "collapse c (x # y # s) = (if x = c \<and> y = c then c # collapse c s else x # collapse c (y # s))"
| "collapse c s = s"

text \<open>
  \<open>str.format(**params)\<close> for replacement fields that are plain names; doubled braces are
  literal braces. An empty or numeric field asks for a positional argument, of which there are
  none. A field with an attribute, an index, a conversion or a format specification does not
  occur in the catalogs and is reported as \<open>OtherError\<close>.
\<close>

definition field_value :: "(string \<times> string) list \<Rightarrow> string \<Rightarrow> exn + string" where
  "field_value params f =
     (if f = [] \<or> (\<forall>c \<in> set f. is_digit c) then Inl (IndexError f)
      else if CHR ''{'' \<in> set f then Inl (ValueError f)
      else if \<exists>c \<in> set f. c \<in> {CHR ''.'', CHR ''['', CHR ''!'', CHR '':''} then Inl (OtherError f)
      else (case map_of params f of None \<Rightarrow> Inl (KeyError f) | Some v \<Rightarrow> Inr v))"

function (sequential) str_format :: "string \<Rightarrow> (string \<times> string) list \<Rightarrow> exn + string" where
  "str_format [] params = Inr []"
| "str_format (c # cs) params =
     (if c = CHR ''{'' then
        (if cs \<noteq> [] \<and> hd cs = CHR ''{'' then map_sum id ((#) (CHR ''{'')) (str_format (tl cs) params)
         else if CHR ''}'' \<notin> set cs then Inl (ValueError cs)
         else (case field_value params (takeWhile (\<lambda>x. x \<noteq> CHR ''}'') cs) of
                 Inl e \<Rightarrow> Inl e
               | Inr v \<Rightarrow> map_sum id ((@) v)
                   (str_format (tl (dropWhile (\<lambda>x. x \<noteq> CHR ''}'') cs)) params)))
      else if c = CHR ''}'' then
        (if cs \<noteq> [] \<and> hd cs = CHR ''}'' then map_sum id ((#) (CHR ''}'')) (str_format (tl cs) params)
         else Inl (ValueError cs))
      else map_sum id ((#) c) (str_format cs params))"
  by pat_completeness auto
termination
proof (relation "measure (\<lambda>(s, params). length s)", goal_cases)
  case (3 c cs params v)
  have "length (dropWhile (\<lambda>x. x \<noteq> CHR ''}'') cs) \<le> length cs" by (rule length_dropWhile_le)
  then show ?case by simp
qed auto

text \<open>The end of \<open>t\<close>: braces are halved, and a missing parameter leaves the template.\<close>

definition expand :: "string \<Rightarrow> (string \<times> string) list \<Rightarrow> exn + string" where
  "expand template params =
     (let fmt = collapse (CHR ''}'') (collapse (CHR ''{'') template)
      in (case str_format fmt params of Inl (KeyError k) \<Rightarrow> Inr fmt | r \<Rightarrow> r))"

definition t :: "(string \<Rightarrow> catalog option) \<Rightarrow> string \<Rightarrow> (string \<times> string) list \<Rightarrow> (i18n, string) py" where
  "t files key params st =
     (let loc = cur_locale st;
          (tmpl1, st1) =
            (if loc \<noteq> DEFAULT_LOCALE
             then (let (c, s) = get_catalog files loc st in (map_of c key, s))
             else (None, st));
          (tmpl2, st2) =
            (if tmpl1 = None
             then (let (c, s) = get_catalog files DEFAULT_LOCALE st1 in (map_of c key, s))
             else (tmpl1, st1));
          tmpl = (case tmpl2 of None \<Rightarrow> key | Some m \<Rightarrow> m)
      in (expand tmpl params, st2))"

text \<open>The same without the cache: requested locale, then \<open>ja\<close>, then the key itself.\<close>

definition translate ::
  "(string \<Rightarrow> catalog option) \<Rightarrow> string \<Rightarrow> string \<Rightarrow> (string \<times> string) list \<Rightarrow> exn + string" where
  "translate files loc key params =
     expand (case map_of (load_catalog files loc) key of
               Some m \<Rightarrow> m
             | None \<Rightarrow> (case map_of (load_catalog files DEFAULT_LOCALE) key of
                         Some m \<Rightarrow> m | None \<Rightarrow> key)) params"

definition cache_ok :: "(string \<Rightarrow> catalog option) \<Rightarrow> i18n \<Rightarrow> bool" where
  "cache_ok files st \<longleftrightarrow> (\<forall>loc c. map_of (catalogs st) loc = Some c \<longrightarrow> c = load_catalog files loc)"

lemma cache_ok_init: "cache_ok files (i18n_init env)"
  by (simp add: cache_ok_def i18n_init_def)

lemma get_catalog_ok:
  "cache_ok files st \<Longrightarrow>
     fst (get_catalog files loc st) = load_catalog files loc
     \<and> cache_ok files (snd (get_catalog files loc st))
     \<and> cur_locale (snd (get_catalog files loc st)) = cur_locale st"
  by (auto simp: get_catalog_def cache_ok_def Let_def update_conv split: option.splits if_splits)

lemma t_cache_ok:
  assumes "cache_ok files st"
  shows "fst (t files key params st) = translate files (cur_locale st) key params"
    and "cache_ok files (snd (t files key params st))"
proof -
  obtain c1 s1 where 1: "get_catalog files (cur_locale st) st = (c1, s1)" by fastforce
  obtain c2 s2 where 2: "get_catalog files DEFAULT_LOCALE s1 = (c2, s2)" by fastforce
  obtain c3 s3 where 3: "get_catalog files DEFAULT_LOCALE st = (c3, s3)" by fastforce
  have f: "c1 = load_catalog files (cur_locale st)" "cache_ok files s1"
      "c2 = load_catalog files DEFAULT_LOCALE" "cache_ok files s2"
      "c3 = load_catalog files DEFAULT_LOCALE" "cache_ok files s3"
    using get_catalog_ok [OF assms, of "cur_locale st"] get_catalog_ok [of files s1 DEFAULT_LOCALE]
      get_catalog_ok [OF assms, of DEFAULT_LOCALE] 1 2 3 by auto
  show "fst (t files key params st) = translate files (cur_locale st) key params"
    using f 1 2 3 by (auto simp: t_def translate_def Let_def split: option.splits)
  show "cache_ok files (snd (t files key params st))"
    using f 1 2 3 assms by (auto simp: t_def Let_def)
qed

subsection \<open>Well-formed catalog messages\<close>

text \<open>
  A message is literal text and named parameters; the catalogs write a parameter \<open>p\<close> as
  \<open>{{p}}\<close>.
\<close>

datatype part = Lit string | Param string

fun part_template :: "part \<Rightarrow> string" where
  "part_template (Lit s) = s"
| "part_template (Param p) = ''{{'' @ p @ ''}}''"

fun part_ok :: "(string \<times> string) list \<Rightarrow> part \<Rightarrow> bool" where
  "part_ok params (Lit s) = (CHR ''{'' \<notin> set s \<and> CHR ''}'' \<notin> set s)"
| "part_ok params (Param p) =
     (p \<noteq> [] \<and> (\<forall>c \<in> set p. \<not> is_digit c \<and> c \<notin> {CHR ''{'', CHR ''}'', CHR ''.'', CHR ''['', CHR ''!'', CHR '':''})
      \<and> map_of params p \<noteq> None)"

fun part_value :: "(string \<times> string) list \<Rightarrow> part \<Rightarrow> string" where
  "part_value params (Lit s) = s"
| "part_value params (Param p) = (case map_of params p of None \<Rightarrow> [] | Some v \<Rightarrow> v)"

fun part_halved :: "part \<Rightarrow> string" where
  "part_halved (Lit s) = s"
| "part_halved (Param p) = ''{'' @ p @ ''}''"

fun part_open :: "part \<Rightarrow> string" where
  "part_open (Lit s) = s"
| "part_open (Param p) = ''{'' @ p @ ''}}''"

lemma collapse_plain: "c \<notin> set s \<Longrightarrow> collapse c (s @ r) = s @ collapse c r"
proof (induction s)
  case Nil
  then show ?case by simp
next
  case (Cons x s)
  then show ?case by (cases "s @ r") auto
qed

lemma collapse_open:
  "list_all (part_ok params) ps \<Longrightarrow>
     collapse (CHR ''{'') (concat (map part_template ps)) = concat (map part_open ps)"
proof (induction ps)
  case Nil
  then show ?case by simp
next
  case (Cons p ps)
  show ?case
  proof (cases p)
    case (Lit s)
    with Cons show ?thesis by (simp add: collapse_plain)
  next
    case (Param q)
    have "CHR ''{'' \<notin> set (q @ ''}}'')" using Cons.prems Param by auto
    then have "collapse (CHR ''{'') ((q @ ''}}'') @ concat (map part_template ps))
        = (q @ ''}}'') @ collapse (CHR ''{'') (concat (map part_template ps))"
      by (rule collapse_plain)
    with Cons Param show ?thesis by simp
  qed
qed

lemma collapse_close:
  "list_all (part_ok params) ps \<Longrightarrow>
     collapse (CHR ''}'') (concat (map part_open ps)) = concat (map part_halved ps)"
proof (induction ps)
  case Nil
  then show ?case by simp
next
  case (Cons p ps)
  show ?case
  proof (cases p)
    case (Lit s)
    with Cons show ?thesis by (simp add: collapse_plain)
  next
    case (Param q)
    have "CHR ''}'' \<notin> set (CHR ''{'' # q)" using Cons.prems Param by auto
    then have "collapse (CHR ''}'') ((CHR ''{'' # q) @ ''}}'' @ concat (map part_open ps))
        = (CHR ''{'' # q) @ collapse (CHR ''}'') (''}}'' @ concat (map part_open ps))"
      by (rule collapse_plain)
    with Cons Param show ?thesis by simp
  qed
qed

lemma str_format_plain:
  "CHR ''{'' \<notin> set s \<Longrightarrow> CHR ''}'' \<notin> set s \<Longrightarrow>
     str_format (s @ r) params = map_sum id ((@) s) (str_format r params)"
proof (induction s)
  case Nil
  then show ?case by (cases "str_format r params") auto
next
  case (Cons c s)
  then show ?case by (cases "str_format r params") auto
qed

lemma takeWhile_field: "x \<notin> set q \<Longrightarrow> takeWhile (\<lambda>y. y \<noteq> x) (q @ x # r) = q"
  by (induction q) auto

lemma dropWhile_field: "x \<notin> set q \<Longrightarrow> dropWhile (\<lambda>y. y \<noteq> x) (q @ x # r) = x # r"
  by (induction q) auto

lemma str_format_field:
  assumes "part_ok params (Param q)"
  shows "str_format (''{'' @ q @ ''}'' @ r) params
     = map_sum id ((@) (part_value params (Param q))) (str_format r params)"
proof -
  obtain c cs where q: "q = c # cs" using assms by (cases q) auto
  obtain v where v: "map_of params q = Some v" using assms by auto
  have br: "CHR ''}'' \<notin> set q" using assms by auto
  have "field_value params q = Inr v"
    using assms v by (auto simp: field_value_def q)
  moreover have "hd (q @ ''}'' @ r) \<noteq> CHR ''{''" using assms q by auto
  ultimately show ?thesis
    using v takeWhile_field [OF br, of r] dropWhile_field [OF br, of r] by simp
qed

lemma str_format_parts:
  "list_all (part_ok params) ps \<Longrightarrow>
     str_format (concat (map part_halved ps)) params = Inr (concat (map (part_value params) ps))"
proof (induction ps)
  case Nil
  then show ?case by simp
next
  case (Cons p ps)
  show ?case
  proof (cases p)
    case (Lit s)
    with Cons show ?thesis by (simp add: str_format_plain)
  next
    case (Param q)
    then have "part_ok params (Param q)" using Cons.prems by simp
    from str_format_field [OF this, of "concat (map part_halved ps)"] Cons Param show ?thesis by simp
  qed
qed

lemma expand_parts:
  "list_all (part_ok params) ps \<Longrightarrow>
     expand (concat (map part_template ps)) params = Inr (concat (map (part_value params) ps))"
  by (simp add: expand_def collapse_open collapse_close str_format_parts)

end
