(* ===== verification/HashChain.thy ===== *)
theory HashChain
  imports Json I18n
begin

text \<open>
  \<open>koguchi/hashchain.py\<close>, and what the two hash-linked stores (\<open>store.py\<close>,
  \<open>decision.py\<close>) share: the environment the code reads (SHA-256, \<open>uuid4\<close>, the
  clock, the locale files), the shape of a chain and the interface \<open>hash_log\<close> of an
  append-only store, with the client's lemma that linking to \<open>last_hash\<close> and appending
  keeps the chain intact whatever the store's failures.
\<close>

subsection \<open>Environment\<close>

text \<open>
  \<open>sha256\<close> is \<open>hashlib.sha256(..).hexdigest()\<close>, \<open>getcwd\<close> the components of the
  working directory; the \<open>i\<close>-th call of
  \<open>uuid.uuid4()\<close> and of \<open>datetime.now(UTC)\<close> in a run returns \<open>uuid4 E i\<close> and
  \<open>now E i\<close>. A datetime is the text that \<open>model_dump_json\<close> writes for it (UTC as
  \<open>Z\<close>).
\<close>

record py_env =
  sha256 :: "string \<Rightarrow> string"
  uuid4 :: "nat \<Rightarrow> string"
  now :: "nat \<Rightarrow> string"
  locale_files :: "string \<Rightarrow> catalog option"
  locale_name :: string
  getcwd :: "string list"

definition tr :: "py_env \<Rightarrow> string \<Rightarrow> (string \<times> string) list \<Rightarrow> exn + string" where
  "tr E key params = translate (locale_files E) (locale_name E) key params"

text \<open>\<open>raise C(t(key, ..))\<close>: an error of \<open>t\<close> itself is what gets raised.\<close>

definition raise_tr :: "(string \<Rightarrow> exn) \<Rightarrow> py_env \<Rightarrow> string \<Rightarrow> (string \<times> string) list \<Rightarrow> exn" where
  "raise_tr C E key params = (case tr E key params of Inl e \<Rightarrow> e | Inr m \<Rightarrow> C m)"

text \<open>\<open>datetime.isoformat()\<close> and \<open>datetime.fromisoformat\<close> between the two texts.\<close>

definition isoformat :: "string \<Rightarrow> string" where
  "isoformat d = (if ends_with d ''Z'' then butlast d @ ''+00:00'' else d)"

definition fromisoformat :: "string \<Rightarrow> string" where
  "fromisoformat s = (if ends_with s ''+00:00'' then take (length s - 6) s @ ''Z'' else s)"

lemma fromisoformat_isoformat:
  "\<not> ends_with d ''+00:00'' \<Longrightarrow> fromisoformat (isoformat d) = d"
proof -
  assume d: "\<not> ends_with d ''+00:00''"
  show ?thesis
  proof (cases "ends_with d ''Z''")
    case True
    then obtain r where r: "d = r @ ''Z''" by (auto simp: ends_with_iff)
    then show ?thesis by (simp add: isoformat_def fromisoformat_def ends_with_iff)
  next
    case False
    with d show ?thesis by (simp add: isoformat_def fromisoformat_def)
  qed
qed

subsection \<open>Hashes\<close>

definition GENESIS_HASH :: string where
  "GENESIS_HASH = replicate 64 (CHR ''0'')"

definition canonical_serialize :: "json \<Rightarrow> string" where
  "canonical_serialize payload = dumps_sorted payload"

definition compute_hash :: "(string \<Rightarrow> string) \<Rightarrow> string \<Rightarrow> json \<Rightarrow> string" where
  "compute_hash sha prev payload = sha (prev @ canonical_serialize payload)"

lemma length_GENESIS_HASH [simp]: "length GENESIS_HASH = 64"
  by (simp add: GENESIS_HASH_def)

text \<open>
  Two payloads hashed with the same result are the same up to key order, unless the two texts
  that were hashed collide. The predecessor hashes have the same length, so the texts split.
\<close>

definition hash_input :: "string \<Rightarrow> json \<Rightarrow> string" where
  "hash_input prev payload = prev @ canonical_serialize payload"

lemma compute_hash_input: "compute_hash sha prev payload = sha (hash_input prev payload)"
  by (simp add: compute_hash_def hash_input_def)

lemma hash_input_inj:
  assumes "length p = length q" "wf_json v" "wf_json w" "hash_input p v = hash_input q w"
  shows "p = q \<and> sort_keys v = sort_keys w"
  using assms dumps_sorted_inj [OF assms(2,3)]
  by (simp add: hash_input_def canonical_serialize_def)

subsection \<open>Chains\<close>

text \<open>The hash a new record has to link to, and linkage of a list of records.\<close>

definition tip :: "('e \<Rightarrow> string) \<Rightarrow> 'e list \<Rightarrow> string" where
  "tip ehash es = (if es = [] then GENESIS_HASH else ehash (last es))"

fun linked_from :: "('e \<Rightarrow> string) \<Rightarrow> ('e \<Rightarrow> string option) \<Rightarrow> string \<Rightarrow> 'e list \<Rightarrow> bool" where
  "linked_from ehash eprev h [] = True"
| "linked_from ehash eprev h (e # es) =
     (eprev e = Some h \<and> linked_from ehash eprev (ehash e) es)"

lemma tip_snoc [simp]: "tip ehash (es @ [e]) = ehash e"
  by (simp add: tip_def)

lemma linked_from_append:
  "linked_from ehash eprev h (es @ fs) \<longleftrightarrow>
     linked_from ehash eprev h es
     \<and> linked_from ehash eprev (if es = [] then h else ehash (last es)) fs"
  by (induction es arbitrary: h) auto

lemma linked_from_snoc:
  "linked_from ehash eprev GENESIS_HASH es \<Longrightarrow> eprev e = Some (tip ehash es) \<Longrightarrow>
     linked_from ehash eprev GENESIS_HASH (es @ [e])"
  by (auto simp: linked_from_append tip_def)

subsection \<open>The interface of a hash-linked log\<close>

text \<open>
  What a client may rely on, whatever the store: \<open>last_hash\<close> reads the tip of the chain,
  a successful \<open>append\<close> adds exactly the record, and a failing one adds nothing or (a
  commit that fails after the row was inserted) leaves the record visible, what is on disk being a
  prefix of what is visible. \<open>log\<close> is what
  the store's queries see of the records (\<open>view\<close>), \<open>durable_log\<close> what is on disk.
\<close>

locale hash_log =
  fixes append :: "'e \<Rightarrow> ('s, unit) py"
    and last_hash :: "('s, string) py"
    and view :: "'e \<Rightarrow> 'v"
    and log :: "'s \<Rightarrow> 'v list"
    and durable_log :: "'s \<Rightarrow> 'v list"
    and inv :: "'s \<Rightarrow> bool"
    and ok :: "'e \<Rightarrow> bool"
    and ehash :: "'v \<Rightarrow> string"
    and eprev :: "'v \<Rightarrow> string option"
  assumes last_hash_tip: "inv s \<Longrightarrow> last_hash s = (Inr h, s') \<Longrightarrow> h = tip ehash (log s)"
    and last_hash_frame:
      "inv s \<Longrightarrow> last_hash s = (r, s') \<Longrightarrow> inv s' \<and> log s' = log s \<and> durable_log s' = durable_log s"
    and append_ok:
      "inv s \<Longrightarrow> ok e \<Longrightarrow> append e s = (Inr u, s') \<Longrightarrow>
         inv s' \<and> log s' = log s @ [view e] \<and> durable_log s' = log s'"
    and append_error:
      "inv s \<Longrightarrow> ok e \<Longrightarrow> append e s = (Inl x, s') \<Longrightarrow>
         inv s' \<and> (log s' = log s \<or> log s' = log s @ [view e]) \<and> durable_log s' = durable_log s"
    and durable_prefix: "inv s \<Longrightarrow> prefix (durable_log s) (log s)"
begin

definition chained :: "('v \<Rightarrow> bool) \<Rightarrow> 's \<Rightarrow> bool" where
  "chained sealed s \<longleftrightarrow>
     linked_from ehash eprev GENESIS_HASH (log s) \<and> (\<forall>v \<in> set (log s). sealed v)"

lemma append_cases:
  assumes "inv s" "ok e" "append e s = (r, s')"
  shows "inv s' \<and> (log s' = log s \<or> log s' = log s @ [view e])"
  using append_ok [OF assms(1,2)] append_error [OF assms(1,2)] assms(3) by (cases r) auto

text \<open>The pattern of every client: read the tip, build a record on it, append it.\<close>

lemma link_and_append_chained:
  assumes "inv s" "chained sealed s" "last_hash s = (Inr h, s1)"
    and "eprev (view e) = Some h" "sealed (view e)" "ok e" "append e s1 = (r, s2)"
  shows "chained sealed s2"
proof -
  have h: "h = tip ehash (log s)" using last_hash_tip assms(1,3) by blast
  have s1: "inv s1" "log s1 = log s" using last_hash_frame assms(1,3) by blast+
  with append_cases [OF s1(1) assms(6,7)] assms(2,4,5) h show ?thesis
    by (auto simp: chained_def intro: linked_from_snoc)
qed

text \<open>Losing the records that were not yet durable leaves a chain.\<close>

lemma chained_prefix:
  assumes "chained sealed s" "prefix (log s') (log s)"
  shows "chained sealed s'"
  using assms by (auto simp: chained_def linked_from_append prefix_def)

lemma last_hash_chained:
  "inv s \<Longrightarrow> chained sealed s \<Longrightarrow> last_hash s = (r, s') \<Longrightarrow> chained sealed s'"
  using last_hash_frame by (auto simp: chained_def)

end

end
