(* ===== verification/Events.thy ===== *)
theory Events
  imports HashChain "HOL-Library.Monad_Syntax"
begin

text \<open>
  \<open>koguchi/envelope.py\<close> and \<open>koguchi/events.py\<close>: the envelope, the execution event
  and \<open>ProxyResult\<close>; \<open>model_dump_json\<close> followed by \<open>json.loads\<close> as
  \<open>event_pairs\<close>, and \<open>ExecutionEvent(**json.loads(payload))\<close> as
  \<open>decode_event\<close>. A \<open>float\<close> is its \<open>repr\<close>. Main results: the decoder reads
  back every stored event, and the hash of an event can be recomputed from its stored payload.
\<close>

datatype proxy_result = SUCCESS | FAILURE | REJECTED | UNCONFIRMED

datatype event_type =
  Intent_Pending | Execution_Committed | Execution_Failed | Reconciliation_Observed

datatype side_effect = SE_None | SE_Partial | SE_Unknown | SE_Confirmed

record action_envelope =
  env_action_id :: string
  env_tool :: string
  env_target :: string
  env_parameters_digest :: string
  env_expected_result_digest :: "string option"
  env_permission_scope :: string
  env_risk_class :: "string list"
  env_redaction_policy :: "string option"

record execution_event =
  ev_event_id :: string
  ev_record_id :: string
  ev_timestamp :: string
  ev_event_type :: event_type
  ev_envelope :: "action_envelope option"
  ev_result_digest :: "string option"
  ev_error_digest :: "string option"
  ev_side_effect :: "side_effect option"
  ev_confidence :: "string option"
  ev_previous_hash :: "string option"
  ev_hash :: string
  ev_intent :: "string option"
  ev_decision_ref :: "string option"
  ev_context_ref :: "string option"
  ev_rde_ref :: "string option"

fun event_type_str :: "event_type \<Rightarrow> string" where
  "event_type_str Intent_Pending = ''intent_pending''"
| "event_type_str Execution_Committed = ''execution_committed''"
| "event_type_str Execution_Failed = ''execution_failed''"
| "event_type_str Reconciliation_Observed = ''reconciliation_observed''"

fun side_effect_str :: "side_effect \<Rightarrow> string" where
  "side_effect_str SE_None = ''none''"
| "side_effect_str SE_Partial = ''partial''"
| "side_effect_str SE_Unknown = ''unknown''"
| "side_effect_str SE_Confirmed = ''confirmed''"

text \<open>The \<open>Literal\<close> types reject every other string.\<close>

definition event_type_of :: "string \<Rightarrow> event_type option" where
  "event_type_of s =
     (if s = ''intent_pending'' then Some Intent_Pending
      else if s = ''execution_committed'' then Some Execution_Committed
      else if s = ''execution_failed'' then Some Execution_Failed
      else if s = ''reconciliation_observed'' then Some Reconciliation_Observed
      else None)"

definition side_effect_of :: "string \<Rightarrow> side_effect option" where
  "side_effect_of s =
     (if s = ''none'' then Some SE_None
      else if s = ''partial'' then Some SE_Partial
      else if s = ''unknown'' then Some SE_Unknown
      else if s = ''confirmed'' then Some SE_Confirmed
      else None)"

lemma event_type_of_str [simp]: "event_type_of (event_type_str k) = Some k"
  by (cases k) (simp_all add: event_type_of_def)

lemma event_type_str_inj [simp]: "event_type_str j = event_type_str k \<longleftrightarrow> j = k"
  by (cases j; cases k) simp_all

lemma side_effect_of_str [simp]: "side_effect_of (side_effect_str k) = Some k"
  by (cases k) (simp_all add: side_effect_of_def)

subsection \<open>Dumping\<close>

definition opt_str :: "string option \<Rightarrow> json" where
  "opt_str x = (case x of None \<Rightarrow> JNull | Some s \<Rightarrow> JStr s)"

definition envelope_json :: "action_envelope \<Rightarrow> json" where
  "envelope_json e = JObj
     [(''action_id'', JStr (env_action_id e)),
      (''tool'', JStr (env_tool e)),
      (''target'', JStr (env_target e)),
      (''parameters_digest'', JStr (env_parameters_digest e)),
      (''expected_result_digest'', opt_str (env_expected_result_digest e)),
      (''permission_scope'', JStr (env_permission_scope e)),
      (''risk_class'', JArr (map JStr (env_risk_class e))),
      (''redaction_policy'', opt_str (env_redaction_policy e))]"

definition event_pairs :: "execution_event \<Rightarrow> (string \<times> json) list" where
  "event_pairs e =
     [(''event_id'', JStr (ev_event_id e)),
      (''record_id'', JStr (ev_record_id e)),
      (''timestamp'', JStr (ev_timestamp e)),
      (''event_type'', JStr (event_type_str (ev_event_type e))),
      (''envelope'', (case ev_envelope e of None \<Rightarrow> JNull | Some v \<Rightarrow> envelope_json v)),
      (''result_digest'', opt_str (ev_result_digest e)),
      (''error_digest'', opt_str (ev_error_digest e)),
      (''side_effect_observed'', opt_str (map_option side_effect_str (ev_side_effect e))),
      (''confidence'', (case ev_confidence e of None \<Rightarrow> JNull | Some f \<Rightarrow> JFloat f)),
      (''previous_hash'', opt_str (ev_previous_hash e)),
      (''hash'', JStr (ev_hash e)),
      (''intent'', opt_str (ev_intent e)),
      (''decision_ref'', opt_str (ev_decision_ref e)),
      (''context_ref'', opt_str (ev_context_ref e)),
      (''rde_ref'', opt_str (ev_rde_ref e))]"

definition event_json :: "execution_event \<Rightarrow> json" where
  "event_json e = JObj (event_pairs e)"

subsection \<open>Loading\<close>

definition get_str :: "json \<Rightarrow> string \<Rightarrow> string option" where
  "get_str j k = (case obj_get j k of Some (JStr s) \<Rightarrow> Some s | _ \<Rightarrow> None)"

definition get_opt_str :: "json \<Rightarrow> string \<Rightarrow> string option option" where
  "get_opt_str j k = (case obj_get j k of
      None \<Rightarrow> Some None | Some JNull \<Rightarrow> Some None | Some (JStr s) \<Rightarrow> Some (Some s) | _ \<Rightarrow> None)"

definition get_opt_float :: "json \<Rightarrow> string \<Rightarrow> string option option" where
  "get_opt_float j k = (case obj_get j k of
      None \<Rightarrow> Some None | Some JNull \<Rightarrow> Some None | Some (JFloat f) \<Rightarrow> Some (Some f)
    | Some (JInt i) \<Rightarrow> Some (Some (show_int i @ ''.0'')) | _ \<Rightarrow> None)"

fun str_list :: "json list \<Rightarrow> string list option" where
  "str_list [] = Some []"
| "str_list (JStr s # js) = map_option ((#) s) (str_list js)"
| "str_list (_ # js) = None"

definition get_str_list :: "json \<Rightarrow> string \<Rightarrow> string list option" where
  "get_str_list j k = (case obj_get j k of Some (JArr js) \<Rightarrow> str_list js | _ \<Rightarrow> None)"

definition envelope_of_json :: "json \<Rightarrow> action_envelope option" where
  "envelope_of_json j = do {
     i \<leftarrow> get_str j ''action_id'';
     tl \<leftarrow> get_str j ''tool'';
     tg \<leftarrow> get_str j ''target'';
     pd \<leftarrow> get_str j ''parameters_digest'';
     ed \<leftarrow> get_opt_str j ''expected_result_digest'';
     ps \<leftarrow> get_str j ''permission_scope'';
     rc \<leftarrow> get_str_list j ''risk_class'';
     rp \<leftarrow> get_opt_str j ''redaction_policy'';
     Some \<lparr>env_action_id = i, env_tool = tl, env_target = tg, env_parameters_digest = pd,
       env_expected_result_digest = ed, env_permission_scope = ps, env_risk_class = rc,
       env_redaction_policy = rp\<rparr> }"

definition get_envelope :: "json \<Rightarrow> action_envelope option option" where
  "get_envelope j = (case obj_get j ''envelope'' of
      None \<Rightarrow> Some None | Some JNull \<Rightarrow> Some None
    | Some (JObj kvs) \<Rightarrow> map_option Some (envelope_of_json (JObj kvs)) | _ \<Rightarrow> None)"

definition get_side_effect :: "json \<Rightarrow> side_effect option option" where
  "get_side_effect j = (case get_opt_str j ''side_effect_observed'' of
      None \<Rightarrow> None | Some None \<Rightarrow> Some None
    | Some (Some s) \<Rightarrow> map_option Some (side_effect_of s))"

definition event_of_json :: "json \<Rightarrow> execution_event option" where
  "event_of_json j = do {
     i \<leftarrow> get_str j ''event_id'';
     ri \<leftarrow> get_str j ''record_id'';
     ts \<leftarrow> get_str j ''timestamp'';
     ty \<leftarrow> Option.bind (get_str j ''event_type'') event_type_of;
     en \<leftarrow> get_envelope j;
     rd \<leftarrow> get_opt_str j ''result_digest'';
     ed \<leftarrow> get_opt_str j ''error_digest'';
     se \<leftarrow> get_side_effect j;
     cf \<leftarrow> get_opt_float j ''confidence'';
     ph \<leftarrow> get_opt_str j ''previous_hash'';
     h \<leftarrow> get_str j ''hash'';
     it \<leftarrow> get_opt_str j ''intent'';
     dr \<leftarrow> get_opt_str j ''decision_ref'';
     cr \<leftarrow> get_opt_str j ''context_ref'';
     rr \<leftarrow> get_opt_str j ''rde_ref'';
     Some \<lparr>ev_event_id = i, ev_record_id = ri, ev_timestamp = ts, ev_event_type = ty,
       ev_envelope = en, ev_result_digest = rd, ev_error_digest = ed, ev_side_effect = se,
       ev_confidence = cf, ev_previous_hash = ph, ev_hash = h, ev_intent = it,
       ev_decision_ref = dr, ev_context_ref = cr, ev_rde_ref = rr\<rparr> }"

text \<open>\<open>ExecutionEvent(**json.loads(payload))\<close>: not a mapping, or not a valid event.\<close>

definition decode_event :: "string \<Rightarrow> exn + execution_event" where
  "decode_event payload =
     (case loads payload of
        Inl e \<Rightarrow> Inl e
      | Inr (JObj kvs) \<Rightarrow>
          (case event_of_json (JObj kvs) of
             None \<Rightarrow> Inl (ValidationError payload) | Some e \<Rightarrow> Inr e)
      | Inr _ \<Rightarrow> Inl (TypeError payload))"

subsection \<open>Round trip\<close>

definition wf_event :: "execution_event \<Rightarrow> bool" where
  "wf_event e \<longleftrightarrow> (case ev_confidence e of None \<Rightarrow> True | Some f \<Rightarrow> wf_float f)"

lemma opt_str_simps [simp]: "opt_str None = JNull" "opt_str (Some s) = JStr s"
  by (simp_all add: opt_str_def)

lemma wf_opt_str [simp]: "wf_json (opt_str x)"
  by (cases x) simp_all

lemma sort_keys_opt_str [simp]: "sort_keys (opt_str x) = opt_str x"
  by (cases x) simp_all

lemma str_list_map [simp]: "str_list (map JStr ss) = Some ss"
  by (induction ss) simp_all

lemma wf_envelope_json [simp]: "wf_json (envelope_json v)"
  by (simp add: envelope_json_def wf_items_iff)

lemma distinct_event_pairs: "distinct (map fst (event_pairs e))"
  by (simp add: event_pairs_def)

lemma wf_event_json: "wf_event e \<Longrightarrow> wf_json (event_json e)"
  by (auto simp: event_json_def event_pairs_def wf_event_def split: option.splits)

lemma get_str_sort_keys:
  "distinct (map fst kvs) \<Longrightarrow> get_str (sort_keys (JObj kvs)) k = get_str (JObj kvs) k"
  unfolding get_str_def obj_get_sort_keys
  by (auto split: option.splits json.splits elim: sort_keys.elims)

lemma sort_keys_JStr [simp]: "sort_keys v = JStr s \<longleftrightarrow> v = JStr s"
  by (cases v) auto

lemma sort_keys_JNull [simp]: "sort_keys v = JNull \<longleftrightarrow> v = JNull"
  by (cases v) auto

lemma obj_get_envelope:
  "obj_get (sort_keys (envelope_json v)) k =
     map_option sort_keys (obj_get (envelope_json v) k)"
  unfolding envelope_json_def by (subst obj_get_sort_keys) simp_all

lemma obj_get_event:
  "obj_get (sort_keys (event_json e)) k = map_option sort_keys (map_of (event_pairs e) k)"
  unfolding event_json_def by (rule obj_get_sort_keys [OF distinct_event_pairs])

lemma envelope_round_trip: "envelope_of_json (sort_keys (envelope_json v)) = Some v"
  by (simp add: envelope_of_json_def get_str_def get_opt_str_def get_str_list_def obj_get_envelope
      envelope_json_def comp_def opt_str_def split: option.splits)

lemma sort_keys_envelope_Obj: "\<exists>kvs. sort_keys (envelope_json v) = JObj kvs"
  by (simp add: envelope_json_def)

lemma get_envelope_event: "get_envelope (sort_keys (event_json e)) = Some (ev_envelope e)"
proof (cases "ev_envelope e")
  case None
  then have "obj_get (sort_keys (event_json e)) ''envelope'' = Some JNull"
    by (simp add: obj_get_event event_pairs_def)
  with None show ?thesis by (simp add: get_envelope_def)
next
  case (Some v)
  then have "obj_get (sort_keys (event_json e)) ''envelope'' = Some (sort_keys (envelope_json v))"
    by (simp add: obj_get_event event_pairs_def)
  moreover obtain kvs where "sort_keys (envelope_json v) = JObj kvs"
    using sort_keys_envelope_Obj by blast
  ultimately show ?thesis
    using Some envelope_round_trip [of v] by (simp add: get_envelope_def)
qed

lemma get_opt_str_opt: "obj_get j k = Some (opt_str x) \<Longrightarrow> get_opt_str j k = Some x"
  by (cases x) (simp_all add: get_opt_str_def)

lemma event_round_trip: "event_of_json (sort_keys (event_json e)) = Some e"
proof -
  let ?j = "sort_keys (event_json e)"
  have strs: "get_str ?j ''event_id'' = Some (ev_event_id e)"
      "get_str ?j ''record_id'' = Some (ev_record_id e)"
      "get_str ?j ''timestamp'' = Some (ev_timestamp e)"
      "get_str ?j ''event_type'' = Some (event_type_str (ev_event_type e))"
      "get_str ?j ''hash'' = Some (ev_hash e)"
    by (simp_all add: get_str_def obj_get_event event_pairs_def)
  have opts: "get_opt_str ?j ''result_digest'' = Some (ev_result_digest e)"
      "get_opt_str ?j ''error_digest'' = Some (ev_error_digest e)"
      "get_opt_str ?j ''previous_hash'' = Some (ev_previous_hash e)"
      "get_opt_str ?j ''intent'' = Some (ev_intent e)"
      "get_opt_str ?j ''decision_ref'' = Some (ev_decision_ref e)"
      "get_opt_str ?j ''context_ref'' = Some (ev_context_ref e)"
      "get_opt_str ?j ''rde_ref'' = Some (ev_rde_ref e)"
    by (rule get_opt_str_opt, simp add: obj_get_event event_pairs_def)+
  have "get_opt_str ?j ''side_effect_observed'' = Some (map_option side_effect_str (ev_side_effect e))"
    by (rule get_opt_str_opt, simp add: obj_get_event event_pairs_def)
  then have se: "get_side_effect ?j = Some (ev_side_effect e)"
    by (cases "ev_side_effect e") (simp_all add: get_side_effect_def)
  have cf: "get_opt_float ?j ''confidence'' = Some (ev_confidence e)"
    by (cases "ev_confidence e") (simp_all add: get_opt_float_def obj_get_event event_pairs_def)
  show ?thesis
    by (simp add: event_of_json_def strs opts se cf get_envelope_event)
qed

theorem decode_event_dumps:
  "wf_event e \<Longrightarrow> decode_event (dumps_sorted (event_json e)) = Inr e"
proof -
  assume "wf_event e"
  then have "loads (dumps_sorted (event_json e)) = Inr (sort_keys (event_json e))"
    by (intro loads_dumps_sorted wf_event_json)
  moreover obtain kvs where "sort_keys (event_json e) = JObj kvs"
    by (simp add: event_json_def)
  ultimately show ?thesis
    using event_round_trip [of e] by (simp add: decode_event_def)
qed

subsection \<open>Making an event\<close>

text \<open>The keyword arguments of \<open>_make_event\<close>; an omitted one is \<open>None\<close>.\<close>

record event_kwargs =
  kw_result_digest :: "string option"
  kw_error_digest :: "string option"
  kw_side_effect :: "side_effect option"
  kw_confidence :: "string option"
  kw_intent :: "string option"
  kw_decision_ref :: "string option"
  kw_context_ref :: "string option"

definition no_kwargs :: event_kwargs where
  "no_kwargs = \<lparr>kw_result_digest = None, kw_error_digest = None, kw_side_effect = None,
     kw_confidence = None, kw_intent = None, kw_decision_ref = None, kw_context_ref = None\<rparr>"

definition payload_for_hash :: "execution_event \<Rightarrow> json" where
  "payload_for_hash e = JObj (drop_key ''hash'' (event_pairs e))"

text \<open>
  \<open>_make_event\<close> (in \<open>proxy.py\<close>): the event is built with an empty hash, which is then
  replaced by the hash of the dumped event without its \<open>hash\<close> field. \<open>i\<close> counts the
  calls of \<open>uuid4\<close> and of the clock.
\<close>

definition make_event ::
  "py_env \<Rightarrow> nat \<Rightarrow> string \<Rightarrow> event_type \<Rightarrow> string \<Rightarrow> action_envelope option \<Rightarrow> event_kwargs
     \<Rightarrow> execution_event" where
  "make_event E i rid etype prev env kw =
     (let e = \<lparr>ev_event_id = uuid4 E i, ev_record_id = rid, ev_timestamp = now E i,
                ev_event_type = etype, ev_envelope = env,
                ev_result_digest = kw_result_digest kw, ev_error_digest = kw_error_digest kw,
                ev_side_effect = kw_side_effect kw, ev_confidence = kw_confidence kw,
                ev_previous_hash = Some prev, ev_hash = [], ev_intent = kw_intent kw,
                ev_decision_ref = kw_decision_ref kw, ev_context_ref = kw_context_ref kw,
                ev_rde_ref = None\<rparr>
      in e\<lparr>ev_hash := compute_hash (sha256 E) prev (payload_for_hash e)\<rparr>)"

text \<open>An event whose hash can be recomputed from its own fields.\<close>

definition event_sealed :: "(string \<Rightarrow> string) \<Rightarrow> execution_event \<Rightarrow> bool" where
  "event_sealed sha e =
     (case ev_previous_hash e of None \<Rightarrow> False
      | Some p \<Rightarrow> ev_hash e = compute_hash sha p (payload_for_hash e))"

lemma payload_for_hash_update [simp]: "payload_for_hash (e\<lparr>ev_hash := h\<rparr>) = payload_for_hash e"
  by (simp add: payload_for_hash_def event_pairs_def drop_key_def)

lemma wf_payload_for_hash: "wf_event e \<Longrightarrow> wf_json (payload_for_hash e)"
  using wf_event_json wf_drop_key by (simp only: payload_for_hash_def event_json_def)

lemma make_event_sealed: "event_sealed (sha256 E) (make_event E i rid ty prev env kw)"
  by (simp add: event_sealed_def make_event_def Let_def payload_for_hash_def event_pairs_def
      drop_key_def)

definition wf_kwargs :: "event_kwargs \<Rightarrow> bool" where
  "wf_kwargs kw \<longleftrightarrow> (case kw_confidence kw of None \<Rightarrow> True | Some f \<Rightarrow> wf_float f)"

lemma wf_make_event: "wf_kwargs kw \<Longrightarrow> wf_event (make_event E i rid ty prev env kw)"
  by (simp add: wf_event_def wf_kwargs_def make_event_def Let_def)

lemma make_event_fields [simp]:
  "ev_event_id (make_event E i rid ty prev env kw) = uuid4 E i"
  "ev_record_id (make_event E i rid ty prev env kw) = rid"
  "ev_timestamp (make_event E i rid ty prev env kw) = now E i"
  "ev_event_type (make_event E i rid ty prev env kw) = ty"
  "ev_envelope (make_event E i rid ty prev env kw) = env"
  "ev_result_digest (make_event E i rid ty prev env kw) = kw_result_digest kw"
  "ev_error_digest (make_event E i rid ty prev env kw) = kw_error_digest kw"
  "ev_side_effect (make_event E i rid ty prev env kw) = kw_side_effect kw"
  "ev_confidence (make_event E i rid ty prev env kw) = kw_confidence kw"
  "ev_previous_hash (make_event E i rid ty prev env kw) = Some prev"
  "ev_intent (make_event E i rid ty prev env kw) = kw_intent kw"
  "ev_decision_ref (make_event E i rid ty prev env kw) = kw_decision_ref kw"
  "ev_context_ref (make_event E i rid ty prev env kw) = kw_context_ref kw"
  by (simp_all add: make_event_def Let_def)

lemma no_kwargs_fields [simp]:
  "kw_result_digest no_kwargs = None" "kw_error_digest no_kwargs = None"
  "kw_side_effect no_kwargs = None" "kw_confidence no_kwargs = None"
  "kw_intent no_kwargs = None" "kw_decision_ref no_kwargs = None"
  "kw_context_ref no_kwargs = None"
  by (simp_all add: no_kwargs_def)

end
