(* ===== verification/Store.thy ===== *)
theory Store
  imports Events
begin

text \<open>
  \<open>koguchi/store.py\<close>: the \<open>ExecutionStore\<close> protocol as a record of operations,
  the append-only SQLite table behind one connection, its queries, and \<open>verify_chain\<close>.
  A table is the list of its rows in \<open>rowid\<close> order. Rows that were inserted but whose
  \<open>commit\<close> failed stay in the connection's open transaction (\<open>staged\<close>): this
  connection sees them and the next successful \<open>commit\<close> makes them durable. SQLite
  failures come from a schedule, one entry per statement that can fail.
\<close>

subsection \<open>The protocol\<close>

record 's execution_store =
  es_append :: "execution_event \<Rightarrow> ('s, unit) py"
  es_last_hash :: "('s, string) py"
  es_events_for :: "string \<Rightarrow> 's \<Rightarrow> exn + execution_event list"
  es_pending :: "'s \<Rightarrow> exn + execution_event list"
  es_committed :: "'s \<Rightarrow> exn + execution_event list"

subsection \<open>The SQLite table\<close>

record exec_row =
  row_event_id :: string
  row_record_id :: string
  row_timestamp :: string
  row_event_type :: string
  row_payload :: string
  row_hash :: string

datatype db_fault = NoFault | InsertFails string | CommitFails string

record exec_db =
  durable :: "exec_row list"
  staged :: "exec_row list"
  write_faults :: "db_fault list"
  read_faults :: "string option list"

definition visible :: "exec_db \<Rightarrow> exec_row list" where
  "visible db = durable db @ staged db"

text \<open>A new \<open>:memory:\<close> database, with the failures its statements will meet.\<close>

definition empty_exec_db :: "db_fault list \<Rightarrow> string option list \<Rightarrow> exec_db" where
  "empty_exec_db wfs rfs = \<lparr>durable = [], staged = [], write_faults = wfs, read_faults = rfs\<rparr>"

definition next_fault :: "db_fault list \<Rightarrow> db_fault" where
  "next_fault fs = (case fs of [] \<Rightarrow> NoFault | f # _ \<Rightarrow> f)"

definition row_of_event :: "execution_event \<Rightarrow> exec_row" where
  "row_of_event e =
     \<lparr>row_event_id = ev_event_id e, row_record_id = ev_record_id e,
      row_timestamp = isoformat (ev_timestamp e),
      row_event_type = event_type_str (ev_event_type e),
      row_payload = dumps_sorted (event_json e), row_hash = ev_hash e\<rparr>"

text \<open>
  \<open>append\<close>: \<open>INSERT\<close> (which fails on a duplicate \<open>event_id\<close>, the column being
  \<open>UNIQUE\<close>), then \<open>commit\<close>; every \<open>sqlite3.Error\<close> becomes
  \<open>StoreWriteError\<close>, without a rollback.
\<close>

definition exec_append :: "execution_event \<Rightarrow> (exec_db, unit) py" where
  "exec_append e db =
     (let row = row_of_event e; db' = db\<lparr>write_faults := tl (write_faults db)\<rparr>
      in (case next_fault (write_faults db) of
            InsertFails m \<Rightarrow> (Inl (StoreWriteError m), db')
          | f \<Rightarrow>
              if ev_event_id e \<in> set (map row_event_id (visible db))
              then (Inl (StoreWriteError ''UNIQUE constraint failed: execution_events.event_id''), db')
              else (case f of
                      CommitFails m \<Rightarrow> (Inl (StoreWriteError m), db'\<lparr>staged := staged db @ [row]\<rparr>)
                    | _ \<Rightarrow> (Inr (), db'\<lparr>durable := visible db @ [row], staged := []\<rparr>))))"

definition exec_last_hash :: "(exec_db, string) py" where
  "exec_last_hash db =
     (let db' = db\<lparr>read_faults := tl (read_faults db)\<rparr>
      in (case read_faults db of
            Some m # _ \<Rightarrow> (Inl (OtherError m), db')
          | _ \<Rightarrow> (Inr (if visible db = [] then GENESIS_HASH else row_hash (last (visible db))), db')))"

definition decode_rows :: "exec_row list \<Rightarrow> exn + execution_event list" where
  "decode_rows rows = traverse (\<lambda>r. decode_event (row_payload r)) rows"

definition exec_events_for :: "string \<Rightarrow> exec_db \<Rightarrow> exn + execution_event list" where
  "exec_events_for rid db = decode_rows (filter (\<lambda>r. row_record_id r = rid) (visible db))"

definition closed_ids :: "exec_row list \<Rightarrow> string list" where
  "closed_ids rows = map row_record_id
     (filter (\<lambda>r. row_event_type r \<in> {''execution_committed'', ''execution_failed''}) rows)"

definition exec_pending :: "exec_db \<Rightarrow> exn + execution_event list" where
  "exec_pending db = decode_rows
     (filter (\<lambda>r. row_event_type r = ''intent_pending''
                  \<and> row_record_id r \<notin> set (closed_ids (visible db))) (visible db))"

definition exec_committed :: "exec_db \<Rightarrow> exn + execution_event list" where
  "exec_committed db = decode_rows
     (filter (\<lambda>r. row_event_type r = ''execution_committed'') (visible db))"

definition sqlite_execution_store :: "exec_db execution_store" where
  "sqlite_execution_store =
     \<lparr>es_append = exec_append, es_last_hash = exec_last_hash, es_events_for = exec_events_for,
      es_pending = exec_pending, es_committed = exec_committed\<rparr>"

subsection \<open>Chain verification\<close>

datatype chain_diagnosis = Previous_Hash_Mismatch | Hash_Mismatch

record chain_finding =
  cf_row_index :: nat
  cf_event_id :: "json option"
  cf_diagnosis :: chain_diagnosis
  cf_detail :: string

definition prev_of :: "(string \<times> json) list \<Rightarrow> json" where
  "prev_of kvs = (case map_of kvs ''previous_hash'' of None \<Rightarrow> JStr [] | Some v \<Rightarrow> v)"

text \<open>
  The body of the loop for one row. A payload that is not JSON or not an object, or whose
  \<open>previous_hash\<close> is not a string, ends \<open>verify_chain\<close> with an exception
  (\<open>compute_hash\<close> encodes it); \<open>t\<close> runs first where the linkage fails.
\<close>

definition check_row ::
  "py_env \<Rightarrow> nat \<Rightarrow> string \<Rightarrow> string \<Rightarrow> string \<Rightarrow> exn + chain_finding list" where
  "check_row E i prev_hash payload_str stored_hash =
     (case loads payload_str of
        Inl e \<Rightarrow> Inl e
      | Inr (JObj kvs) \<Rightarrow>
          (let eid = map_of kvs ''event_id'';
               actual = (case prev_of kvs of JStr p \<Rightarrow> p | _ \<Rightarrow> [])
           in (case (if prev_of kvs = JStr prev_hash then Inr []
                     else (case tr E ''chain.previous_hash_mismatch''
                               [(''expected'', take 12 prev_hash), (''actual'', take 12 actual)] of
                             Inl e \<Rightarrow> Inl e
                           | Inr d \<Rightarrow> Inr [\<lparr>cf_row_index = i, cf_event_id = eid,
                                            cf_diagnosis = Previous_Hash_Mismatch, cf_detail = d\<rparr>])) of
                 Inl e \<Rightarrow> Inl e
               | Inr link \<Rightarrow>
                   (case prev_of kvs of
                      JStr p \<Rightarrow>
                        (let recomputed = compute_hash (sha256 E) p (JObj (drop_key ''hash'' kvs))
                         in if recomputed = stored_hash then Inr link
                            else (case tr E ''chain.hash_mismatch''
                                      [(''stored'', take 12 stored_hash),
                                       (''recomputed'', take 12 recomputed)] of
                                    Inl e \<Rightarrow> Inl e
                                  | Inr d \<Rightarrow> Inr (link @ [\<lparr>cf_row_index = i, cf_event_id = eid,
                                                   cf_diagnosis = Hash_Mismatch, cf_detail = d\<rparr>])))
                    | _ \<Rightarrow> Inl (AttributeError ''encode''))))
      | Inr _ \<Rightarrow> Inl (AttributeError ''get''))"

fun verify_rows ::
  "py_env \<Rightarrow> nat \<Rightarrow> string \<Rightarrow> (string \<times> string) list \<Rightarrow> exn + chain_finding list" where
  "verify_rows E i prev_hash [] = Inr []"
| "verify_rows E i prev_hash ((payload_str, stored_hash) # rows) =
     (case check_row E i prev_hash payload_str stored_hash of
        Inl e \<Rightarrow> Inl e
      | Inr fs \<Rightarrow> (case verify_rows E (Suc i) stored_hash rows of
                    Inl e \<Rightarrow> Inl e | Inr gs \<Rightarrow> Inr (fs @ gs)))"

definition verify_chain :: "py_env \<Rightarrow> exec_db \<Rightarrow> exn + chain_finding list" where
  "verify_chain E db =
     verify_rows E 0 GENESIS_HASH (map (\<lambda>r. (row_payload r, row_hash r)) (visible db))"

subsection \<open>The table as a log of events\<close>

definition rows_log :: "exec_row list \<Rightarrow> execution_event list" where
  "rows_log rows = map (\<lambda>r. projr (decode_event (row_payload r))) rows"

definition rows_ok :: "exec_row list \<Rightarrow> bool" where
  "rows_ok rows \<longleftrightarrow> (\<forall>r \<in> set rows. \<exists>e. wf_event e \<and> r = row_of_event e)"

definition exec_log :: "exec_db \<Rightarrow> execution_event list" where
  "exec_log db = rows_log (visible db)"

definition exec_durable :: "exec_db \<Rightarrow> execution_event list" where
  "exec_durable db = rows_log (durable db)"

definition exec_inv :: "exec_db \<Rightarrow> bool" where
  "exec_inv db \<longleftrightarrow> rows_ok (visible db)"

lemma decode_row: "wf_event e \<Longrightarrow> decode_event (row_payload (row_of_event e)) = Inr e"
  by (simp add: row_of_event_def decode_event_dumps)

lemma rows_log_simps [simp]:
  "rows_log [] = []"
  "rows_log (xs @ ys) = rows_log xs @ rows_log ys"
  "wf_event e \<Longrightarrow> rows_log [row_of_event e] = [e]"
  by (simp_all add: rows_log_def decode_row)

lemma rows_ok_simps [simp]:
  "rows_ok []"
  "rows_ok (xs @ ys) \<longleftrightarrow> rows_ok xs \<and> rows_ok ys"
  "wf_event e \<Longrightarrow> rows_ok [row_of_event e]"
  by (auto simp: rows_ok_def)

lemma rows_ok_map: "rows_ok rows \<Longrightarrow> rows = map row_of_event (rows_log rows)"
proof (induction rows)
  case Nil
  then show ?case by simp
next
  case (Cons r rows)
  then obtain e where e: "wf_event e" "r = row_of_event e" by (auto simp: rows_ok_def)
  from Cons have "rows = map row_of_event (rows_log rows)" by (simp add: rows_ok_def)
  with e show ?case by (simp add: rows_log_def decode_row)
qed

lemma rows_ok_wf: "rows_ok rows \<Longrightarrow> e \<in> set (rows_log rows) \<Longrightarrow> wf_event e"
  by (auto simp: rows_ok_def rows_log_def decode_row)

lemma rows_log_length [simp]: "length (rows_log rows) = length rows"
  by (simp add: rows_log_def)

lemma rows_log_Nil_iff [simp]: "rows_log rows = [] \<longleftrightarrow> rows = []"
  by (simp add: rows_log_def)

lemma decode_rows_ok: "rows_ok rows \<Longrightarrow> decode_rows rows = Inr (rows_log rows)"
  unfolding decode_rows_def rows_log_def
  by (rule traverse_Inr_map) (auto simp: rows_ok_def decode_row)

text \<open>A query by columns is a filter of the log.\<close>

lemma decode_rows_filter:
  assumes "rows_ok rows" "\<And>e. P (row_of_event e) = Q e"
  shows "decode_rows (filter P rows) = Inr (filter Q (rows_log rows))"
proof -
  let ?es = "filter Q (rows_log rows)"
  have "filter P (map row_of_event (rows_log rows)) = map row_of_event ?es"
    using assms(2) by (simp add: filter_map comp_def)
  then have P: "filter P rows = map row_of_event ?es"
    using rows_ok_map [OF assms(1)] by simp
  have "traverse (\<lambda>r. decode_event (row_payload r)) (map row_of_event es) = Inr es"
    if "\<forall>e \<in> set es. wf_event e" for es
    using that by (induction es) (simp_all add: decode_row)
  moreover have "\<forall>e \<in> set ?es. wf_event e"
    using rows_ok_wf [OF assms(1)] by auto
  ultimately show ?thesis unfolding decode_rows_def P by blast
qed

text \<open>
  The abstract reading of the queries: \<open>pending\<close> is the intents whose record no commit or
  failure closes.
\<close>

definition closes :: "execution_event \<Rightarrow> bool" where
  "closes e \<longleftrightarrow> ev_event_type e \<in> {Execution_Committed, Execution_Failed}"

definition pending_events :: "execution_event list \<Rightarrow> execution_event list" where
  "pending_events es =
     filter (\<lambda>e. ev_event_type e = Intent_Pending
                 \<and> ev_record_id e \<notin> set (map ev_record_id (filter closes es))) es"

definition committed_events :: "execution_event list \<Rightarrow> execution_event list" where
  "committed_events es = filter (\<lambda>e. ev_event_type e = Execution_Committed) es"

lemma row_of_event_fields [simp]:
  "row_event_id (row_of_event e) = ev_event_id e"
  "row_record_id (row_of_event e) = ev_record_id e"
  "row_event_type (row_of_event e) = event_type_str (ev_event_type e)"
  "row_hash (row_of_event e) = ev_hash e"
  "row_payload (row_of_event e) = dumps_sorted (event_json e)"
  by (simp_all add: row_of_event_def)

lemma event_type_str_eqs [simp]:
  "event_type_str k = ''intent_pending'' \<longleftrightarrow> k = Intent_Pending"
  "event_type_str k = ''execution_committed'' \<longleftrightarrow> k = Execution_Committed"
  "event_type_str k = ''execution_failed'' \<longleftrightarrow> k = Execution_Failed"
  by (cases k; simp)+

lemma closed_ids_log:
  assumes "rows_ok rows"
  shows "closed_ids rows = map ev_record_id (filter closes (rows_log rows))"
proof -
  have "closed_ids (map row_of_event es) = map ev_record_id (filter closes es)" for es
    by (simp add: closed_ids_def filter_map comp_def closes_def [abs_def])
  from this [of "rows_log rows"] show ?thesis using rows_ok_map [OF assms] by simp
qed

lemma exec_events_for_log:
  "exec_inv db \<Longrightarrow> exec_events_for rid db = Inr (filter (\<lambda>e. ev_record_id e = rid) (exec_log db))"
  unfolding exec_inv_def exec_events_for_def exec_log_def by (rule decode_rows_filter) simp_all

lemma exec_pending_log: "exec_inv db \<Longrightarrow> exec_pending db = Inr (pending_events (exec_log db))"
  unfolding exec_inv_def exec_pending_def exec_log_def pending_events_def
  by (rule decode_rows_filter) (simp_all add: closed_ids_log)

lemma exec_committed_log: "exec_inv db \<Longrightarrow> exec_committed db = Inr (committed_events (exec_log db))"
  unfolding exec_inv_def exec_committed_def exec_log_def committed_events_def
  by (rule decode_rows_filter) simp_all

subsection \<open>The store implements the interface of a hash-linked log\<close>

text \<open>The protocol, with the queries a reconciler needs, as an extension of \<open>hash_log\<close>.\<close>

locale execution_log =
  hash_log "es_append ops" "es_last_hash ops" "\<lambda>e. e" log durable_log inv wf_event
    ev_hash ev_previous_hash
  for ops :: "'s execution_store"
    and log :: "'s \<Rightarrow> execution_event list"
    and durable_log :: "'s \<Rightarrow> execution_event list"
    and inv :: "'s \<Rightarrow> bool" +
  assumes events_for_log:
      "inv s \<Longrightarrow> es_events_for ops rid s = Inr (filter (\<lambda>e. ev_record_id e = rid) (log s))"
    and pending_log: "inv s \<Longrightarrow> es_pending ops s = Inr (pending_events (log s))"
    and committed_log: "inv s \<Longrightarrow> es_committed ops s = Inr (committed_events (log s))"

lemma last_rows_log: "rows_ok rows \<Longrightarrow> rows \<noteq> [] \<Longrightarrow> row_hash (last rows) = ev_hash (last (rows_log rows))"
proof -
  assume ok: "rows_ok rows" and ne: "rows \<noteq> []"
  then have "last rows = row_of_event (last (rows_log rows))"
    using rows_ok_map [OF ok] last_map [of "rows_log rows" row_of_event] by simp
  then show ?thesis by simp
qed

lemma exec_last_hash_frame:
  "exec_last_hash db = (r, db') \<Longrightarrow> durable db' = durable db \<and> staged db' = staged db"
  by (auto simp: exec_last_hash_def Let_def split: list.splits option.splits)

lemma exec_append_cases:
  assumes "exec_append e db = (r, db')"
  shows "durable db' = durable db \<and> staged db' = staged db \<and> isl r
    \<or> durable db' = durable db \<and> staged db' = staged db @ [row_of_event e] \<and> isl r
    \<or> durable db' = visible db @ [row_of_event e] \<and> staged db' = [] \<and> r = Inr ()"
  using assms by (auto simp: exec_append_def Let_def split: db_fault.splits if_splits)

interpretation sq: execution_log sqlite_execution_store exec_log exec_durable exec_inv
proof (unfold_locales, goal_cases)
  case (1 s h s')
  then show ?case
    by (auto simp: sqlite_execution_store_def exec_last_hash_def exec_inv_def exec_log_def tip_def
        last_rows_log Let_def split: list.splits option.splits)
next
  case (2 s r s')
  then show ?case
    using exec_last_hash_frame [of s r s']
    by (simp add: sqlite_execution_store_def exec_inv_def exec_log_def exec_durable_def visible_def)
next
  case (3 s e u s')
  then have "exec_append e s = (Inr u, s')" by (simp add: sqlite_execution_store_def)
  from exec_append_cases [OF this] 3 show ?case
    by (auto simp: exec_inv_def exec_log_def exec_durable_def visible_def)
next
  case (4 s e x s')
  then have "exec_append e s = (Inl x, s')" by (simp add: sqlite_execution_store_def)
  from exec_append_cases [OF this] 4 show ?case
    by (auto simp: exec_inv_def exec_log_def exec_durable_def visible_def)
next
  case (5 s)
  then show ?case by (simp add: exec_durable_def exec_log_def visible_def)
next
  case (6 s rid)
  then show ?case by (simp add: sqlite_execution_store_def exec_events_for_log)
next
  case (7 s)
  then show ?case by (simp add: sqlite_execution_store_def exec_pending_log)
next
  case (8 s)
  then show ?case by (simp add: sqlite_execution_store_def exec_committed_log)
qed

subsection \<open>Soundness and tamper evidence of \<open>verify_chain\<close>\<close>

text \<open>One row that \<open>verify_chain\<close> accepts after a row with hash \<open>h\<close>.\<close>

definition row_accepted :: "(string \<Rightarrow> string) \<Rightarrow> string \<Rightarrow> string \<times> string \<Rightarrow> bool" where
  "row_accepted sha h row =
     (case loads (fst row) of
        Inr (JObj kvs) \<Rightarrow> prev_of kvs = JStr h \<and> snd row = compute_hash sha h (JObj (drop_key ''hash'' kvs))
      | _ \<Rightarrow> False)"

fun rows_accepted :: "(string \<Rightarrow> string) \<Rightarrow> string \<Rightarrow> (string \<times> string) list \<Rightarrow> bool" where
  "rows_accepted sha h [] = True"
| "rows_accepted sha h (row # rows) = (row_accepted sha h row \<and> rows_accepted sha (snd row) rows)"

lemma check_row_Nil: "check_row E i h p s = Inr [] \<longleftrightarrow> row_accepted (sha256 E) h (p, s)"
  by (auto simp: check_row_def row_accepted_def Let_def
      split: sum.splits json.splits if_splits list.splits)

lemma verify_rows_Nil: "verify_rows E i h rows = Inr [] \<longleftrightarrow> rows_accepted (sha256 E) h rows"
proof (induction rows arbitrary: i h)
  case Nil
  then show ?case by simp
next
  case (Cons row rows)
  obtain p s where row: "row = (p, s)" by (cases row)
  show ?case
    using Cons [of "Suc i" s] check_row_Nil [of E i h p s] row
    by (auto split: sum.splits)
qed

lemma row_accepted_event:
  assumes "wf_event e" "event_sealed sha e" "ev_previous_hash e = Some h"
  shows "row_accepted sha h (row_payload (row_of_event e), row_hash (row_of_event e))"
proof -
  obtain kvs where kvs: "sort_keys (event_json e) = JObj kvs" by (simp add: event_json_def)
  have l: "loads (dumps_sorted (event_json e)) = Inr (JObj kvs)"
    using loads_dumps_sorted [OF wf_event_json [OF assms(1)]] kvs by simp
  have "obj_get (JObj kvs) ''previous_hash'' = Some (opt_str (ev_previous_hash e))"
    using obj_get_event [of e "''previous_hash''"] kvs by (simp add: event_pairs_def)
  then have p: "prev_of kvs = JStr h" by (simp add: prev_of_def assms(3))
  have "dumps_sorted (JObj (drop_key ''hash'' kvs)) = dumps_sorted (payload_for_hash e)"
    using kvs unfolding event_json_def payload_for_hash_def by (rule dumps_sorted_drop_key)
  then have "compute_hash sha h (JObj (drop_key ''hash'' kvs)) = ev_hash e"
    using assms(2,3) by (simp add: event_sealed_def compute_hash_def canonical_serialize_def)
  with l p show ?thesis by (simp add: row_accepted_def)
qed

lemma rows_accepted_events:
  assumes "\<forall>e \<in> set es. wf_event e \<and> event_sealed sha e"
    and "linked_from ev_hash ev_previous_hash h es"
  shows "rows_accepted sha h (map (\<lambda>e. (row_payload (row_of_event e), row_hash (row_of_event e))) es)"
  using assms
proof (induction es arbitrary: h)
  case Nil
  then show ?case by simp
next
  case (Cons e es)
  then have "row_accepted sha h (row_payload (row_of_event e), row_hash (row_of_event e))"
    by (intro row_accepted_event) auto
  with Cons show ?case by simp
qed

lemma verify_chain_chained:
  assumes "exec_inv db" "sq.chained (event_sealed (sha256 E)) db"
  shows "verify_chain E db = Inr []"
proof -
  have v: "visible db = map row_of_event (exec_log db)"
    using assms(1) rows_ok_map by (simp add: exec_inv_def exec_log_def)
  have "\<forall>e \<in> set (exec_log db). wf_event e \<and> event_sealed (sha256 E) e"
    using assms rows_ok_wf by (auto simp: exec_inv_def exec_log_def sq.chained_def)
  moreover have "linked_from ev_hash ev_previous_hash GENESIS_HASH (exec_log db)"
    using assms(2) by (simp add: sq.chained_def)
  ultimately have "rows_accepted (sha256 E) GENESIS_HASH
      (map (\<lambda>r. (row_payload r, row_hash r)) (visible db))"
    unfolding v map_map comp_def by (rule rows_accepted_events)
  then show ?thesis by (simp add: verify_chain_def verify_rows_Nil)
qed

text \<open>
  The texts the accepted rows were hashed from, and the content of a row up to the order of
  the keys and its unprotected \<open>hash\<close> field.
\<close>

definition row_content :: "string \<times> string \<Rightarrow> json option" where
  "row_content row = (case loads (fst row) of
     Inr (JObj kvs) \<Rightarrow> Some (sort_keys (JObj (drop_key ''hash'' kvs))) | _ \<Rightarrow> None)"

definition row_text :: "string \<Rightarrow> string \<times> string \<Rightarrow> string" where
  "row_text h row = (case row_content row of None \<Rightarrow> [] | Some j \<Rightarrow> h @ dumps j)"

fun hashed_texts :: "string \<Rightarrow> (string \<times> string) list \<Rightarrow> string list" where
  "hashed_texts h [] = []"
| "hashed_texts h (row # rows) = row_text h row # hashed_texts (snd row) rows"

lemma row_accepted_text:
  assumes "row_accepted sha h row"
  shows "snd row = sha (row_text h row)"
    and "\<exists>kvs. loads (fst row) = Inr (JObj kvs)
        \<and> row_content row = Some (sort_keys (JObj (drop_key ''hash'' kvs)))
        \<and> row_text h row = hash_input h (JObj (drop_key ''hash'' kvs))
        \<and> wf_json (JObj (drop_key ''hash'' kvs))"
proof -
  obtain kvs where l: "loads (fst row) = Inr (JObj kvs)"
      and s: "snd row = compute_hash sha h (JObj (drop_key ''hash'' kvs))"
    using assms by (auto simp: row_accepted_def split: sum.splits json.splits)
  have c: "row_content row = Some (sort_keys (JObj (drop_key ''hash'' kvs)))"
    using l by (simp add: row_content_def del: sort_keys.simps)
  then have x: "row_text h row = hash_input h (JObj (drop_key ''hash'' kvs))"
    by (simp add: row_text_def hash_input_def canonical_serialize_def dumps_sorted_def del: sort_keys.simps)
  with s show "snd row = sha (row_text h row)" by (simp add: compute_hash_input)
  show "\<exists>kvs. loads (fst row) = Inr (JObj kvs)
        \<and> row_content row = Some (sort_keys (JObj (drop_key ''hash'' kvs)))
        \<and> row_text h row = hash_input h (JObj (drop_key ''hash'' kvs))
        \<and> wf_json (JObj (drop_key ''hash'' kvs))"
    using l c x wf_drop_key [OF loads_wf [OF l]] by blast
qed

lemma rows_accepted_snoc:
  "rows_accepted sha h (rows @ [row]) \<longleftrightarrow>
     rows_accepted sha h rows \<and> row_accepted sha (if rows = [] then h else snd (last rows)) row"
  by (induction rows arbitrary: h) auto

lemma hashed_texts_snoc:
  "hashed_texts h (rows @ [row]) =
     hashed_texts h rows @ [row_text (if rows = [] then h else snd (last rows)) row]"
  by (induction rows arbitrary: h) auto

lemma rows_accepted_last:
  "rows_accepted sha h rows \<Longrightarrow> rows \<noteq> [] \<Longrightarrow>
     \<exists>x \<in> set (hashed_texts h rows). snd (last rows) = sha x"
proof (induction rows rule: rev_induct)
  case Nil
  then show ?case by simp
next
  case (snoc row rows)
  then show ?case
    using row_accepted_text(1) by (auto simp: rows_accepted_snoc hashed_texts_snoc split: if_splits)
qed

text \<open>
  Two chains that both pass and end in the same hash have the same contents, provided the
  texts hashed in the two do not collide and none of them hashes to the genesis value.
\<close>

lemma accepted_chains_agree:
  fixes g :: string
  defines "T \<equiv> \<lambda>rows. set (hashed_texts g rows)"
  assumes "rows_accepted sha g rows" "rows_accepted sha g rows'"
    and "\<And>x. length (sha x) = length g"
    and "inj_on sha (T rows \<union> T rows')"
    and "g \<notin> sha ` (T rows \<union> T rows')"
    and "(if rows = [] then g else snd (last rows)) = (if rows' = [] then g else snd (last rows'))"
  shows "map row_content rows = map row_content rows'"
  using assms(2-)
proof (induction rows arbitrary: rows' rule: rev_induct)
  case Nil
  show ?case
  proof (cases "rows' = []")
    case False
    with Nil rows_accepted_last [of sha g rows'] show ?thesis by (auto simp: T_def)
  qed simp
next
  case (snoc row rows)
  show ?case
  proof (cases rows' rule: rev_cases)
    case Nil
    with snoc rows_accepted_last [of sha g "rows @ [row]"] show ?thesis by (auto simp: T_def)
  next
    case (snoc us u)
    define h where "h = (if rows = [] then g else snd (last rows))"
    define k where "k = (if us = [] then g else snd (last us))"
    have acc: "rows_accepted sha g rows" "row_accepted sha h row"
        "rows_accepted sha g us" "row_accepted sha k u"
      using snoc.prems(1,2) snoc by (simp_all add: rows_accepted_snoc h_def k_def)
    have T: "T (rows @ [row]) = insert (row_text h row) (T rows)" "T rows' = insert (row_text k u) (T us)"
      by (simp_all add: T_def snoc hashed_texts_snoc h_def k_def)
    have "sha (row_text h row) = sha (row_text k u)"
      using snoc.prems(6) snoc row_accepted_text(1) [OF acc(2)] row_accepted_text(1) [OF acc(4)] by simp
    then have eq: "row_text h row = row_text k u"
      by (rule inj_onD [OF snoc.prems(4)]) (use T in auto)
    have len: "length h = length k"
    proof -
      have "length h = length g" "length k = length g"
        using rows_accepted_last [OF acc(1)] rows_accepted_last [OF acc(3)] snoc.prems(3)
        by (auto simp: h_def k_def)
      then show ?thesis by simp
    qed
    obtain kvs ks where kk: "row_content row = Some (sort_keys (JObj (drop_key ''hash'' kvs)))"
        "row_text h row = hash_input h (JObj (drop_key ''hash'' kvs))"
        "wf_json (JObj (drop_key ''hash'' kvs))"
        "row_content u = Some (sort_keys (JObj (drop_key ''hash'' ks)))"
        "row_text k u = hash_input k (JObj (drop_key ''hash'' ks))"
        "wf_json (JObj (drop_key ''hash'' ks))"
      using row_accepted_text(2) [OF acc(2)] row_accepted_text(2) [OF acc(4)] by blast
    have "h = k" "row_content row = row_content u"
      using hash_input_inj [OF len kk(3,6)] eq kk by auto
    moreover have "map row_content rows = map row_content us"
    proof (rule snoc.IH [OF acc(1,3) snoc.prems(3)])
      have sub: "T rows \<union> T us \<subseteq> T (rows @ [row]) \<union> T rows'" using T by blast
      then show "inj_on sha (T rows \<union> T us)" using snoc.prems(4) by (rule inj_on_subset [rotated])
      show "g \<notin> sha ` (T rows \<union> T us)" using snoc.prems(5) sub by blast
      show "(if rows = [] then g else snd (last rows)) = (if us = [] then g else snd (last us))"
        using \<open>h = k\<close> by (simp add: h_def k_def)
    qed
    ultimately show ?thesis using snoc by simp
  qed
qed

end
