(* ===== verification/Decision.thy ===== *)
theory Decision
  imports Store
begin

text \<open>
  \<open>koguchi/decision.py\<close>: the decision record, \<open>make_decision\<close>, the SQLite table
  \<open>decisions\<close> with its own hash chain, and its \<open>verify_chain\<close>, which checks
  linkage only. The table implements the same \<open>hash_log\<close> interface as the execution store.
\<close>

record decision =
  d_decision_id :: string
  d_action_id :: string
  d_intent :: string
  d_context_snapshot :: "(string \<times> json) list option"
  d_timestamp :: string
  d_previous_hash :: string
  d_hash :: string

record 'd decision_store =
  ds_record :: "decision \<Rightarrow> ('d, unit) py"
  ds_get :: "string \<Rightarrow> 'd \<Rightarrow> exn + decision option"
  ds_last_hash :: "('d, string) py"

definition decision_pairs :: "decision \<Rightarrow> (string \<times> json) list" where
  "decision_pairs d =
     [(''decision_id'', JStr (d_decision_id d)),
      (''action_id'', JStr (d_action_id d)),
      (''intent'', JStr (d_intent d)),
      (''context_snapshot'', (case d_context_snapshot d of None \<Rightarrow> JNull | Some c \<Rightarrow> JObj c)),
      (''timestamp'', JStr (d_timestamp d)),
      (''previous_hash'', JStr (d_previous_hash d)),
      (''hash'', JStr (d_hash d))]"

definition decision_payload :: "decision \<Rightarrow> json" where
  "decision_payload d = JObj (drop_key ''hash'' (decision_pairs d))"

definition make_decision ::
  "py_env \<Rightarrow> nat \<Rightarrow> string \<Rightarrow> string \<Rightarrow> (string \<times> json) list option \<Rightarrow> string \<Rightarrow> decision" where
  "make_decision E i action_id intent context previous_hash =
     (let d = \<lparr>d_decision_id = uuid4 E i, d_action_id = action_id, d_intent = intent,
               d_context_snapshot = context, d_timestamp = now E i,
               d_previous_hash = previous_hash, d_hash = []\<rparr>
      in d\<lparr>d_hash := compute_hash (sha256 E) previous_hash (decision_payload d)\<rparr>)"

subsection \<open>The SQLite table\<close>

record decision_row =
  dr_decision_id :: string
  dr_action_id :: string
  dr_intent :: string
  dr_context_json :: "string option"
  dr_timestamp :: string
  dr_previous_hash :: string
  dr_hash :: string

record decision_db =
  d_durable :: "decision_row list"
  d_staged :: "decision_row list"
  d_write_faults :: "db_fault list"
  d_read_faults :: "string option list"

definition d_visible :: "decision_db \<Rightarrow> decision_row list" where
  "d_visible db = d_durable db @ d_staged db"

definition empty_decision_db :: "db_fault list \<Rightarrow> string option list \<Rightarrow> decision_db" where
  "empty_decision_db wfs rfs =
     \<lparr>d_durable = [], d_staged = [], d_write_faults = wfs, d_read_faults = rfs\<rparr>"

definition row_of_decision :: "decision \<Rightarrow> decision_row" where
  "row_of_decision d =
     \<lparr>dr_decision_id = d_decision_id d, dr_action_id = d_action_id d, dr_intent = d_intent d,
      dr_context_json = map_option (\<lambda>c. dumps_sorted (JObj c)) (d_context_snapshot d),
      dr_timestamp = isoformat (d_timestamp d),
      dr_previous_hash = d_previous_hash d, dr_hash = d_hash d\<rparr>"

definition record_failed :: "py_env \<Rightarrow> string \<Rightarrow> exn" where
  "record_failed E msg =
     raise_tr RuntimeError E ''err.decision_store_record_failed'' [(''error'', msg)]"

definition decision_record :: "py_env \<Rightarrow> decision \<Rightarrow> (decision_db, unit) py" where
  "decision_record E d db =
     (let row = row_of_decision d; db' = db\<lparr>d_write_faults := tl (d_write_faults db)\<rparr>
      in (case next_fault (d_write_faults db) of
            InsertFails m \<Rightarrow> (Inl (record_failed E m), db')
          | f \<Rightarrow>
              if d_decision_id d \<in> set (map dr_decision_id (d_visible db))
              then (Inl (record_failed E ''UNIQUE constraint failed: decisions.decision_id''), db')
              else (case f of
                      CommitFails m \<Rightarrow> (Inl (record_failed E m), db'\<lparr>d_staged := d_staged db @ [row]\<rparr>)
                    | _ \<Rightarrow> (Inr (), db'\<lparr>d_durable := d_visible db @ [row], d_staged := []\<rparr>))))"

definition decision_last_hash :: "(decision_db, string) py" where
  "decision_last_hash db =
     (let db' = db\<lparr>d_read_faults := tl (d_read_faults db)\<rparr>
      in (case d_read_faults db of
            Some m # _ \<Rightarrow> (Inl (OtherError m), db')
          | _ \<Rightarrow> (Inr (if d_visible db = [] then GENESIS_HASH else dr_hash (last (d_visible db))), db')))"

text \<open>
  \<open>ORDER BY timestamp DESC LIMIT 1\<close>; where several rows have the greatest timestamp, SQL
  leaves the choice open and the first inserted one is taken.
\<close>

fun latest :: "decision_row list \<Rightarrow> decision_row option" where
  "latest [] = None"
| "latest (r # rs) =
     (case latest rs of None \<Rightarrow> Some r
      | Some q \<Rightarrow> if dr_timestamp q \<le> dr_timestamp r then Some r else Some q)"

definition decision_of_row :: "decision_row \<Rightarrow> exn + decision" where
  "decision_of_row r =
     (case (case dr_context_json r of
              None \<Rightarrow> Inr None
            | Some c \<Rightarrow>
                if c = [] then Inr None
                else (case loads c of
                        Inl e \<Rightarrow> Inl e
                      | Inr JNull \<Rightarrow> Inr None
                      | Inr (JObj kvs) \<Rightarrow> Inr (Some kvs)
                      | Inr _ \<Rightarrow> Inl (ValidationError c))) of
        Inl e \<Rightarrow> Inl e
      | Inr ctx \<Rightarrow> Inr \<lparr>d_decision_id = dr_decision_id r, d_action_id = dr_action_id r,
          d_intent = dr_intent r, d_context_snapshot = ctx,
          d_timestamp = fromisoformat (dr_timestamp r),
          d_previous_hash = dr_previous_hash r, d_hash = dr_hash r\<rparr>)"

definition decision_get :: "string \<Rightarrow> decision_db \<Rightarrow> exn + decision option" where
  "decision_get action_id db =
     (case latest (filter (\<lambda>r. dr_action_id r = action_id) (d_visible db)) of
        None \<Rightarrow> Inr None
      | Some r \<Rightarrow> (case decision_of_row r of Inl e \<Rightarrow> Inl e | Inr d \<Rightarrow> Inr (Some d)))"

definition sqlite_decision_store :: "py_env \<Rightarrow> decision_db decision_store" where
  "sqlite_decision_store E =
     \<lparr>ds_record = decision_record E, ds_get = decision_get, ds_last_hash = decision_last_hash\<rparr>"

record decision_chain_finding =
  dcf_row_index :: nat
  dcf_decision_id :: string
  dcf_diagnosis :: chain_diagnosis
  dcf_detail :: string

fun decision_verify_rows ::
  "py_env \<Rightarrow> nat \<Rightarrow> string \<Rightarrow> decision_row list \<Rightarrow> exn + decision_chain_finding list" where
  "decision_verify_rows E i prev_hash [] = Inr []"
| "decision_verify_rows E i prev_hash (r # rows) =
     (case (if dr_previous_hash r \<noteq> prev_hash
            then (case tr E ''chain.previous_hash_mismatch''
                      [(''expected'', take 12 prev_hash), (''actual'', take 12 (dr_previous_hash r))] of
                    Inl e \<Rightarrow> Inl e
                  | Inr d \<Rightarrow> Inr [\<lparr>dcf_row_index = i, dcf_decision_id = dr_decision_id r,
                                   dcf_diagnosis = Previous_Hash_Mismatch, dcf_detail = d\<rparr>])
            else Inr []) of
        Inl e \<Rightarrow> Inl e
      | Inr fs \<Rightarrow> (case decision_verify_rows E (Suc i) (dr_hash r) rows of
                    Inl e \<Rightarrow> Inl e | Inr gs \<Rightarrow> Inr (fs @ gs)))"

definition decision_verify_chain :: "py_env \<Rightarrow> decision_db \<Rightarrow> exn + decision_chain_finding list" where
  "decision_verify_chain E db = decision_verify_rows E 0 GENESIS_HASH (d_visible db)"

subsection \<open>The table as a hash-linked log\<close>

definition wf_decision :: "decision \<Rightarrow> bool" where
  "wf_decision d \<longleftrightarrow> (case d_context_snapshot d of None \<Rightarrow> True | Some c \<Rightarrow> wf_json (JObj c))"

text \<open>A decision whose hash can be recomputed from its own fields.\<close>

definition decision_sealed :: "(string \<Rightarrow> string) \<Rightarrow> decision \<Rightarrow> bool" where
  "decision_sealed sha d \<longleftrightarrow> d_hash d = compute_hash sha (d_previous_hash d) (decision_payload d)"

lemma make_decision_sealed: "decision_sealed (sha256 E) (make_decision E i a it c p)"
  by (simp add: decision_sealed_def make_decision_def Let_def decision_payload_def
      decision_pairs_def drop_key_def)

lemma make_decision_fields [simp]:
  "d_decision_id (make_decision E i a it c p) = uuid4 E i"
  "d_action_id (make_decision E i a it c p) = a"
  "d_intent (make_decision E i a it c p) = it"
  "d_context_snapshot (make_decision E i a it c p) = c"
  "d_timestamp (make_decision E i a it c p) = now E i"
  "d_previous_hash (make_decision E i a it c p) = p"
  by (simp_all add: make_decision_def Let_def)

lemma decision_last_hash_frame:
  "decision_last_hash db = (r, db') \<Longrightarrow> d_durable db' = d_durable db \<and> d_staged db' = d_staged db"
  by (auto simp: decision_last_hash_def Let_def split: list.splits option.splits)

lemma decision_record_cases:
  assumes "decision_record E d db = (r, db')"
  shows "d_durable db' = d_durable db \<and> d_staged db' = d_staged db \<and> isl r
    \<or> d_durable db' = d_durable db \<and> d_staged db' = d_staged db @ [row_of_decision d] \<and> isl r
    \<or> d_durable db' = d_visible db @ [row_of_decision d] \<and> d_staged db' = [] \<and> r = Inr ()"
  using assms by (auto simp: decision_record_def Let_def split: db_fault.splits if_splits)

locale decision_log =
  hash_log "ds_record ops" "ds_last_hash ops" row_of_decision log durable_log inv "\<lambda>_. True"
    dr_hash "\<lambda>r. Some (dr_previous_hash r)"
  for ops :: "'d decision_store"
    and log :: "'d \<Rightarrow> decision_row list"
    and durable_log :: "'d \<Rightarrow> decision_row list"
    and inv :: "'d \<Rightarrow> bool" +
  assumes get_none: "inv s \<Longrightarrow> a \<notin> dr_action_id ` set (log s) \<Longrightarrow> ds_get ops a s = Inr None"

interpretation sqd: decision_log "sqlite_decision_store E" d_visible d_durable "\<lambda>_. True"
proof (unfold_locales, goal_cases)
  case (1 s h s')
  then show ?case
    by (auto simp: sqlite_decision_store_def decision_last_hash_def tip_def Let_def
        split: list.splits option.splits)
next
  case (2 s r s')
  then show ?case
    using decision_last_hash_frame [of s r s']
    by (simp add: sqlite_decision_store_def d_visible_def)
next
  case (3 s e u s')
  then have "decision_record E e s = (Inr u, s')" by (simp add: sqlite_decision_store_def)
  from decision_record_cases [OF this] show ?case by (auto simp: d_visible_def)
next
  case (4 s e x s')
  then have "decision_record E e s = (Inl x, s')" by (simp add: sqlite_decision_store_def)
  from decision_record_cases [OF this] show ?case by (auto simp: d_visible_def)
next
  case (5 s)
  then show ?case by (simp add: d_visible_def)
next
  case (6 s a)
  then have "filter (\<lambda>r. dr_action_id r = a) (d_visible s) = []"
    by (auto simp: filter_empty_conv)
  then show ?case by (simp add: sqlite_decision_store_def decision_get_def)
qed

text \<open>What \<open>verify_chain\<close> of the decision store checks is exactly the linkage.\<close>

lemma decision_verify_rows_Nil:
  "decision_verify_rows E i h rows = Inr [] \<longleftrightarrow>
     linked_from dr_hash (\<lambda>r. Some (dr_previous_hash r)) h rows"
proof (induction rows arbitrary: i h)
  case Nil
  then show ?case by simp
next
  case (Cons r rows)
  then show ?case
    using Cons.IH [of "Suc i" "dr_hash r"]
    by (cases "decision_verify_rows E (Suc i) (dr_hash r) rows"; cases "dr_previous_hash r = h")
      (auto split: sum.splits)
qed

subsection \<open>Reading a decision back\<close>

lemma latest_mem: "latest rs = Some r \<Longrightarrow> r \<in> set rs"
  by (induction rs arbitrary: r) (auto split: option.splits if_splits)

lemma latest_None [simp]: "latest rs = None \<longleftrightarrow> rs = []"
  by (cases rs) (auto split: option.splits)

lemma latest_max: "latest rs = Some r \<Longrightarrow> q \<in> set rs \<Longrightarrow> dr_timestamp q \<le> dr_timestamp r"
proof (induction rs arbitrary: r)
  case Nil
  then show ?case by simp
next
  case (Cons x rs)
  show ?case
  proof (cases "latest rs")
    case None
    with Cons.prems show ?thesis by auto
  next
    case (Some p)
    with Cons.IH [of p] Cons.prems show ?thesis
      by (cases "dr_timestamp p \<le> dr_timestamp x") auto
  qed
qed

lemma latest_snoc:
  assumes "\<forall>q \<in> set rs. dr_timestamp q < dr_timestamp r"
  shows "latest (rs @ [r]) = Some r"
proof -
  obtain p where p: "latest (rs @ [r]) = Some p" by (cases "latest (rs @ [r])") auto
  have "dr_timestamp r \<le> dr_timestamp p" using latest_max [OF p] by simp
  moreover have "p \<in> set rs \<or> p = r" using latest_mem [OF p] by auto
  ultimately have "p = r" using assms by fastforce
  with p show ?thesis by simp
qed

text \<open>A stored decision reads back with its context's keys sorted.\<close>

definition sorted_context :: "decision \<Rightarrow> decision" where
  "sorted_context d = d\<lparr>d_context_snapshot := map_option
     (\<lambda>c. case sort_keys (JObj c) of JObj c' \<Rightarrow> c' | _ \<Rightarrow> c) (d_context_snapshot d)\<rparr>"

lemma decision_of_row_of:
  assumes "wf_decision d" "\<not> ends_with (d_timestamp d) ''+00:00''"
  shows "decision_of_row (row_of_decision d) = Inr (sorted_context d)"
proof (cases "d_context_snapshot d")
  case None
  then show ?thesis
    using fromisoformat_isoformat [OF assms(2)]
    by (simp add: decision_of_row_def row_of_decision_def sorted_context_def)
next
  case (Some c)
  then have wf: "wf_json (JObj c)" using assms(1) by (simp add: wf_decision_def)
  obtain c' where c': "sort_keys (JObj c) = JObj c'" by simp
  have l: "loads (dumps_sorted (JObj c)) = Inr (JObj c')"
    using loads_dumps_sorted [OF wf] c' by simp
  have ne: "dumps_sorted (JObj c) \<noteq> []" by (simp add: dumps_sorted_def c' del: sort_keys.simps)
  show ?thesis
    using Some l ne c' fromisoformat_isoformat [OF assms(2)]
    by (simp add: decision_of_row_def row_of_decision_def sorted_context_def del: sort_keys.simps)
qed

end
