(* ===== verification/Policy.thy ===== *)
theory Policy
  imports Decision
begin

text \<open>
  \<open>koguchi/policy.py\<close>: redaction of events and decisions, masking of secret-like keys,
  the redacted export, and the gate that asks a list of rules before an effect. The policies
  are ordered by what they disclose.
\<close>

definition REDACTED :: string where
  "REDACTED = ''[REDACTED]''"

definition SECRET_PATTERNS :: "string list" where
  "SECRET_PATTERNS =
     [''token'', ''secret'', ''api_key'', ''apikey'', ''authorization'',
      ''cookie'', ''password'', ''refresh_token'', ''access_token'']"

datatype redaction_policy = FULL | WITHOUT_INTENT | WITHOUT_CONTEXT | MINIMAL

instantiation redaction_policy :: order
begin

definition less_eq_redaction_policy :: "redaction_policy \<Rightarrow> redaction_policy \<Rightarrow> bool" where
  "p \<le> q \<longleftrightarrow> p = q \<or> p = MINIMAL \<or> q = FULL"

definition less_redaction_policy :: "redaction_policy \<Rightarrow> redaction_policy \<Rightarrow> bool" where
  "p < q \<longleftrightarrow> p \<le> q \<and> p \<noteq> (q :: redaction_policy)"

instance
  by standard (auto simp: less_eq_redaction_policy_def less_redaction_policy_def)

end

definition redact_event :: "execution_event \<Rightarrow> redaction_policy \<Rightarrow> (string \<times> json) list" where
  "redact_event e p =
     (let data =
        [(''event_id'', JStr (ev_event_id e)),
         (''record_id'', JStr (ev_record_id e)),
         (''timestamp'', JStr (isoformat (ev_timestamp e))),
         (''event_type'', JStr (event_type_str (ev_event_type e))),
         (''side_effect_observed'', opt_str (map_option side_effect_str (ev_side_effect e)))]
      in if p = MINIMAL then data
         else data @
           [(''result_digest'', opt_str (ev_result_digest e)),
            (''error_digest'', opt_str (ev_error_digest e)),
            (''envelope'', (case ev_envelope e of None \<Rightarrow> JNull | Some v \<Rightarrow> envelope_json v)),
            (''confidence'', (case ev_confidence e of None \<Rightarrow> JNull | Some f \<Rightarrow> JFloat f)),
            (''previous_hash'', opt_str (ev_previous_hash e)),
            (''hash'', JStr (ev_hash e)),
            (''decision_ref'', opt_str (ev_decision_ref e)),
            (''context_ref'', opt_str (ev_context_ref e)),
            (''intent'', if p = WITHOUT_INTENT then JStr REDACTED else opt_str (ev_intent e))])"

definition redact_decision :: "decision \<Rightarrow> redaction_policy \<Rightarrow> (string \<times> json) list" where
  "redact_decision d p =
     (let data =
        [(''decision_id'', JStr (d_decision_id d)),
         (''action_id'', JStr (d_action_id d)),
         (''timestamp'', JStr (isoformat (d_timestamp d)))]
      in if p = MINIMAL then data
         else data @
           [(''previous_hash'', JStr (d_previous_hash d)),
            (''hash'', JStr (d_hash d)),
            (''intent'', if p = WITHOUT_INTENT then JStr REDACTED else JStr (d_intent d))] @
           (if p = WITHOUT_CONTEXT then []
            else [(''context_snapshot'',
                   (case d_context_snapshot d of None \<Rightarrow> JNull | Some c \<Rightarrow> JObj c))]))"

definition redact_events :: "execution_event list \<Rightarrow> redaction_policy \<Rightarrow> (string \<times> json) list list" where
  "redact_events es p = map (\<lambda>e. redact_event e p) es"

definition secret_key :: "string \<Rightarrow> bool" where
  "secret_key k \<longleftrightarrow> (\<exists>pat \<in> set SECRET_PATTERNS. str_in pat (lower k))"

fun redact_dict :: "(string \<times> json) list \<Rightarrow> (string \<times> json) list"
  and redact_value :: "json \<Rightarrow> json"
  and redact_item :: "json \<Rightarrow> json"
  and redact_items :: "json list \<Rightarrow> json list" where
  "redact_dict [] = []"
| "redact_dict ((k, v) # kvs) =
     (k, if secret_key k then JStr REDACTED else redact_value v) # redact_dict kvs"
| "redact_value (JObj kvs) = JObj (redact_dict kvs)"
| "redact_value (JArr vs) = JArr (redact_items vs)"
| "redact_value v = v"
| "redact_item (JObj kvs) = JObj (redact_dict kvs)"
| "redact_item v = v"
| "redact_items [] = []"
| "redact_items (v # vs) = redact_item v # redact_items vs"

definition export_events :: "exec_db \<Rightarrow> redaction_policy \<Rightarrow> exn + (string \<times> json) list list" where
  "export_events db p =
     (case decode_rows (visible db) of
        Inl e \<Rightarrow> Inl e
      | Inr events \<Rightarrow> Inr (map redact_dict (redact_events events p)))"

subsection \<open>The gate\<close>

datatype policy_decision = ALLOW | DENY | REQUIRE_APPROVAL

text \<open>A rule is an object of a class given by the caller: its class name and \<open>evaluate\<close>.\<close>

record policy_rule =
  rule_class :: string
  rule_evaluate :: "action_envelope \<Rightarrow> exn + policy_decision"

record policy_result =
  pr_decision :: policy_decision
  pr_reason :: string
  pr_rule_name :: "string option"

definition deny_shell_execution :: policy_rule where
  "deny_shell_execution =
     \<lparr>rule_class = ''DenyShellExecution'',
      rule_evaluate = (\<lambda>env. Inr (if env_tool env = ''shell.execute'' then DENY else ALLOW))\<rparr>"

type_synonym policy_gate = "policy_rule list"

definition gate_init :: "policy_rule list option \<Rightarrow> policy_gate" where
  "gate_init rules = (case rules of None \<Rightarrow> [] | Some rs \<Rightarrow> rs)"

definition add_rule :: "policy_rule \<Rightarrow> policy_gate \<Rightarrow> policy_gate" where
  "add_rule r g = g @ [r]"

fun gate_evaluate :: "policy_gate \<Rightarrow> action_envelope \<Rightarrow> exn + policy_result" where
  "gate_evaluate [] env =
     Inr \<lparr>pr_decision = ALLOW, pr_reason = ''all rules passed'', pr_rule_name = None\<rparr>"
| "gate_evaluate (r # rs) env =
     (case rule_evaluate r env of
        Inl e \<Rightarrow> Inl e
      | Inr d \<Rightarrow>
          if d = DENY
          then Inr \<lparr>pr_decision = DENY, pr_reason = ''denied by rule: '' @ rule_class r,
                    pr_rule_name = Some (rule_class r)\<rparr>
          else gate_evaluate rs env)"

subsection \<open>What a policy discloses\<close>

text \<open>The fields shown in the clear, with their values.\<close>

definition disclosed :: "(string \<times> json) list \<Rightarrow> (string \<times> json) set" where
  "disclosed kvs = {(k, v). (k, v) \<in> set kvs \<and> v \<noteq> JStr REDACTED}"

lemma redact_event_mono: "p \<le> q \<Longrightarrow> disclosed (redact_event e p) \<subseteq> disclosed (redact_event e q)"
  by (cases p; cases q) (auto simp: disclosed_def redact_event_def less_eq_redaction_policy_def)

lemma redact_decision_mono:
  "p \<le> q \<Longrightarrow> disclosed (redact_decision d p) \<subseteq> disclosed (redact_decision d q)"
  by (cases p; cases q) (auto simp: disclosed_def redact_decision_def less_eq_redaction_policy_def)

subsection \<open>Masking\<close>

text \<open>Every member at any depth of a value, through objects and arrays.\<close>

fun members :: "(string \<times> json) list \<Rightarrow> (string \<times> json) list"
  and value_members :: "json \<Rightarrow> (string \<times> json) list"
  and items_members :: "json list \<Rightarrow> (string \<times> json) list" where
  "members [] = []"
| "members ((k, v) # kvs) = (k, v) # value_members v @ members kvs"
| "value_members (JObj kvs) = members kvs"
| "value_members (JArr vs) = items_members vs"
| "value_members v = []"
| "items_members [] = []"
| "items_members (v # vs) = value_members v @ items_members vs"

text \<open>No array has an array as an item, anywhere.\<close>

fun flat :: "(string \<times> json) list \<Rightarrow> bool"
  and flat_value :: "json \<Rightarrow> bool"
  and flat_items :: "json list \<Rightarrow> bool" where
  "flat [] = True"
| "flat ((k, v) # kvs) = (flat_value v \<and> flat kvs)"
| "flat_value (JObj kvs) = flat kvs"
| "flat_value (JArr vs) = flat_items vs"
| "flat_value v = True"
| "flat_items [] = True"
| "flat_items (v # vs) = ((case v of JArr _ \<Rightarrow> False | _ \<Rightarrow> flat_value v) \<and> flat_items vs)"

definition masked :: "(string \<times> json) list \<Rightarrow> bool" where
  "masked ms \<longleftrightarrow> (\<forall>(k, v) \<in> set ms. secret_key k \<longrightarrow> v = JStr REDACTED)"

lemma masked_simps [simp]:
  "masked []"
  "masked ((k, v) # ms) \<longleftrightarrow> (secret_key k \<longrightarrow> v = JStr REDACTED) \<and> masked ms"
  "masked (ms @ ns) \<longleftrightarrow> masked ms \<and> masked ns"
  by (auto simp: masked_def)

lemma masked_redact:
  "flat kvs \<Longrightarrow> masked (members (redact_dict kvs))"
  "flat_value v \<Longrightarrow> masked (value_members (redact_value v))"
  "(case v of JArr _ \<Rightarrow> False | _ \<Rightarrow> flat_value v) \<Longrightarrow> masked (value_members (redact_item v))"
  "flat_items vs \<Longrightarrow> masked (items_members (redact_items vs))"
  by (induction kvs and v and v and vs rule: redact_dict_redact_value_redact_item_redact_items.induct) auto

lemma redact_dict_keys: "map fst (redact_dict kvs) = map fst kvs"
  by (induction kvs) (auto split: prod.splits)

lemma redact_idem:
  "redact_dict (redact_dict kvs) = redact_dict kvs"
  "redact_value (redact_value v) = redact_value v"
  "redact_item (redact_item v) = redact_item v"
  "redact_items (redact_items vs) = redact_items vs"
  by (induction kvs and v and v and vs rule: redact_dict_redact_value_redact_item_redact_items.induct) auto

text \<open>Where no key is secret-like, masking is the identity.\<close>

lemma redact_plain:
  "\<forall>(k, v) \<in> set (members kvs). \<not> secret_key k \<Longrightarrow> redact_dict kvs = kvs"
  "\<forall>(k, v) \<in> set (value_members v). \<not> secret_key k \<Longrightarrow> redact_value v = v"
  "\<forall>(k, v) \<in> set (value_members v). \<not> secret_key k \<Longrightarrow> redact_item v = v"
  "\<forall>(k, v) \<in> set (items_members vs). \<not> secret_key k \<Longrightarrow> redact_items vs = vs"
  by (induction kvs and v and v and vs rule: redact_dict_redact_value_redact_item_redact_items.induct) auto

end
