(* ===== verification/Runtime.thy ===== *)
theory Runtime
  imports Policy
begin

text \<open>
  \<open>koguchi/runtime.py\<close> and \<open>koguchi/context.py\<close>: the default runtime boundary
  (which tools may run, which environment variables a subprocess may see) and the resolver
  that captures a context when the caller gives none.
\<close>

record runtime_boundary_decision =
  rb_allowed :: bool
  rb_reason :: string

text \<open>The protocol: any object with these two operations.\<close>

record runtime_boundary =
  rb_evaluate_tool :: "string \<Rightarrow> exn + runtime_boundary_decision"
  rb_filter_environment :: "(string \<times> string) list \<Rightarrow> (string \<times> string) list"

definition SECRET_ENV_PATTERNS :: "string list" where
  "SECRET_ENV_PATTERNS =
     [''token'', ''secret'', ''api_key'', ''apikey'', ''authorization'',
      ''cookie'', ''password'', ''refresh_token'', ''access_token'',
      ''key'', ''credential'']"

definition SAFE_ENV_KEYS :: "string set" where
  "SAFE_ENV_KEYS = {''PATH'', ''HOME'', ''USER'', ''LANG'', ''SHELL'', ''PWD'', ''TMPDIR''}"

definition DEFAULT_ALLOWED_TOOLS :: "string set" where
  "DEFAULT_ALLOWED_TOOLS =
     {''filesystem.write'', ''filesystem.read'', ''filesystem.mkdir'', ''network.http_get'',
      ''todo.create''}"

definition DEFAULT_DENIED_TOOLS :: "string set" where
  "DEFAULT_DENIED_TOOLS = {''shell.execute''}"

record default_boundary =
  b_allowed :: "string set"
  b_denied :: "string set"
  b_safe_env :: "string set"

text \<open>\<open>x or default\<close> on sets: \<open>None\<close> and the empty set both give the default.\<close>

definition set_or :: "string set option \<Rightarrow> string set \<Rightarrow> string set" where
  "set_or x dflt = (case x of None \<Rightarrow> dflt | Some s \<Rightarrow> if s = {} then dflt else s)"

definition boundary_init ::
  "string set option \<Rightarrow> string set option \<Rightarrow> string set option \<Rightarrow> default_boundary" where
  "boundary_init allowed denied safe =
     \<lparr>b_allowed = set_or allowed DEFAULT_ALLOWED_TOOLS,
      b_denied = set_or denied DEFAULT_DENIED_TOOLS,
      b_safe_env = set_or safe SAFE_ENV_KEYS\<rparr>"

definition evaluate_tool :: "default_boundary \<Rightarrow> string \<Rightarrow> runtime_boundary_decision" where
  "evaluate_tool b tool =
     (if tool \<in> b_denied b
      then \<lparr>rb_allowed = False, rb_reason = ''Tool '' @ [CHR 0x27] @ tool @ [CHR 0x27] @ '' is denied by default''\<rparr>
      else if tool \<in> b_allowed b
      then \<lparr>rb_allowed = True, rb_reason = ''Tool '' @ [CHR 0x27] @ tool @ [CHR 0x27] @ '' is allowed''\<rparr>
      else \<lparr>rb_allowed = False,
            rb_reason = ''Tool '' @ [CHR 0x27] @ tool @ [CHR 0x27] @ '' is not in allowed list''\<rparr>)"

fun filter_env_loop ::
  "default_boundary \<Rightarrow> (string \<times> string) list \<Rightarrow> (string \<times> string) list \<Rightarrow> (string \<times> string) list" where
  "filter_env_loop b [] result = result"
| "filter_env_loop b ((k, v) # env) result =
     (if k \<in> b_safe_env b then filter_env_loop b env (dict_set k v result)
      else if \<exists>pat \<in> set SECRET_ENV_PATTERNS. str_in pat (lower k) then filter_env_loop b env result
      else filter_env_loop b env (dict_set k v result))"

definition filter_environment :: "default_boundary \<Rightarrow> (string \<times> string) list \<Rightarrow> (string \<times> string) list" where
  "filter_environment b env = filter_env_loop b env []"

definition default_runtime_boundary :: "default_boundary \<Rightarrow> runtime_boundary" where
  "default_runtime_boundary b =
     \<lparr>rb_evaluate_tool = (\<lambda>tool. Inr (evaluate_tool b tool)),
      rb_filter_environment = filter_environment b\<rparr>"

lemma evaluate_tool_allowed:
  "rb_allowed (evaluate_tool b tool) \<longleftrightarrow> tool \<in> b_allowed b \<and> tool \<notin> b_denied b"
  by (simp add: evaluate_tool_def)

text \<open>A variable that the boundary passes on to a subprocess.\<close>

definition env_passes :: "default_boundary \<Rightarrow> string \<Rightarrow> bool" where
  "env_passes b k \<longleftrightarrow> k \<in> b_safe_env b \<or> \<not> (\<exists>pat \<in> set SECRET_ENV_PATTERNS. str_in pat (lower k))"

lemma filter_env_loop_filter:
  "distinct (map fst result @ map fst env) \<Longrightarrow>
     filter_env_loop b env result = result @ filter (\<lambda>(k, v). env_passes b k) env"
proof (induction env arbitrary: result)
  case Nil
  then show ?case by simp
next
  case (Cons kv env)
  obtain k v where kv: "kv = (k, v)" by (cases kv)
  have fresh: "dict_set k v result = result @ [(k, v)]"
    using Cons.prems kv by (intro dict_set_fresh) auto
  have "distinct (map fst (result @ [(k, v)]) @ map fst env)" "distinct (map fst result @ map fst env)"
    using Cons.prems kv by auto
  with Cons.IH kv fresh show ?case by (auto simp: env_passes_def)
qed

lemma filter_environment_filter:
  "distinct (map fst env) \<Longrightarrow> filter_environment b env = filter (\<lambda>(k, v). env_passes b k) env"
  by (simp add: filter_environment_def filter_env_loop_filter)

subsection \<open>Context resolver\<close>

text \<open>The facts of the running process that \<open>SystemContextResolver.resolve\<close> reads.\<close>

record process_facts =
  pf_version :: string
  pf_platform :: string
  pf_pid :: int
  pf_environ :: "(string \<times> string) list"

definition system_context :: "py_env \<Rightarrow> process_facts \<Rightarrow> nat \<Rightarrow> (string \<times> json) list" where
  "system_context E f i =
     [(''timestamp'', JStr (isoformat (now E i))),
      (''python_version'', JStr (pf_version f)),
      (''platform'', JStr (pf_platform f)),
      (''pid'', JInt (pf_pid f)),
      (''env_summary'', JObj
         (concat (map (\<lambda>k. case map_of (pf_environ f) k of None \<Rightarrow> [] | Some v \<Rightarrow> [(k, JStr v)])
            [''PATH'', ''HOME'', ''USER'', ''LANG'', ''SHELL''])))]"

lemma wf_system_context: "wf_json (JObj (system_context E f i))"
  by (auto simp: system_context_def wf_members_iff split: option.splits)

text \<open>The captured environment is one the default boundary would pass on.\<close>

lemma system_context_env:
  assumes "map_of (system_context E f i) ''env_summary'' = Some (JObj env)" "(k, v) \<in> set env"
  shows "k \<in> SAFE_ENV_KEYS"
  using assms by (auto simp: system_context_def SAFE_ENV_KEYS_def split: option.splits)

end
