(* ===== verification/FileSystem.thy ===== *)
theory FileSystem
  imports HashChain
begin

text \<open>
  What the sources use of \<open>pathlib\<close> and \<open>os\<close>, on a file tree without symbolic
  links: lexical \<open>resolve\<close>, \<open>is_relative_to\<close>, reading, writing, \<open>fsync\<close>,
  atomic \<open>replace\<close>, \<open>unlink\<close>, \<open>mkdir(parents=True, exist_ok=True)\<close> and
  \<open>rglob\<close>. A path is its list of components from the root. Failures that the tree does
  not determine (full disk, I/O error) come from a schedule with one entry per operation.
\<close>

subsection \<open>Paths\<close>

type_synonym path = "string list"

definition path_parts :: "string \<Rightarrow> path" where
  "path_parts s = filter (\<lambda>c. c \<noteq> [] \<and> c \<noteq> ''.'') (split_on (CHR ''/'') s)"

fun normalize :: "path \<Rightarrow> path \<Rightarrow> path" where
  "normalize acc [] = acc"
| "normalize acc (c # cs) =
     (if c = ''..'' then normalize (butlast acc) cs else normalize (acc @ [c]) cs)"

definition resolve :: "path \<Rightarrow> string \<Rightarrow> path" where
  "resolve cwd s =
     (if starts_with s ''/'' then normalize [] (path_parts s) else normalize cwd (path_parts s))"

definition path_str :: "path \<Rightarrow> string" where
  "path_str p = CHR ''/'' # join ''/'' p"

definition parent :: "path \<Rightarrow> path" where
  "parent p = butlast p"

definition path_name :: "path \<Rightarrow> string" where
  "path_name p = (if p = [] then [] else last p)"

definition is_relative_to :: "path \<Rightarrow> path \<Rightarrow> bool" where
  "is_relative_to p base \<longleftrightarrow> prefix base p"

text \<open>A component as \<open>resolve\<close> leaves it.\<close>

definition good_part :: "string \<Rightarrow> bool" where
  "good_part c \<longleftrightarrow> c \<noteq> [] \<and> c \<noteq> ''.'' \<and> c \<noteq> ''..'' \<and> CHR ''/'' \<notin> set c"

lemma path_parts_good: "c \<in> set (path_parts s) \<Longrightarrow> c \<noteq> ''..'' \<Longrightarrow> good_part c"
  using split_on_pieces by (auto simp: path_parts_def good_part_def)

lemma normalize_good:
  "\<forall>c \<in> set acc. good_part c \<Longrightarrow> \<forall>c \<in> set cs. c \<noteq> ''..'' \<longrightarrow> good_part c \<Longrightarrow>
     c \<in> set (normalize acc cs) \<Longrightarrow> good_part c"
proof (induction cs arbitrary: acc)
  case Nil
  then show ?case by simp
next
  case (Cons d cs)
  show ?case
  proof (cases "d = ''..''")
    case True
    with Cons show ?thesis by (auto dest: in_set_butlastD)
  next
    case False
    with Cons.prems have "\<forall>c \<in> set (acc @ [d]). good_part c" by auto
    moreover have "\<forall>c \<in> set cs. c \<noteq> ''..'' \<longrightarrow> good_part c" using Cons.prems by auto
    moreover have "c \<in> set (normalize (acc @ [d]) cs)" using Cons.prems False by simp
    ultimately show ?thesis by (rule Cons.IH)
  qed
qed

lemma resolve_good:
  "\<forall>c \<in> set cwd. good_part c \<Longrightarrow> c \<in> set (resolve cwd s) \<Longrightarrow> good_part c"
  unfolding resolve_def
  by (auto split: if_splits intro: normalize_good [of "[]"] normalize_good [of cwd] path_parts_good)

lemma normalize_plain: "\<forall>c \<in> set cs. c \<noteq> ''..'' \<Longrightarrow> normalize acc cs = acc @ cs"
  by (induction cs arbitrary: acc) auto

lemma split_on_join:
  "p \<noteq> [] \<Longrightarrow> \<forall>c \<in> set p. CHR ''/'' \<notin> set c \<Longrightarrow> split_on (CHR ''/'') (join ''/'' p) = p"
proof (induction p)
  case Nil
  then show ?case by simp
next
  case (Cons c p)
  then show ?case
    by (cases p) (simp_all add: split_on_no_sep split_on_append_sep)
qed

lemma resolve_path_str:
  assumes "\<forall>c \<in> set p. good_part c"
  shows "resolve cwd (path_str p) = p"
proof (cases "p = []")
  case True
  then show ?thesis by (simp add: resolve_def path_str_def starts_with_def path_parts_def)
next
  case False
  have "split_on (CHR ''/'') (join ''/'' p) = p"
    using False assms by (intro split_on_join) (auto simp: good_part_def)
  then have "path_parts (path_str p) = filter (\<lambda>c. c \<noteq> [] \<and> c \<noteq> ''.'') p"
    by (simp add: path_parts_def path_str_def)
  also have "\<dots> = p" using assms by (intro filter_True) (auto simp: good_part_def)
  finally show ?thesis
    using assms normalize_plain [of p "[]"]
    by (auto simp: resolve_def path_str_def starts_with_def good_part_def)
qed

lemma path_str_inj:
  "\<forall>c \<in> set p. good_part c \<Longrightarrow> \<forall>c \<in> set q. good_part c \<Longrightarrow> path_str p = path_str q \<longleftrightarrow> p = q"
  by (metis resolve_path_str)

subsection \<open>The file tree\<close>

datatype node = File string | Dir

datatype io_fault = IoOk | IoFails string | IoPartial nat string

record fs =
  fs_nodes :: "(path \<times> node) list"
  fs_unreadable :: "path list"
  fs_faults :: "io_fault list"

definition node_at :: "fs \<Rightarrow> path \<Rightarrow> node option" where
  "node_at fs p = (if p = [] then Some Dir else map_of (fs_nodes fs) p)"

definition set_node :: "path \<Rightarrow> node \<Rightarrow> fs \<Rightarrow> fs" where
  "set_node p n fs = fs\<lparr>fs_nodes := dict_set p n (fs_nodes fs)\<rparr>"

definition del_node :: "path \<Rightarrow> fs \<Rightarrow> fs" where
  "del_node p fs = fs\<lparr>fs_nodes := AList.delete p (fs_nodes fs)\<rparr>"

lemma node_at_set: "p \<noteq> [] \<Longrightarrow> node_at (set_node p n fs) q = (if q = p then Some n else node_at fs q)"
  by (auto simp: node_at_def set_node_def update_conv)

lemma node_at_del: "p \<noteq> [] \<Longrightarrow> node_at (del_node p fs) q = (if q = p then None else node_at fs q)"
  by (auto simp: node_at_def del_node_def delete_conv)

definition next_io :: "fs \<Rightarrow> io_fault \<times> fs" where
  "next_io fs = ((case fs_faults fs of [] \<Rightarrow> IoOk | f # _ \<Rightarrow> f), fs\<lparr>fs_faults := tl (fs_faults fs)\<rparr>)"

lemma next_io_nodes [simp]:
  "fs_nodes (snd (next_io fs)) = fs_nodes fs"
  "fs_unreadable (snd (next_io fs)) = fs_unreadable fs"
  by (simp_all add: next_io_def)

lemma node_at_next_io [simp]: "node_at (snd (next_io fs)) p = node_at fs p"
  by (simp add: node_at_def)

definition path_exists :: "fs \<Rightarrow> path \<Rightarrow> bool" where
  "path_exists fs p \<longleftrightarrow> node_at fs p \<noteq> None"

text \<open>\<open>path.read_bytes()\<close> inside \<open>try .. except OSError\<close>: \<open>None\<close> on an error.\<close>

definition read_bytes :: "fs \<Rightarrow> path \<Rightarrow> string option" where
  "read_bytes fs p =
     (case node_at fs p of
        Some (File b) \<Rightarrow> if p \<in> set (fs_unreadable fs) then None else Some b
      | _ \<Rightarrow> None)"

text \<open>
  How the operating system walks a path that was not resolved: each component but the last
  has to be an existing directory, and \<open>..\<close> goes to the parent.
\<close>

fun os_walk :: "fs \<Rightarrow> path \<Rightarrow> path \<Rightarrow> exn + path" where
  "os_walk fs cur [] = Inr cur"
| "os_walk fs cur (c # cs) =
     (case node_at fs cur of
        None \<Rightarrow> Inl (FileNotFoundError (path_str cur))
      | Some (File _) \<Rightarrow> Inl (NotADirectoryError (path_str cur))
      | Some Dir \<Rightarrow> os_walk fs (if c = ''..'' then butlast cur else cur @ [c]) cs)"

lemma os_walk_plain:
  "\<forall>c \<in> set cs. c \<noteq> ''..'' \<Longrightarrow> os_walk fs cur cs = Inr q \<Longrightarrow> q = cur @ cs"
proof (induction cs arbitrary: cur)
  case Nil
  then show ?case by simp
next
  case (Cons c cs)
  have "os_walk fs (cur @ [c]) cs = Inr q"
    using Cons.prems by (auto split: option.splits node.splits)
  from Cons.IH [OF _ this] Cons.prems show ?case by simp
qed

lemma os_walk_dirs:
  assumes "\<forall>c \<in> set cs. c \<noteq> ''..''"
    and "\<And>n. n < length cs \<Longrightarrow> node_at fs (cur @ take n cs) = Some Dir"
  shows "os_walk fs cur cs = Inr (cur @ cs)"
  using assms
proof (induction cs arbitrary: cur)
  case Nil
  then show ?case by simp
next
  case (Cons c cs)
  have "node_at fs cur = Some Dir" using Cons.prems(2) [of 0] by simp
  moreover have "node_at fs ((cur @ [c]) @ take n cs) = Some Dir" if "n < length cs" for n
    using Cons.prems(2) [of "Suc n"] that by simp
  ultimately show ?case using Cons by simp
qed

definition write_bytes :: "path \<Rightarrow> string \<Rightarrow> (fs, unit) py" where
  "write_bytes p data fs =
     (let (f, fs1) = next_io fs
      in (case os_walk fs1 [] p of
            Inl e \<Rightarrow> (Inl e, fs1)
          | Inr q \<Rightarrow>
              if node_at fs1 q = Some Dir then (Inl (IsADirectoryError (path_str q)), fs1)
              else (case f of
                      IoOk \<Rightarrow> (Inr (), set_node q (File data) fs1)
                    | IoFails m \<Rightarrow> (Inl (OSError m), fs1)
                    | IoPartial n m \<Rightarrow> (Inl (OSError m), set_node q (File (take n data)) fs1))))"

text \<open>\<open>open(p, "rb")\<close> and \<open>os.fsync\<close> of a file just written.\<close>

definition fsync :: "path \<Rightarrow> (fs, unit) py" where
  "fsync p fs =
     (let (f, fs1) = next_io fs
      in (case f of IoOk \<Rightarrow> (Inr (), fs1) | IoFails m \<Rightarrow> (Inl (OSError m), fs1)
          | IoPartial n m \<Rightarrow> (Inl (OSError m), fs1)))"

text \<open>\<open>p.replace(q)\<close> for a file \<open>p\<close>: atomic, and not possible onto a directory.\<close>

definition replace :: "path \<Rightarrow> path \<Rightarrow> (fs, unit) py" where
  "replace p q fs =
     (let (f, fs1) = next_io fs
      in (case f of
            IoOk \<Rightarrow>
              (case os_walk fs1 [] p of
                 Inl e \<Rightarrow> (Inl e, fs1)
               | Inr p' \<Rightarrow>
                   (case os_walk fs1 [] q of
                      Inl e \<Rightarrow> (Inl e, fs1)
                    | Inr q' \<Rightarrow>
                        (case node_at fs1 p' of
                           Some (File b) \<Rightarrow>
                             if node_at fs1 q' = Some Dir
                             then (Inl (IsADirectoryError (path_str q')), fs1)
                             else if p' = q' then (Inr (), fs1)
                             else (Inr (), set_node q' (File b) (del_node p' fs1))
                         | _ \<Rightarrow> (Inl (FileNotFoundError (path_str p')), fs1))))
          | IoFails m \<Rightarrow> (Inl (OSError m), fs1)
          | IoPartial n m \<Rightarrow> (Inl (OSError m), fs1)))"

text \<open>\<open>if p.exists(): with suppress(OSError): p.unlink()\<close>\<close>

definition cleanup :: "path \<Rightarrow> fs \<Rightarrow> fs" where
  "cleanup p fs =
     (case os_walk fs [] p of
        Inl _ \<Rightarrow> fs
      | Inr q \<Rightarrow>
          (case node_at fs q of
             None \<Rightarrow> fs
           | Some n \<Rightarrow>
               (let (f, fs1) = next_io fs
                in if f = IoOk \<and> n \<noteq> Dir then del_node q fs1 else fs1)))"

subsection \<open>Directories\<close>

definition os_mkdir :: "path \<Rightarrow> (fs, unit) py" where
  "os_mkdir p fs =
     (let (f, fs1) = next_io fs
      in (case f of
            IoOk \<Rightarrow>
              if node_at fs1 p \<noteq> None then (Inl (FileExistsError (path_str p)), fs1)
              else (case node_at fs1 (butlast p) of
                      None \<Rightarrow> (Inl (FileNotFoundError (path_str p)), fs1)
                    | Some (File _) \<Rightarrow> (Inl (NotADirectoryError (path_str p)), fs1)
                    | Some Dir \<Rightarrow> (Inr (), set_node p Dir fs1))
          | IoFails m \<Rightarrow> (Inl (OSError m), fs1)
          | IoPartial n m \<Rightarrow> (Inl (OSError m), fs1)))"

text \<open>\<open>Path.mkdir(parents=False, exist_ok=True)\<close>\<close>

definition mkdir_plain :: "path \<Rightarrow> (fs, unit) py" where
  "mkdir_plain p fs =
     (case os_mkdir p fs of
        (Inl (FileNotFoundError m), fs1) \<Rightarrow> (Inl (FileNotFoundError m), fs1)
      | (Inl e, fs1) \<Rightarrow> if node_at fs1 p = Some Dir then (Inr (), fs1) else (Inl e, fs1)
      | r \<Rightarrow> r)"

text \<open>\<open>Path.mkdir(parents=True, exist_ok=True)\<close>\<close>

function path_mkdir :: "path \<Rightarrow> (fs, unit) py" where
  "path_mkdir p fs =
     (case os_mkdir p fs of
        (Inl (FileNotFoundError m), fs1) \<Rightarrow>
          if p = [] then (Inl (FileNotFoundError m), fs1)
          else (case path_mkdir (butlast p) fs1 of
                  (Inl e, fs2) \<Rightarrow> (Inl e, fs2)
                | (Inr _, fs2) \<Rightarrow> mkdir_plain p fs2)
      | (Inl e, fs1) \<Rightarrow> if node_at fs1 p = Some Dir then (Inr (), fs1) else (Inl e, fs1)
      | r \<Rightarrow> r)"
  by pat_completeness auto
termination
  by (relation "measure (\<lambda>(p, fs). length p)") auto

declare path_mkdir.simps [simp del]

text \<open>\<open>base.rglob("*")\<close> in directory order, which is left to the tree's listing.\<close>

definition rglob :: "path \<Rightarrow> fs \<Rightarrow> path list" where
  "rglob base fs = filter (\<lambda>p. strict_prefix base p) (map fst (fs_nodes fs))"

definition is_file :: "fs \<Rightarrow> path \<Rightarrow> bool" where
  "is_file fs p = (case node_at fs p of Some (File _) \<Rightarrow> True | _ \<Rightarrow> False)"

subsection \<open>What the operations change\<close>

lemma os_walk_cong: "node_at fs = node_at fs' \<Longrightarrow> os_walk fs cur cs = os_walk fs' cur cs"
  by (induction cs arbitrary: cur) (auto split: option.splits node.splits)

lemma os_walk_next_io [simp]: "os_walk (snd (next_io fs)) cur cs = os_walk fs cur cs"
  by (rule os_walk_cong) auto

lemma node_at_Nil [simp]: "node_at fs [] = Some Dir"
  by (simp add: node_at_def)

lemma fs_eqs [simp]:
  "fs_unreadable (set_node p n fs) = fs_unreadable fs"
  "fs_unreadable (del_node p fs) = fs_unreadable fs"
  "fs_faults (set_node p n fs) = fs_faults fs"
  "fs_faults (del_node p fs) = fs_faults fs"
  by (simp_all add: set_node_def del_node_def)

lemmas fs_ops = write_bytes_def fsync_def replace_def os_mkdir_def case_prod_unfold Let_def

lemma node_dir_ne: "node_at fs p \<noteq> Some Dir \<Longrightarrow> p \<noteq> []"
  by auto

lemma write_bytes_frame:
  "os_walk fs [] p \<noteq> Inr q \<Longrightarrow> node_at (snd (write_bytes p d fs)) q = node_at fs q"
  by (auto simp: fs_ops node_at_set node_dir_ne split: sum.splits io_fault.splits)

lemma write_bytes_ok:
  "write_bytes p d fs = (Inr (), fs') \<Longrightarrow> os_walk fs [] p = Inr q \<Longrightarrow> node_at fs' q = Some (File d)"
  by (auto simp: fs_ops node_at_set node_dir_ne split: sum.splits io_fault.splits if_splits)

lemma write_bytes_walks:
  "write_bytes p d fs = (Inr (), fs') \<Longrightarrow> \<exists>q. os_walk fs [] p = Inr q"
  by (auto simp: fs_ops split: sum.splits)

lemma fsync_frame [simp]: "node_at (snd (fsync p fs)) = node_at fs"
  by (rule ext) (auto simp: fs_ops split: io_fault.splits)

lemma replace_error:
  "replace p q fs = (Inl e, fs') \<Longrightarrow> node_at fs' = node_at fs"
  by (rule ext) (auto simp: fs_ops split: sum.splits io_fault.splits option.splits node.splits if_splits)

lemma replace_ok:
  assumes "replace p q fs = (Inr (), fs')" "os_walk fs [] p = Inr p'" "node_at fs p' = Some (File b)"
    "os_walk fs [] q = Inr q'"
  shows "node_at fs' x = (if x = q' then Some (File b) else if x = p' then None else node_at fs x)"
  using assms by (cases "p' = []"; cases "q' = []")
    (auto simp: fs_ops node_at_set node_at_del split: io_fault.splits if_splits)

lemma replace_walks:
  "replace p q fs = (Inr (), fs') \<Longrightarrow> \<exists>q'. os_walk fs [] q = Inr q'"
  by (auto simp: fs_ops split: sum.splits io_fault.splits)

lemma cleanup_frame:
  "os_walk fs [] p \<noteq> Inr q \<Longrightarrow> node_at (cleanup p fs) q = node_at fs q"
  by (auto simp: cleanup_def case_prod_unfold Let_def node_at_del split: sum.splits option.splits)
    (metis node_at_Nil node_at_del node_at_next_io option.inject)

lemma unreadable_frame [simp]:
  "fs_unreadable (snd (write_bytes p d fs)) = fs_unreadable fs"
  "fs_unreadable (snd (fsync p fs)) = fs_unreadable fs"
  "fs_unreadable (snd (replace p q fs)) = fs_unreadable fs"
  "fs_unreadable (cleanup p fs) = fs_unreadable fs"
  by (auto simp: fs_ops cleanup_def split: sum.splits io_fault.splits option.splits node.splits)

text \<open>\<open>mkdir\<close> only ever adds directories, on the path to its target.\<close>

definition grows_dirs :: "path \<Rightarrow> fs \<Rightarrow> fs \<Rightarrow> bool" where
  "grows_dirs p fs fs' \<longleftrightarrow>
     (\<forall>q. node_at fs' q = node_at fs q \<or> node_at fs q = None \<and> node_at fs' q = Some Dir \<and> prefix q p)"

lemma grows_dirs_refl: "grows_dirs p fs fs"
  by (simp add: grows_dirs_def)

lemma grows_dirs_trans:
  "grows_dirs p fs fs' \<Longrightarrow> grows_dirs p fs' fs'' \<Longrightarrow> grows_dirs p fs fs''"
  unfolding grows_dirs_def by metis

lemma grows_dirs_prefix: "grows_dirs q fs fs' \<Longrightarrow> prefix q p \<Longrightarrow> grows_dirs p fs fs'"
  unfolding grows_dirs_def by (meson prefix_order.trans)

lemma os_mkdir_grows: "grows_dirs p fs (snd (os_mkdir p fs))"
  by (cases "p = []")
    (auto simp: fs_ops grows_dirs_def node_at_set split: io_fault.splits option.splits node.splits)

lemma os_mkdir_ok: "os_mkdir p fs = (Inr (), fs') \<Longrightarrow> node_at fs' p = Some Dir"
  by (cases "p = []") (auto simp: fs_ops node_at_set split: io_fault.splits option.splits node.splits if_splits)

lemma mkdir_plain_state: "snd (mkdir_plain p fs) = snd (os_mkdir p fs)"
  by (auto simp: mkdir_plain_def split: prod.splits sum.splits exn.splits)

lemma mkdir_plain_ok: "mkdir_plain p fs = (Inr (), fs') \<Longrightarrow> node_at fs' p = Some Dir"
  by (auto simp: mkdir_plain_def split: prod.splits sum.splits exn.splits if_splits dest: os_mkdir_ok)

lemma path_mkdir_grows: "grows_dirs p fs (snd (path_mkdir p fs))"
proof (induction p fs rule: path_mkdir.induct)
  case (1 p fs)
  obtain r fs1 where m: "os_mkdir p fs = (r, fs1)" by (cases "os_mkdir p fs")
  have g1: "grows_dirs p fs fs1" using os_mkdir_grows [of p fs] m by simp
  show ?case
  proof (cases "\<exists>x. r = Inl (FileNotFoundError x) \<and> p \<noteq> []")
    case True
    then obtain x where x: "r = Inl (FileNotFoundError x)" "p \<noteq> []" by blast
    obtain r2 fs2 where m2: "path_mkdir (butlast p) fs1 = (r2, fs2)"
      by (cases "path_mkdir (butlast p) fs1")
    have "grows_dirs (butlast p) fs1 fs2" using "1.IH" [OF m [symmetric] x(1) refl x(2)] m2 by simp
    then have g2: "grows_dirs p fs fs2"
      using g1 by (meson grows_dirs_prefix grows_dirs_trans prefixeq_butlast)
    have "snd (path_mkdir p fs) = (case r2 of Inl _ \<Rightarrow> fs2 | Inr _ \<Rightarrow> snd (mkdir_plain p fs2))"
      using m m2 x by (simp add: path_mkdir.simps [of p fs] split: sum.splits)
    with g2 show ?thesis
      by (auto simp: mkdir_plain_state intro: os_mkdir_grows grows_dirs_trans split: sum.splits)
  next
    case False
    then have "snd (path_mkdir p fs) = fs1"
      using m by (auto simp: path_mkdir.simps [of p fs] split: sum.splits exn.splits)
    with g1 show ?thesis by simp
  qed
qed

lemma path_mkdir_ok: "path_mkdir p fs = (Inr (), fs') \<Longrightarrow> node_at fs' p = Some Dir"
  by (subst (asm) path_mkdir.simps)
    (auto split: prod.splits sum.splits exn.splits if_splits dest: os_mkdir_ok mkdir_plain_ok)

end
