(* ===== verification/Proxy.thy ===== *)
theory Proxy
  imports Runtime FileSystem
begin

text \<open>
  \<open>koguchi/proxy.py\<close>: \<open>ToolProxy\<close>, the choke point every managed side effect goes
  through, with its four tools. A call threads one \<open>world\<close>: the execution store, the
  decision store, the file system and the count of clock and \<open>uuid4\<close> reads. What a
  call promises is in \<open>ProxySpec\<close> and \<open>ProxyProps\<close>.
\<close>

record ('s, 'd) world =
  w_store :: 's
  w_dec :: 'd
  w_fs :: fs
  w_tick :: nat

record ('s, 'd) tool_proxy =
  tp_workspace :: path
  tp_store :: "'s execution_store"
  tp_decision_store :: "'d decision_store option"
  tp_context_resolver :: "(nat \<Rightarrow> exn + (string \<times> json) list) option"
  tp_policy_gate :: "policy_gate option"
  tp_runtime_boundary :: "runtime_boundary option"

definition tool_proxy_init ::
  "py_env \<Rightarrow> string \<Rightarrow> 's execution_store \<Rightarrow> 'd decision_store option
     \<Rightarrow> (nat \<Rightarrow> exn + (string \<times> json) list) option \<Rightarrow> policy_gate option
     \<Rightarrow> runtime_boundary option \<Rightarrow> ('s, 'd) tool_proxy" where
  "tool_proxy_init E workspace_dir store decs resolver gate boundary =
     \<lparr>tp_workspace = resolve (getcwd E) workspace_dir, tp_store = store, tp_decision_store = decs,
      tp_context_resolver = resolver, tp_policy_gate = gate, tp_runtime_boundary = boundary\<rparr>"

definition digest :: "py_env \<Rightarrow> string \<Rightarrow> string" where
  "digest E data = sha256 E data"

definition evaluate_policy ::
  "('s, 'd) tool_proxy \<Rightarrow> action_envelope \<Rightarrow> exn + proxy_result option" where
  "evaluate_policy px env =
     (case tp_policy_gate px of
        None \<Rightarrow> Inr None
      | Some g \<Rightarrow>
          (case gate_evaluate g env of
             Inl e \<Rightarrow> Inl e
           | Inr r \<Rightarrow> Inr (if pr_decision r = DENY then Some REJECTED else None)))"

definition evaluate_runtime_boundary ::
  "('s, 'd) tool_proxy \<Rightarrow> action_envelope \<Rightarrow> exn + proxy_result option" where
  "evaluate_runtime_boundary px env =
     (case tp_runtime_boundary px of
        None \<Rightarrow> Inr None
      | Some b \<Rightarrow>
          (case rb_evaluate_tool b (env_tool env) of
             Inl e \<Rightarrow> Inl e
           | Inr d \<Rightarrow> Inr (if rb_allowed d then None else Some REJECTED)))"

text \<open>
  \<open>if (rejected := self._evaluate_policy(envelope)): return rejected\<close>, then the same with
  the runtime boundary, then the rest of the method.
\<close>

definition gated ::
  "('s, 'd) tool_proxy \<Rightarrow> action_envelope \<Rightarrow> (('s, 'd) world, proxy_result) py
     \<Rightarrow> (('s, 'd) world, proxy_result) py" where
  "gated px env body w =
     (case evaluate_policy px env of
        Inl e \<Rightarrow> (Inl e, w)
      | Inr (Some r) \<Rightarrow> (Inr r, w)
      | Inr None \<Rightarrow>
          (case evaluate_runtime_boundary px env of
             Inl e \<Rightarrow> (Inl e, w)
           | Inr (Some r) \<Rightarrow> (Inr r, w)
           | Inr None \<Rightarrow> body w))"

text \<open>The body of every \<open>try\<close> that records an event: read the tip, make the event, append it.\<close>

definition record_event ::
  "py_env \<Rightarrow> ('s, 'd) tool_proxy \<Rightarrow> action_envelope \<Rightarrow> event_type \<Rightarrow> event_kwargs
     \<Rightarrow> (('s, 'd) world, unit) py" where
  "record_event E px env ty kw w =
     (case es_last_hash (tp_store px) (w_store w) of
        (Inl e, s1) \<Rightarrow> (Inl e, w\<lparr>w_store := s1\<rparr>)
      | (Inr prev, s1) \<Rightarrow>
          (let ev = make_event E (w_tick w) (env_action_id env) ty prev (Some env) kw;
               (r, s2) = es_append (tp_store px) ev s1
           in (r, w\<lparr>w_store := s2, w_tick := Suc (w_tick w)\<rparr>)))"

type_synonym prepared = "string option \<times> string option"

definition effect_kwargs ::
  "side_effect \<Rightarrow> string option \<Rightarrow> string option \<Rightarrow> string option \<Rightarrow> prepared \<Rightarrow> event_kwargs" where
  "effect_kwargs se result_digest error_digest intent refs =
     \<lparr>kw_result_digest = result_digest, kw_error_digest = error_digest, kw_side_effect = Some se,
      kw_confidence = None, kw_intent = intent, kw_decision_ref = fst refs, kw_context_ref = snd refs\<rparr>"

text \<open>The context: the given one, else the resolver's, else none.\<close>

definition effective_context ::
  "('s, 'd) tool_proxy \<Rightarrow> (string \<times> json) list option
     \<Rightarrow> (('s, 'd) world, (string \<times> json) list option) py" where
  "effective_context px context w =
     (case context of
        Some c \<Rightarrow> (Inr (Some c), w)
      | None \<Rightarrow>
          (case tp_context_resolver px of
             None \<Rightarrow> (Inr None, w)
           | Some resolver \<Rightarrow>
               (case resolver (w_tick w) of
                  Inl e \<Rightarrow> (Inl e, w)
                | Inr c \<Rightarrow> (Inr (Some c), w\<lparr>w_tick := Suc (w_tick w)\<rparr>))))"

text \<open>
  The decision part: \<open>Inr None\<close> is \<open>return None\<close>. \<open>last_hash\<close> of the decision
  store is called outside the \<open>try\<close>, so its failure propagates.
\<close>

definition record_decision ::
  "py_env \<Rightarrow> ('s, 'd) tool_proxy \<Rightarrow> string \<Rightarrow> string option \<Rightarrow> (string \<times> json) list option
     \<Rightarrow> (('s, 'd) world, prepared option) py" where
  "record_decision E px rid intent ctx w =
     (case (tp_decision_store px, intent) of
        (Some ds, Some it) \<Rightarrow>
          (case ds_last_hash ds (w_dec w) of
             (Inl e, d1) \<Rightarrow> (Inl e, w\<lparr>w_dec := d1\<rparr>)
           | (Inr prev, d1) \<Rightarrow>
               (let dec = make_decision E (w_tick w) rid it ctx prev;
                    (r, d2) = ds_record ds dec d1;
                    w2 = w\<lparr>w_dec := d2, w_tick := Suc (w_tick w)\<rparr>
                in (case r of
                      Inl _ \<Rightarrow> (Inr None, w2)
                    | Inr _ \<Rightarrow>
                        (Inr (Some (Some (d_decision_id dec),
                                    map_option (\<lambda>c. digest E (dumps_sorted (JObj c))) ctx)), w2))))
      | _ \<Rightarrow> (Inr (Some (None, None)), w))"

definition prepare_execution ::
  "py_env \<Rightarrow> ('s, 'd) tool_proxy \<Rightarrow> action_envelope \<Rightarrow> string option \<Rightarrow> (string \<times> json) list option
     \<Rightarrow> (('s, 'd) world, prepared option) py" where
  "prepare_execution E px env intent context w =
     (case effective_context px context w of
        (Inl e, w1) \<Rightarrow> (Inl e, w1)
      | (Inr ctx, w1) \<Rightarrow>
          (case record_decision E px (env_action_id env) intent ctx w1 of
             (Inl e, w2) \<Rightarrow> (Inl e, w2)
           | (Inr None, w2) \<Rightarrow> (Inr None, w2)
           | (Inr (Some refs), w2) \<Rightarrow>
               (case record_event E px env Intent_Pending
                       (effect_kwargs SE_None None None intent refs) w2 of
                  (Inl _, w3) \<Rightarrow> (Inr None, w3)
                | (Inr _, w3) \<Rightarrow> (Inr (Some refs), w3))))"

text \<open>The second phase: a failure that was observed, or a commit.\<close>

definition fail_with ::
  "py_env \<Rightarrow> ('s, 'd) tool_proxy \<Rightarrow> action_envelope \<Rightarrow> event_kwargs \<Rightarrow> (('s, 'd) world, proxy_result) py" where
  "fail_with E px env kw w = (Inr FAILURE, snd (record_event E px env Execution_Failed kw w))"

definition commit_with ::
  "py_env \<Rightarrow> ('s, 'd) tool_proxy \<Rightarrow> action_envelope \<Rightarrow> event_kwargs \<Rightarrow> (('s, 'd) world, proxy_result) py" where
  "commit_with E px env kw w =
     (case record_event E px env Execution_Committed kw w of
        (Inr _, w1) \<Rightarrow> (Inr SUCCESS, w1)
      | (Inl _, w1) \<Rightarrow> (Inr UNCONFIRMED, w1))"

text \<open>The first phase in front of an effect; no preparation, no effect.\<close>

definition with_intent ::
  "py_env \<Rightarrow> ('s, 'd) tool_proxy \<Rightarrow> action_envelope \<Rightarrow> string option \<Rightarrow> (string \<times> json) list option
     \<Rightarrow> (prepared \<Rightarrow> (('s, 'd) world, proxy_result) py) \<Rightarrow> (('s, 'd) world, proxy_result) py" where
  "with_intent E px env intent context body w =
     (case prepare_execution E px env intent context w of
        (Inl e, w1) \<Rightarrow> (Inl e, w1)
      | (Inr None, w1) \<Rightarrow> (Inr REJECTED, w1)
      | (Inr (Some refs), w1) \<Rightarrow> body refs w1)"

subsection \<open>\<open>filesystem.write\<close>\<close>

definition tmp_path :: "path \<Rightarrow> string \<Rightarrow> path" where
  "tmp_path target rid = parent target @ path_parts (path_name target @ ''.tmp.'' @ rid)"

text \<open>\<open>write_bytes\<close>, \<open>fsync\<close> and \<open>replace\<close>, the \<open>try\<close> block of \<open>write_file\<close>.\<close>

definition atomic_write :: "path \<Rightarrow> path \<Rightarrow> string \<Rightarrow> (fs, unit) py" where
  "atomic_write tmp target content fs =
     (case write_bytes tmp content fs of
        (Inl e, fs1) \<Rightarrow> (Inl e, fs1)
      | (Inr _, fs1) \<Rightarrow>
          (case fsync tmp fs1 of
             (Inl e, fs2) \<Rightarrow> (Inl e, fs2)
           | (Inr _, fs2) \<Rightarrow> replace tmp target fs2))"

definition perform_write ::
  "py_env \<Rightarrow> ('s, 'd) tool_proxy \<Rightarrow> action_envelope \<Rightarrow> path \<Rightarrow> string \<Rightarrow> string option \<Rightarrow> prepared
     \<Rightarrow> (('s, 'd) world, proxy_result) py" where
  "perform_write E px env target content intent refs w =
     (let tmp = tmp_path target (env_action_id env)
      in (case atomic_write tmp target content (w_fs w) of
            (Inl e, fs1) \<Rightarrow>
              fail_with E px env
                (effect_kwargs SE_None None (Some (digest E (exn_str e))) intent refs)
                (w\<lparr>w_fs := cleanup tmp fs1\<rparr>)
          | (Inr _, fs1) \<Rightarrow>
              commit_with E px env
                (effect_kwargs SE_Confirmed (Some (digest E content)) None intent refs)
                (w\<lparr>w_fs := fs1\<rparr>)))"

definition envelope_required :: "py_env \<Rightarrow> exn" where
  "envelope_required E = raise_tr EnvelopeRequiredError E ''err.envelope_required'' []"

definition boundary_error :: "py_env \<Rightarrow> path \<Rightarrow> exn" where
  "boundary_error E target =
     raise_tr WorkspaceBoundaryError E ''err.workspace_boundary'' [(''target'', path_str target)]"

definition write_file ::
  "py_env \<Rightarrow> ('s, 'd) tool_proxy \<Rightarrow> action_envelope option \<Rightarrow> string \<Rightarrow> string option
     \<Rightarrow> (string \<times> json) list option \<Rightarrow> (('s, 'd) world, proxy_result) py" where
  "write_file E px envelope content intent context w =
     (case envelope of
        None \<Rightarrow> (Inl (envelope_required E), w)
      | Some env \<Rightarrow>
          (let target = resolve (getcwd E) (env_target env)
           in if \<not> is_relative_to target (tp_workspace px) then (Inl (boundary_error E target), w)
              else if \<not> path_exists (w_fs w) (parent target) then (Inr REJECTED, w)
              else gated px env
                     (with_intent E px env intent context
                       (perform_write E px env target content intent)) w))"

subsection \<open>\<open>shell.execute\<close>\<close>

text \<open>
  What \<open>subprocess.run\<close> does: it may change the file system, and it returns the output, runs
  into the timeout, or raises.
\<close>

datatype shell_outcome = Completed string string int | TimeoutExpired | ShellError exn

type_synonym shell = "string list \<Rightarrow> string \<Rightarrow> string option \<Rightarrow> fs \<Rightarrow> shell_outcome \<times> fs"

definition perform_shell ::
  "py_env \<Rightarrow> ('s, 'd) tool_proxy \<Rightarrow> shell \<Rightarrow> action_envelope \<Rightarrow> string list \<Rightarrow> string option
     \<Rightarrow> string option \<Rightarrow> prepared \<Rightarrow> (('s, 'd) world, proxy_result) py" where
  "perform_shell E px run env command timeout intent refs w =
     (let (outcome, fs1) = run command (path_str (tp_workspace px)) timeout (w_fs w);
          w1 = w\<lparr>w_fs := fs1\<rparr>
      in (case outcome of
            TimeoutExpired \<Rightarrow>
              fail_with E px env
                (effect_kwargs SE_Unknown None (Some (digest E ''timeout'')) intent refs) w1
          | ShellError e \<Rightarrow>
              fail_with E px env
                (effect_kwargs SE_None None (Some (digest E (exn_str e))) intent refs) w1
          | Completed out err code \<Rightarrow>
              commit_with E px env
                (effect_kwargs SE_Confirmed (Some (digest E (out @ err @ show_int code))) None intent refs)
                w1))"

definition execute_shell ::
  "py_env \<Rightarrow> ('s, 'd) tool_proxy \<Rightarrow> shell \<Rightarrow> action_envelope option \<Rightarrow> string list
     \<Rightarrow> string option \<Rightarrow> string option \<Rightarrow> (string \<times> json) list option
     \<Rightarrow> (('s, 'd) world, proxy_result) py" where
  "execute_shell E px run envelope command timeout intent context w =
     (case envelope of
        None \<Rightarrow> (Inl (envelope_required E), w)
      | Some env \<Rightarrow>
          gated px env
            (with_intent E px env intent context
              (perform_shell E px run env command timeout intent)) w)"

subsection \<open>\<open>filesystem.mkdir\<close>\<close>

definition perform_mkdir ::
  "py_env \<Rightarrow> ('s, 'd) tool_proxy \<Rightarrow> action_envelope \<Rightarrow> path \<Rightarrow> string option \<Rightarrow> prepared
     \<Rightarrow> (('s, 'd) world, proxy_result) py" where
  "perform_mkdir E px env target intent refs w =
     (case path_mkdir target (w_fs w) of
        (Inl e, fs1) \<Rightarrow>
          fail_with E px env
            (effect_kwargs SE_None None (Some (digest E (exn_str e))) intent refs)
            (w\<lparr>w_fs := fs1\<rparr>)
      | (Inr _, fs1) \<Rightarrow>
          commit_with E px env
            (effect_kwargs SE_Confirmed (Some (digest E (path_str target))) None intent refs)
            (w\<lparr>w_fs := fs1\<rparr>))"

definition make_directory ::
  "py_env \<Rightarrow> ('s, 'd) tool_proxy \<Rightarrow> action_envelope option \<Rightarrow> string option
     \<Rightarrow> (string \<times> json) list option \<Rightarrow> (('s, 'd) world, proxy_result) py" where
  "make_directory E px envelope intent context w =
     (case envelope of
        None \<Rightarrow> (Inl (envelope_required E), w)
      | Some env \<Rightarrow>
          (let target = resolve (getcwd E) (env_target env)
           in if \<not> is_relative_to target (tp_workspace px) then (Inl (boundary_error E target), w)
              else gated px env
                     (with_intent E px env intent context
                       (perform_mkdir E px env target intent)) w))"

subsection \<open>\<open>network.http_get\<close>\<close>

text \<open>
  What \<open>urlopen(url, timeout)\<close> and \<open>resp.read()\<close> do, by the \<open>except\<close> clause that
  takes it. \<open>e.read()\<close> of an \<open>HTTPError\<close> may itself raise, and \<open>HttpRaises\<close> stands for
  an exception of any other class; both leave the method.
\<close>

datatype http_outcome =
    Response int string
  | IncompleteRead "int option" "string option" string
  | HttpTimeout string
  | HTTPError int "exn + string"
  | URLError string
  | HttpRaises exn

type_synonym http = "string \<Rightarrow> string option \<Rightarrow> nat \<Rightarrow> http_outcome"

definition perform_get ::
  "py_env \<Rightarrow> ('s, 'd) tool_proxy \<Rightarrow> http \<Rightarrow> action_envelope \<Rightarrow> string \<Rightarrow> string option
     \<Rightarrow> string option \<Rightarrow> prepared \<Rightarrow> (('s, 'd) world, proxy_result) py" where
  "perform_get E px urlopen env url timeout intent refs w =
     (let failed = (\<lambda>se rd msg.
            fail_with E px env (effect_kwargs se rd (Some (digest E msg)) intent refs) w);
          received = (\<lambda>code body.
            commit_with E px env
              (effect_kwargs SE_Confirmed (Some (digest E (show_int code @ [CHR 0x0A] @ body))) None
                intent refs) w)
      in (case urlopen url timeout (w_tick w) of
            Response code body \<Rightarrow> received code body
          | IncompleteRead status part msg \<Rightarrow>
              failed SE_Partial
                (Some (digest E (show_int (case status of None \<Rightarrow> 0 | Some c \<Rightarrow> c) @ [CHR 0x0A]
                                 @ (case part of None \<Rightarrow> [] | Some b \<Rightarrow> b)))) msg
          | HttpTimeout msg \<Rightarrow> failed SE_Unknown None msg
          | HTTPError code body \<Rightarrow>
              (case body of Inl e \<Rightarrow> (Inl e, w) | Inr b \<Rightarrow> received code b)
          | URLError msg \<Rightarrow> failed SE_None None msg
          | HttpRaises e \<Rightarrow> (Inl e, w)))"

definition http_get ::
  "py_env \<Rightarrow> ('s, 'd) tool_proxy \<Rightarrow> http \<Rightarrow> action_envelope option \<Rightarrow> string \<Rightarrow> string option
     \<Rightarrow> string option \<Rightarrow> (string \<times> json) list option \<Rightarrow> (('s, 'd) world, proxy_result) py" where
  "http_get E px urlopen envelope url timeout intent context w =
     (case envelope of
        None \<Rightarrow> (Inl (envelope_required E), w)
      | Some env \<Rightarrow>
          gated px env
            (with_intent E px env intent context
              (perform_get E px urlopen env url timeout intent)) w)"

end
