(* ===== verification/Reconcile.thy ===== *)
theory Reconcile
  imports Proxy
begin

text \<open>
  \<open>koguchi/reconcile.py\<close> and \<open>koguchi/provider_reconcile.py\<close>: the diagnosis of pending
  and committed records against the file system or a provider, and the detection of files that no
  record explains. A confidence is the text of the \<open>float\<close>.
\<close>

datatype diagnosis =
    Pending_Not_Executed
  | Pending_Executed_Unconfirmed
  | Unrecorded_External_Change
  | Committed_Consistent
  | Committed_Diverged

record reconciliation_finding =
  rf_diagnosis :: diagnosis
  rf_record_id :: "string option"
  rf_target :: "string option"
  rf_confidence :: string
  rf_detail :: string

definition filesystem_tool :: "string \<Rightarrow> bool" where
  "filesystem_tool tool \<longleftrightarrow> tool = ''filesystem.write'' \<or> tool = ''filesystem.mkdir''"

definition file_digest :: "py_env \<Rightarrow> fs \<Rightarrow> path \<Rightarrow> string option" where
  "file_digest E fs p = map_option (sha256 E) (read_bytes fs p)"

text \<open>The text of an optional string in a message.\<close>

definition none_str :: "string option \<Rightarrow> string" where
  "none_str x = (case x of None \<Rightarrow> ''None'' | Some s \<Rightarrow> s)"

text \<open>Python's truth of an optional string.\<close>

definition truthy :: "string option \<Rightarrow> bool" where
  "truthy x \<longleftrightarrow> x \<noteq> None \<and> x \<noteq> Some []"

subsection \<open>One record\<close>

definition diagnose_pending ::
  "py_env \<Rightarrow> fs \<Rightarrow> string \<Rightarrow> action_envelope \<Rightarrow> exn + reconciliation_finding" where
  "diagnose_pending E fs rid env =
     (let target = resolve (getcwd E) (env_target env);
          tool = env_tool env;
          actual = (if path_exists fs target then file_digest E fs target else None);
          expected = env_expected_result_digest env;
          (diag, conf, detail) =
            (if filesystem_tool tool
             then if \<not> path_exists fs target
                  then (Pending_Not_Executed, ''0.85'',
                        tr E ''reconcile.target_not_found'' [(''target'', path_str target)])
                  else (Pending_Executed_Unconfirmed,
                        if truthy expected \<and> truthy actual
                        then if actual = expected then ''0.95'' else ''0.7''
                        else ''0.85'',
                        tr E ''reconcile.target_exists_unconfirmed''
                          [(''target'', path_str target), (''digest'', none_str actual)])
             else (Pending_Executed_Unconfirmed,
                   if tool = ''shell.execute'' then ''0.7'' else ''0.5'',
                   tr E ''reconcile.target_exists_unconfirmed''
                     [(''target'', path_str target), (''digest'', ''None'')]))
      in map_sum id
           (\<lambda>d. \<lparr>rf_diagnosis = diag, rf_record_id = Some rid, rf_target = Some (path_str target),
                 rf_confidence = conf, rf_detail = d\<rparr>) detail)"

definition diagnose_committed ::
  "py_env \<Rightarrow> fs \<Rightarrow> string \<Rightarrow> action_envelope \<Rightarrow> string option \<Rightarrow> exn + reconciliation_finding" where
  "diagnose_committed E fs rid env expected =
     (let target = resolve (getcwd E) (env_target env);
          actual = file_digest E fs target;
          (diag, conf, detail) =
            (if actual = None
             then (Committed_Diverged, ''0.8'',
                   tr E ''reconcile.target_deleted'' [(''target'', path_str target)])
             else if truthy expected \<and> actual = expected
             then (Committed_Consistent, ''0.95'',
                   tr E ''reconcile.target_consistent'' [(''target'', path_str target)])
             else (Committed_Diverged, ''0.75'',
                   tr E ''reconcile.target_diverged'' [(''target'', path_str target)]))
      in map_sum id
           (\<lambda>d. \<lparr>rf_diagnosis = diag, rf_record_id = Some rid, rf_target = Some (path_str target),
                 rf_confidence = conf, rf_detail = d\<rparr>) detail)"

text \<open>
  \<open>_append_reconciliation_event\<close>: an absent or empty record id gets a fresh one;
  \<open>last_hash\<close> may raise, a failing \<open>append\<close> is suppressed.
\<close>

definition append_reconciliation_event ::
  "py_env \<Rightarrow> 's execution_store \<Rightarrow> string option \<Rightarrow> string \<Rightarrow> string \<Rightarrow> (('s, 'd) world, unit) py" where
  "append_reconciliation_event E store record_id confidence detail w =
     (let (rid, i) = (if truthy record_id then (the record_id, w_tick w)
                      else (''reconcile-'' @ uuid4 E (w_tick w), Suc (w_tick w)))
      in (case es_last_hash store (w_store w) of
            (Inl e, s1) \<Rightarrow> (Inl e, w\<lparr>w_store := s1, w_tick := i\<rparr>)
          | (Inr prev, s1) \<Rightarrow>
              (let ev = make_event E i rid Reconciliation_Observed prev None
                     (no_kwargs\<lparr>kw_confidence := Some confidence,
                                kw_error_digest := Some (sha256 E detail)\<rparr>)
               in (Inr (), w\<lparr>w_store := snd (es_append store ev s1), w_tick := Suc i\<rparr>))))"

subsection \<open>The three passes\<close>

fun reconcile_pending ::
  "py_env \<Rightarrow> 's execution_store \<Rightarrow> execution_event list \<Rightarrow> string list \<Rightarrow> reconciliation_finding list
     \<Rightarrow> (('s, 'd) world, string list \<times> reconciliation_finding list) py" where
  "reconcile_pending E store [] known findings w = (Inr (known, findings), w)"
| "reconcile_pending E store (p # ps) known findings w =
     (case ev_envelope p of
        None \<Rightarrow> reconcile_pending E store ps known findings w
      | Some env \<Rightarrow>
          (case diagnose_pending E (w_fs w) (ev_record_id p) env of
             Inl e \<Rightarrow> (Inl e, w)
           | Inr f \<Rightarrow>
               (case append_reconciliation_event E store (Some (ev_record_id p)) (rf_confidence f)
                       (rf_detail f) w of
                  (Inl e, w1) \<Rightarrow> (Inl e, w1)
                | (Inr _, w1) \<Rightarrow>
                    reconcile_pending E store ps
                      (path_str (resolve (getcwd E) (env_target env)) # known) (findings @ [f]) w1)))"

fun reconcile_committed ::
  "py_env \<Rightarrow> fs \<Rightarrow> (string \<times> execution_event) list \<Rightarrow> string list \<Rightarrow> reconciliation_finding list
     \<Rightarrow> exn + (string list \<times> reconciliation_finding list)" where
  "reconcile_committed E fs [] known findings = Inr (known, findings)"
| "reconcile_committed E fs ((rid, ev) # evs) known findings =
     (case ev_envelope ev of
        None \<Rightarrow> reconcile_committed E fs evs known findings
      | Some env \<Rightarrow>
          (case diagnose_committed E fs rid env (ev_result_digest ev) of
             Inl e \<Rightarrow> Inl e
           | Inr f \<Rightarrow> reconcile_committed E fs evs
                        (path_str (resolve (getcwd E) (env_target env)) # known) (findings @ [f])))"

fun reconcile_unrecorded ::
  "py_env \<Rightarrow> 's execution_store \<Rightarrow> path list \<Rightarrow> string list \<Rightarrow> reconciliation_finding list
     \<Rightarrow> (('s, 'd) world, reconciliation_finding list) py" where
  "reconcile_unrecorded E store [] known findings w = (Inr findings, w)"
| "reconcile_unrecorded E store (p # ps) known findings w =
     (if \<not> is_file (w_fs w) p \<or> str_in ''.tmp.'' (path_name p) \<or> path_str p \<in> set known
      then reconcile_unrecorded E store ps known findings w
      else (case tr E ''reconcile.unrecorded_external_change'' [(''path'', path_str p)] of
              Inl e \<Rightarrow> (Inl e, w)
            | Inr detail \<Rightarrow>
                (let f = \<lparr>rf_diagnosis = Unrecorded_External_Change, rf_record_id = None,
                          rf_target = Some (path_str p), rf_confidence = ''0.9'', rf_detail = detail\<rparr>
                 in (case append_reconciliation_event E store None ''0.9'' detail w of
                       (Inl e, w1) \<Rightarrow> (Inl e, w1)
                     | (Inr _, w1) \<Rightarrow> reconcile_unrecorded E store ps known (findings @ [f]) w1))))"

definition committed_by_record :: "execution_event list \<Rightarrow> (string \<times> execution_event) list" where
  "committed_by_record evs = dict_of (map (\<lambda>ev. (ev_record_id ev, ev)) evs)"

definition reconcile ::
  "py_env \<Rightarrow> string \<Rightarrow> 's execution_store \<Rightarrow> (('s, 'd) world, reconciliation_finding list) py" where
  "reconcile E workspace_dir store w =
     (case es_pending store (w_store w) of
        Inl e \<Rightarrow> (Inl e, w)
      | Inr ps \<Rightarrow>
          (case reconcile_pending E store ps [] [] w of
             (Inl e, w1) \<Rightarrow> (Inl e, w1)
           | (Inr (known1, fs1), w1) \<Rightarrow>
               (case es_committed store (w_store w1) of
                  Inl e \<Rightarrow> (Inl e, w1)
                | Inr cs \<Rightarrow>
                    (case reconcile_committed E (w_fs w1) (committed_by_record cs) known1 fs1 of
                       Inl e \<Rightarrow> (Inl e, w1)
                     | Inr (known2, fs2) \<Rightarrow>
                         reconcile_unrecorded E store (rglob (resolve (getcwd E) workspace_dir) (w_fs w1))
                           known2 fs2 w1))))"

subsection \<open>Against a provider\<close>

text \<open>
  \<open>find_by_audit_record_id\<close> of a provider, returning the text of what it found;
  \<open>ProviderReconciler.reconcile\<close> records nothing.
\<close>

type_synonym provider_lookup = "string \<Rightarrow> exn + string option"

fun provider_reconcile_loop ::
  "provider_lookup \<Rightarrow> execution_event list \<Rightarrow> reconciliation_finding list
     \<Rightarrow> exn + reconciliation_finding list" where
  "provider_reconcile_loop lookup [] findings = Inr findings"
| "provider_reconcile_loop lookup (p # ps) findings =
     (case ev_envelope p of
        None \<Rightarrow> provider_reconcile_loop lookup ps findings
      | Some env \<Rightarrow>
          if filesystem_tool (env_tool env) then provider_reconcile_loop lookup ps findings
          else (case lookup (ev_record_id p) of
                  Inl e \<Rightarrow> Inl e
                | Inr (Some found) \<Rightarrow> provider_reconcile_loop lookup ps (findings @
                    [\<lparr>rf_diagnosis = Pending_Executed_Unconfirmed, rf_record_id = Some (ev_record_id p),
                      rf_target = Some (env_target env), rf_confidence = ''0.8'',
                      rf_detail = ''provider confirmed: '' @ found\<rparr>])
                | Inr None \<Rightarrow> provider_reconcile_loop lookup ps (findings @
                    [\<lparr>rf_diagnosis = Pending_Not_Executed, rf_record_id = Some (ev_record_id p),
                      rf_target = Some (env_target env), rf_confidence = ''0.6'',
                      rf_detail = ''provider returned no match''\<rparr>])))"

definition provider_reconcile ::
  "'s execution_store \<Rightarrow> provider_lookup \<Rightarrow> 's \<Rightarrow> exn + reconciliation_finding list" where
  "provider_reconcile store lookup s =
     (case es_pending store s of
        Inl e \<Rightarrow> Inl e
      | Inr ps \<Rightarrow> provider_reconcile_loop lookup ps [])"

end
