(* ===== verification/ProxySpec.thy ===== *)
theory ProxySpec
  imports Proxy
begin

text \<open>
  What the calls of \<open>ToolProxy\<close> promise. Each tool is shown to be one instance of a
  two-phase protocol: an intent that is made durable, an attempt at the effect, and a record of
  how the attempt ended. The phases are proved once for any store that implements
  \<open>execution_log\<close>; the tools and the properties of the SQLite store follow.
\<close>

subsection \<open>Attempts\<close>

text \<open>How an attempt at an effect ends: to be committed, to be recorded as failed, or raising.\<close>

datatype attempt = Commits event_kwargs | Fails event_kwargs | Raises exn

fun conclude ::
  "py_env \<Rightarrow> ('s, 'd) tool_proxy \<Rightarrow> action_envelope \<Rightarrow> attempt \<Rightarrow> (('s, 'd) world, proxy_result) py" where
  "conclude E px env (Commits kw) w = commit_with E px env kw w"
| "conclude E px env (Fails kw) w = fail_with E px env kw w"
| "conclude E px env (Raises e) w = (Inl e, w)"

definition write_attempt ::
  "py_env \<Rightarrow> action_envelope \<Rightarrow> path \<Rightarrow> string \<Rightarrow> string option \<Rightarrow> prepared \<Rightarrow> fs \<Rightarrow> attempt \<times> fs" where
  "write_attempt E env target content intent refs fs =
     (case atomic_write (tmp_path target (env_action_id env)) target content fs of
        (Inl e, fs1) \<Rightarrow> (Fails (effect_kwargs SE_None None (Some (digest E (exn_str e))) intent refs),
                        cleanup (tmp_path target (env_action_id env)) fs1)
      | (Inr _, fs1) \<Rightarrow> (Commits (effect_kwargs SE_Confirmed (Some (digest E content)) None intent refs),
                        fs1))"

definition shell_attempt ::
  "py_env \<Rightarrow> shell_outcome \<Rightarrow> string option \<Rightarrow> prepared \<Rightarrow> attempt" where
  "shell_attempt E outcome intent refs =
     (case outcome of
        TimeoutExpired \<Rightarrow> Fails (effect_kwargs SE_Unknown None (Some (digest E ''timeout'')) intent refs)
      | ShellError e \<Rightarrow> Fails (effect_kwargs SE_None None (Some (digest E (exn_str e))) intent refs)
      | Completed out err code \<Rightarrow>
          Commits (effect_kwargs SE_Confirmed (Some (digest E (out @ err @ show_int code))) None intent refs))"

definition mkdir_attempt ::
  "py_env \<Rightarrow> path \<Rightarrow> string option \<Rightarrow> prepared \<Rightarrow> fs \<Rightarrow> attempt \<times> fs" where
  "mkdir_attempt E target intent refs fs =
     (case path_mkdir target fs of
        (Inl e, fs1) \<Rightarrow> (Fails (effect_kwargs SE_None None (Some (digest E (exn_str e))) intent refs), fs1)
      | (Inr _, fs1) \<Rightarrow> (Commits (effect_kwargs SE_Confirmed (Some (digest E (path_str target))) None
                          intent refs), fs1))"

definition http_attempt ::
  "py_env \<Rightarrow> http_outcome \<Rightarrow> string option \<Rightarrow> prepared \<Rightarrow> attempt" where
  "http_attempt E outcome intent refs =
     (let received = (\<lambda>code body. Commits (effect_kwargs SE_Confirmed
            (Some (digest E (show_int code @ [CHR 0x0A] @ body))) None intent refs));
          failed = (\<lambda>se rd msg. Fails (effect_kwargs se rd (Some (digest E msg)) intent refs))
      in (case outcome of
            Response code body \<Rightarrow> received code body
          | IncompleteRead status part msg \<Rightarrow>
              failed SE_Partial
                (Some (digest E (show_int (case status of None \<Rightarrow> 0 | Some c \<Rightarrow> c) @ [CHR 0x0A]
                                 @ (case part of None \<Rightarrow> [] | Some b \<Rightarrow> b)))) msg
          | HttpTimeout msg \<Rightarrow> failed SE_Unknown None msg
          | HTTPError code (Inl e) \<Rightarrow> Raises e
          | HTTPError code (Inr b) \<Rightarrow> received code b
          | URLError msg \<Rightarrow> failed SE_None None msg
          | HttpRaises e \<Rightarrow> Raises e))"

lemma perform_write_attempt:
  "perform_write E px env target content intent refs w =
     (let (att, fs') = write_attempt E env target content intent refs (w_fs w)
      in conclude E px env att (w\<lparr>w_fs := fs'\<rparr>))"
  by (auto simp: perform_write_def write_attempt_def Let_def split: prod.splits sum.splits)

lemma perform_shell_attempt:
  "perform_shell E px run env command timeout intent refs w =
     (let (outcome, fs') = run command (path_str (tp_workspace px)) timeout (w_fs w)
      in conclude E px env (shell_attempt E outcome intent refs) (w\<lparr>w_fs := fs'\<rparr>))"
  by (auto simp: perform_shell_def shell_attempt_def Let_def split: prod.splits shell_outcome.splits)

lemma perform_mkdir_attempt:
  "perform_mkdir E px env target intent refs w =
     (let (att, fs') = mkdir_attempt E target intent refs (w_fs w)
      in conclude E px env att (w\<lparr>w_fs := fs'\<rparr>))"
  by (auto simp: perform_mkdir_def mkdir_attempt_def Let_def split: prod.splits sum.splits)

lemma perform_get_attempt:
  "perform_get E px urlopen env url timeout intent refs w =
     conclude E px env (http_attempt E (urlopen url timeout (w_tick w)) intent refs) w"
  by (auto simp: perform_get_def http_attempt_def Let_def split: http_outcome.splits sum.splits)

subsection \<open>The phases, for any execution log\<close>

text \<open>The record of a call: an event on top of the log \<open>L\<close>.\<close>

definition recorded ::
  "py_env \<Rightarrow> action_envelope \<Rightarrow> event_type \<Rightarrow> event_kwargs \<Rightarrow> execution_event list
     \<Rightarrow> execution_event \<Rightarrow> bool" where
  "recorded E env ty kw L e \<longleftrightarrow>
     (\<exists>i. e = make_event E i (env_action_id env) ty (tip ev_hash L) (Some env) kw)"

lemma recorded_fields:
  assumes "recorded E env ty kw L e"
  shows "ev_record_id e = env_action_id env" "ev_event_type e = ty" "ev_envelope e = Some env"
    "ev_previous_hash e = Some (tip ev_hash L)" "event_sealed (sha256 E) e"
    "ev_side_effect e = kw_side_effect kw" "ev_result_digest e = kw_result_digest kw"
    "ev_error_digest e = kw_error_digest kw" "ev_intent e = kw_intent kw"
    "ev_decision_ref e = kw_decision_ref kw" "ev_context_ref e = kw_context_ref kw"
  using assms make_event_sealed by (auto simp: recorded_def)

lemma wf_effect_kwargs [simp]: "wf_kwargs (effect_kwargs se rd ed it refs)"
  by (simp add: wf_kwargs_def effect_kwargs_def)

lemma effect_kwargs_fields [simp]:
  "kw_side_effect (effect_kwargs se rd ed it refs) = Some se"
  "kw_result_digest (effect_kwargs se rd ed it refs) = rd"
  "kw_error_digest (effect_kwargs se rd ed it refs) = ed"
  "kw_intent (effect_kwargs se rd ed it refs) = it"
  "kw_decision_ref (effect_kwargs se rd ed it refs) = fst refs"
  "kw_context_ref (effect_kwargs se rd ed it refs) = snd refs"
  "kw_confidence (effect_kwargs se rd ed it refs) = None"
  by (simp_all add: effect_kwargs_def)

text \<open>The attempts that the tools make carry well-formed arguments.\<close>

fun wf_attempt :: "attempt \<Rightarrow> bool" where
  "wf_attempt (Commits kw) = wf_kwargs kw"
| "wf_attempt (Fails kw) = wf_kwargs kw"
| "wf_attempt (Raises e) = True"

lemma wf_attempts [simp]:
  "wf_attempt (fst (write_attempt E env target content intent refs fs))"
  "wf_attempt (shell_attempt E outcome intent refs)"
  "wf_attempt (fst (mkdir_attempt E target intent refs fs))"
  "wf_attempt (http_attempt E hout intent refs)"
  by (auto simp: write_attempt_def shell_attempt_def mkdir_attempt_def http_attempt_def Let_def
      split: prod.splits sum.splits shell_outcome.splits http_outcome.splits)

lemma effective_context_frame:
  "effective_context px c w = (r, w') \<Longrightarrow> w_store w' = w_store w \<and> w_fs w' = w_fs w \<and> w_dec w' = w_dec w"
  by (auto simp: effective_context_def split: option.splits sum.splits)

lemma record_decision_frame:
  "record_decision E px rid it c w = (r, w') \<Longrightarrow> w_store w' = w_store w \<and> w_fs w' = w_fs w"
  by (auto simp: record_decision_def Let_def split: option.splits sum.splits prod.splits)

subsection \<open>Calls\<close>

datatype tool_call =
    WriteFile "action_envelope option" string "string option" "(string \<times> json) list option"
  | ExecuteShell "action_envelope option" "string list" "string option" "string option"
      "(string \<times> json) list option"
  | MakeDirectory "action_envelope option" "string option" "(string \<times> json) list option"
  | HttpGet "action_envelope option" string "string option" "string option"
      "(string \<times> json) list option"

fun run_call ::
  "py_env \<Rightarrow> ('s, 'd) tool_proxy \<Rightarrow> shell \<Rightarrow> http \<Rightarrow> tool_call \<Rightarrow> (('s, 'd) world, proxy_result) py" where
  "run_call E px run urlopen (WriteFile env content intent ctx) w = write_file E px env content intent ctx w"
| "run_call E px run urlopen (ExecuteShell env command timeout intent ctx) w =
     execute_shell E px run env command timeout intent ctx w"
| "run_call E px run urlopen (MakeDirectory env intent ctx) w = make_directory E px env intent ctx w"
| "run_call E px run urlopen (HttpGet env url timeout intent ctx) w =
     http_get E px urlopen env url timeout intent ctx w"

fun call_envelope :: "tool_call \<Rightarrow> action_envelope option" where
  "call_envelope (WriteFile env content intent ctx) = env"
| "call_envelope (ExecuteShell env command timeout intent ctx) = env"
| "call_envelope (MakeDirectory env intent ctx) = env"
| "call_envelope (HttpGet env url timeout intent ctx) = env"

fun call_intent :: "tool_call \<Rightarrow> string option" where
  "call_intent (WriteFile env content intent ctx) = intent"
| "call_intent (ExecuteShell env command timeout intent ctx) = intent"
| "call_intent (MakeDirectory env intent ctx) = intent"
| "call_intent (HttpGet env url timeout intent ctx) = intent"

text \<open>The attempts a call may make once its intent is durable, with the file system after them.\<close>

fun attempts ::
  "py_env \<Rightarrow> ('s, 'd) tool_proxy \<Rightarrow> shell \<Rightarrow> http \<Rightarrow> tool_call \<Rightarrow> action_envelope
     \<Rightarrow> prepared \<Rightarrow> fs \<Rightarrow> (attempt \<times> fs) set" where
  "attempts E px run urlopen (WriteFile _ content intent _) env refs fs =
     (let target = resolve (getcwd E) (env_target env)
      in if is_relative_to target (tp_workspace px) \<and> path_exists fs (parent target)
         then {write_attempt E env target content intent refs fs} else {})"
| "attempts E px run urlopen (ExecuteShell _ command timeout intent _) env refs fs =
     (let (outcome, fs') = run command (path_str (tp_workspace px)) timeout fs
      in {(shell_attempt E outcome intent refs, fs')})"
| "attempts E px run urlopen (MakeDirectory _ intent _) env refs fs =
     (let target = resolve (getcwd E) (env_target env)
      in if is_relative_to target (tp_workspace px) then {mkdir_attempt E target intent refs fs} else {})"
| "attempts E px run urlopen (HttpGet _ url timeout intent _) env refs fs =
     {(http_attempt E (urlopen url timeout i) intent refs, fs) |i. True}"

text \<open>A call that ends before the first phase leaves the world as it was.\<close>

definition turned_away :: "exn + proxy_result \<Rightarrow> ('s, 'd) world \<Rightarrow> ('s, 'd) world \<Rightarrow> bool" where
  "turned_away r w w' \<longleftrightarrow> w' = w \<and> ((\<exists>x. r = Inl x) \<or> r = Inr REJECTED)"

lemma gated_cases:
  "gated px env body w = (r, w') \<Longrightarrow> turned_away r w w' \<or> body w = (r, w')"
  by (auto simp: gated_def turned_away_def evaluate_policy_def evaluate_runtime_boundary_def
      split: sum.splits option.splits if_splits)

context execution_log
begin

text \<open>The log after a step that may have recorded one event of a kind.\<close>

definition maybe_recorded ::
  "py_env \<Rightarrow> action_envelope \<Rightarrow> event_type \<Rightarrow> event_kwargs \<Rightarrow> 's \<Rightarrow> 's \<Rightarrow> bool" where
  "maybe_recorded E env ty kw s s' \<longleftrightarrow>
     log s' = log s \<or> (\<exists>e. recorded E env ty kw (log s) e \<and> log s' = log s @ [e])"

definition now_durable ::
  "py_env \<Rightarrow> action_envelope \<Rightarrow> event_type \<Rightarrow> event_kwargs \<Rightarrow> 's \<Rightarrow> 's \<Rightarrow> bool" where
  "now_durable E env ty kw s s' \<longleftrightarrow>
     (\<exists>e. recorded E env ty kw (log s) e \<and> log s' = log s @ [e]) \<and> durable_log s' = log s'"

lemma record_event_cases:
  assumes px: "tp_store px = ops" and i: "inv (w_store w)" and kw: "wf_kwargs kw"
    and call: "record_event E px env ty kw w = (r, w')"
  shows "inv (w_store w') \<and> w_fs w' = w_fs w \<and> w_dec w' = w_dec w"
    and "r = Inr u \<Longrightarrow> now_durable E env ty kw (w_store w) (w_store w')"
    and "r = Inl x \<Longrightarrow> maybe_recorded E env ty kw (w_store w) (w_store w')
           \<and> durable_log (w_store w') = durable_log (w_store w)"
proof -
  obtain r1 s1 where l: "es_last_hash ops (w_store w) = (r1, s1)" by fastforce
  note fr = last_hash_frame [OF i l]
  show "inv (w_store w') \<and> w_fs w' = w_fs w \<and> w_dec w' = w_dec w"
    and "r = Inr u \<Longrightarrow> now_durable E env ty kw (w_store w) (w_store w')"
    and "r = Inl x \<Longrightarrow> maybe_recorded E env ty kw (w_store w) (w_store w')
           \<and> durable_log (w_store w') = durable_log (w_store w)"
  proof (atomize (full), cases r1)
    case (Inl e)
    with call px l fr show "(inv (w_store w') \<and> w_fs w' = w_fs w \<and> w_dec w' = w_dec w) \<and>
      (r = Inr u \<longrightarrow> now_durable E env ty kw (w_store w) (w_store w')) \<and>
      (r = Inl x \<longrightarrow> maybe_recorded E env ty kw (w_store w) (w_store w')
           \<and> durable_log (w_store w') = durable_log (w_store w))"
      by (auto simp: record_event_def maybe_recorded_def)
  next
    case (Inr h)
    let ?e = "make_event E (w_tick w) (env_action_id env) ty h (Some env) kw"
    obtain r2 s2 where a: "es_append ops ?e s1 = (r2, s2)" by fastforce
    have h: "h = tip ev_hash (log (w_store w))" using last_hash_tip [OF i] l Inr by simp
    have e: "recorded E env ty kw (log (w_store w)) ?e" by (auto simp: recorded_def h)
    have w': "w' = w\<lparr>w_store := s2, w_tick := Suc (w_tick w)\<rparr>" "r = r2"
      using call px l Inr a by (simp_all add: record_event_def Let_def)
    note ok = append_ok [of s1 ?e _ s2] append_error [of s1 ?e _ s2]
    show "(inv (w_store w') \<and> w_fs w' = w_fs w \<and> w_dec w' = w_dec w) \<and>
      (r = Inr u \<longrightarrow> now_durable E env ty kw (w_store w) (w_store w')) \<and>
      (r = Inl x \<longrightarrow> maybe_recorded E env ty kw (w_store w) (w_store w')
           \<and> durable_log (w_store w') = durable_log (w_store w))"
      using ok fr a wf_make_event [OF kw] e w'
      by (cases r2) (auto simp: now_durable_def maybe_recorded_def)
  qed
qed
text \<open>The three ways \<open>_prepare_execution\<close> ends.\<close>

definition prepared_as ::
  "py_env \<Rightarrow> action_envelope \<Rightarrow> string option \<Rightarrow> exn + prepared option \<Rightarrow> 's \<Rightarrow> 's \<Rightarrow> bool" where
  "prepared_as E env intent r s s' \<longleftrightarrow>
     (case r of
        Inl x \<Rightarrow> s' = s
      | Inr None \<Rightarrow>
          (\<exists>refs. maybe_recorded E env Intent_Pending (effect_kwargs SE_None None None intent refs) s s')
          \<and> durable_log s' = durable_log s
      | Inr (Some refs) \<Rightarrow>
          now_durable E env Intent_Pending (effect_kwargs SE_None None None intent refs) s s')"

lemma maybe_recorded_refl [simp]: "maybe_recorded E env ty kw s s"
  by (simp add: maybe_recorded_def)

lemma prepare_cases:
  assumes px: "tp_store px = ops" and i: "inv (w_store w)"
    and call: "prepare_execution E px env intent context w = (r, w')"
  shows "inv (w_store w') \<and> w_fs w' = w_fs w \<and> prepared_as E env intent r (w_store w) (w_store w')"
proof -
  obtain r1 w1 where c: "effective_context px context w = (r1, w1)" by fastforce
  have w1: "w_store w1 = w_store w" "w_fs w1 = w_fs w" using effective_context_frame [OF c] by simp_all
  show ?thesis
  proof (cases r1)
    case (Inl e)
    with call c w1 i show ?thesis by (auto simp: prepare_execution_def prepared_as_def)
  next
    case (Inr ctx)
    obtain r2 w2 where d: "record_decision E px (env_action_id env) intent ctx w1 = (r2, w2)" by fastforce
    have w2: "w_store w2 = w_store w" "w_fs w2 = w_fs w"
      using record_decision_frame [OF d] w1 by simp_all
    show ?thesis
    proof (cases "\<exists>refs. r2 = Inr (Some refs)")
      case False
      with call c d Inr w2 i show ?thesis
        by (auto simp: prepare_execution_def prepared_as_def split: sum.splits option.splits)
    next
      case True
      then obtain a b where refs: "r2 = Inr (Some (a, b))" by auto
      let ?refs = "(a, b)"
      let ?kw = "effect_kwargs SE_None None None intent ?refs"
      obtain r3 w3 where p: "record_event E px env Intent_Pending ?kw w2 = (r3, w3)" by fastforce
      have i2: "inv (w_store w2)" using i w2 by simp
      note ev = record_event_cases [OF px i2 wf_effect_kwargs p]
      have "(r, w') = (case r3 of Inl _ \<Rightarrow> (Inr None, w3) | Inr _ \<Rightarrow> (Inr (Some ?refs), w3))"
        using call c d Inr refs p by (simp add: prepare_execution_def split: sum.splits)
      then show ?thesis
        using ev w2 by (cases r3) (auto simp: prepared_as_def)
    qed
  qed
qed

text \<open>The ways an attempt is concluded.\<close>

definition concluded_as ::
  "py_env \<Rightarrow> action_envelope \<Rightarrow> attempt \<Rightarrow> exn + proxy_result \<Rightarrow> 's \<Rightarrow> 's \<Rightarrow> bool" where
  "concluded_as E env att r s s' \<longleftrightarrow>
     (case att of
        Raises e \<Rightarrow> r = Inl e \<and> s' = s
      | Fails kw \<Rightarrow> r = Inr FAILURE
          \<and> (now_durable E env Execution_Failed kw s s'
             \<or> maybe_recorded E env Execution_Failed kw s s' \<and> durable_log s' = durable_log s)
      | Commits kw \<Rightarrow>
          r = Inr SUCCESS \<and> now_durable E env Execution_Committed kw s s'
          \<or> r = Inr UNCONFIRMED \<and> maybe_recorded E env Execution_Committed kw s s'
            \<and> durable_log s' = durable_log s)"

lemma conclude_cases:
  assumes px: "tp_store px = ops" and i: "inv (w_store w)" and att: "wf_attempt att"
    and call: "conclude E px env att w = (r, w')"
  shows "inv (w_store w') \<and> w_fs w' = w_fs w \<and> concluded_as E env att r (w_store w) (w_store w')"
proof (cases att)
  case (Commits kw)
  obtain r1 w1 where e: "record_event E px env Execution_Committed kw w = (r1, w1)" by fastforce
  from record_event_cases [OF px i _ e] att Commits call e show ?thesis
    by (cases r1) (auto simp: commit_with_def concluded_as_def)
next
  case (Fails kw)
  obtain r1 w1 where e: "record_event E px env Execution_Failed kw w = (r1, w1)" by fastforce
  from record_event_cases [OF px i _ e] att Fails call e show ?thesis
    by (cases r1) (auto simp: fail_with_def concluded_as_def)
next
  case (Raises e)
  with call i show ?thesis by (auto simp: concluded_as_def)
qed

text \<open>
  The whole protocol: a call that ends before the intent is durable has no effect; otherwise the
  attempt starts with the intent durable on top of the log.
\<close>

definition two_phase ::
  "py_env \<Rightarrow> action_envelope \<Rightarrow> string option \<Rightarrow> (prepared \<Rightarrow> fs \<Rightarrow> (attempt \<times> fs) set)
     \<Rightarrow> exn + proxy_result \<Rightarrow> ('s, 'd) world \<Rightarrow> ('s, 'd) world \<Rightarrow> bool" where
  "two_phase E env intent atts r w w' \<longleftrightarrow>
     (w_fs w' = w_fs w
      \<and> ((\<exists>x. r = Inl x) \<and> w_store w' = w_store w
         \<or> r = Inr REJECTED \<and> prepared_as E env intent (Inr None) (w_store w) (w_store w')))
     \<or> (\<exists>refs att s. (att, w_fs w') \<in> atts refs (w_fs w)
          \<and> prepared_as E env intent (Inr (Some refs)) (w_store w) s
          \<and> concluded_as E env att r s (w_store w'))"

lemma with_intent_two_phase:
  assumes px: "tp_store px = ops" and i: "inv (w_store w)"
    and body: "\<And>refs u. w_fs u = w_fs w \<Longrightarrow>
                 \<exists>att fs'. (att, fs') \<in> atts refs (w_fs u) \<and> wf_attempt att
                   \<and> body refs u = conclude E px env att (u\<lparr>w_fs := fs'\<rparr>)"
    and call: "with_intent E px env intent context body w = (r, w')"
  shows "inv (w_store w') \<and> two_phase E env intent atts r w w'"
proof -
  obtain r1 w1 where p: "prepare_execution E px env intent context w = (r1, w1)" by fastforce
  note pc = prepare_cases [OF px i p]
  show ?thesis
  proof (cases "\<exists>refs. r1 = Inr (Some refs)")
    case False
    with pc p call show ?thesis
      by (auto simp: with_intent_def two_phase_def prepared_as_def split: sum.splits option.splits)
  next
    case True
    then obtain refs where refs: "r1 = Inr (Some refs)" by blast
    obtain att fs' where b: "(att, fs') \<in> atts refs (w_fs w1)" "wf_attempt att"
        "body refs w1 = conclude E px env att (w1\<lparr>w_fs := fs'\<rparr>)"
      using body pc by blast
    have "conclude E px env att (w1\<lparr>w_fs := fs'\<rparr>) = (r, w')"
      using call p refs b(3) by (simp add: with_intent_def)
    then have "inv (w_store w') \<and> w_fs w' = fs' \<and> concluded_as E env att r (w_store w1) (w_store w')"
      using conclude_cases [OF px _ b(2), of "w1\<lparr>w_fs := fs'\<rparr>"] pc by simp
    moreover have "prepared_as E env intent (Inr (Some refs)) (w_store w) (w_store w1)" "w_fs w1 = w_fs w"
      using pc refs by simp_all
    ultimately show ?thesis using b(1) unfolding two_phase_def by metis
  qed
qed

lemma run_call_two_phase:
  fixes w :: "('s, 'd) world"
  assumes px: "tp_store px = ops" and i: "inv (w_store w)"
    and call: "run_call E px run urlopen c w = (r, w')"
  shows "inv (w_store w') \<and>
     (turned_away r w w' \<or>
      (\<exists>env. call_envelope c = Some env
         \<and> two_phase E env (call_intent c) (attempts E px run urlopen c env) r w w'))"
proof (cases "turned_away r w w'")
  case True
  with i show ?thesis by (simp add: turned_away_def)
next
  case False
  show ?thesis
  proof (cases c)
    case (WriteFile oenv content intent ctx)
    with call False obtain env where env: "oenv = Some env"
      by (cases oenv) (auto simp: write_file_def turned_away_def)
    let ?t = "resolve (getcwd E) (env_target env)"
    have g: "is_relative_to ?t (tp_workspace px)" "path_exists (w_fs w) (parent ?t)"
        "with_intent E px env intent ctx (perform_write E px env ?t content intent) w = (r, w')"
      using call WriteFile env False gated_cases [of px env _ w r w']
      by (auto simp: write_file_def turned_away_def Let_def split: if_splits)
    have "inv (w_store w') \<and> two_phase E env intent (attempts E px run urlopen c env) r w w'"
    proof (rule with_intent_two_phase [OF px i _ g(3)])
      fix refs and u :: "('s, 'd) world"
      assume "w_fs u = w_fs w"
      moreover obtain att fs' where a: "write_attempt E env ?t content intent refs (w_fs u) = (att, fs')"
        by fastforce
      moreover have "wf_attempt att" using wf_attempts(1) a by (metis fst_conv)
      ultimately show "\<exists>att fs'. (att, fs') \<in> attempts E px run urlopen c env refs (w_fs u) \<and>
          wf_attempt att \<and> perform_write E px env ?t content intent refs u =
            conclude E px env att (u\<lparr>w_fs := fs'\<rparr>)"
        using g WriteFile by (auto simp: perform_write_attempt Let_def)
    qed
    with WriteFile env show ?thesis by simp
  next
    case (ExecuteShell oenv command timeout intent ctx)
    with call False obtain env where env: "oenv = Some env"
      by (cases oenv) (auto simp: execute_shell_def turned_away_def)
    have g: "with_intent E px env intent ctx (perform_shell E px run env command timeout intent) w = (r, w')"
      using call ExecuteShell env False gated_cases [of px env _ w r w']
      by (auto simp: execute_shell_def)
    have "inv (w_store w') \<and> two_phase E env intent (attempts E px run urlopen c env) r w w'"
      by (rule with_intent_two_phase [OF px i _ g])
        (auto simp: ExecuteShell perform_shell_attempt Let_def split: prod.splits)
    with ExecuteShell env show ?thesis by simp
  next
    case (MakeDirectory oenv intent ctx)
    with call False obtain env where env: "oenv = Some env"
      by (cases oenv) (auto simp: make_directory_def turned_away_def)
    let ?t = "resolve (getcwd E) (env_target env)"
    have g: "is_relative_to ?t (tp_workspace px)"
        "with_intent E px env intent ctx (perform_mkdir E px env ?t intent) w = (r, w')"
      using call MakeDirectory env False gated_cases [of px env _ w r w']
      by (auto simp: make_directory_def turned_away_def Let_def split: if_splits)
    have "inv (w_store w') \<and> two_phase E env intent (attempts E px run urlopen c env) r w w'"
    proof (rule with_intent_two_phase [OF px i _ g(2)])
      fix refs and u :: "('s, 'd) world"
      obtain att fs' where a: "mkdir_attempt E ?t intent refs (w_fs u) = (att, fs')" by fastforce
      moreover have "wf_attempt att" using wf_attempts(3) a by (metis fst_conv)
      ultimately show "\<exists>att fs'. (att, fs') \<in> attempts E px run urlopen c env refs (w_fs u) \<and>
          wf_attempt att \<and> perform_mkdir E px env ?t intent refs u =
            conclude E px env att (u\<lparr>w_fs := fs'\<rparr>)"
        using g MakeDirectory by (auto simp: perform_mkdir_attempt Let_def)
    qed
    with MakeDirectory env show ?thesis by simp
  next
    case (HttpGet oenv url timeout intent ctx)
    with call False obtain env where env: "oenv = Some env"
      by (cases oenv) (auto simp: http_get_def turned_away_def)
    have g: "with_intent E px env intent ctx (perform_get E px urlopen env url timeout intent) w = (r, w')"
      using call HttpGet env False gated_cases [of px env _ w r w']
      by (auto simp: http_get_def)
    have "inv (w_store w') \<and> two_phase E env intent (attempts E px run urlopen c env) r w w'"
    proof (rule with_intent_two_phase [OF px i _ g])
      fix refs and u :: "('s, 'd) world"
      show "\<exists>att fs'. (att, fs') \<in> attempts E px run urlopen c env refs (w_fs u) \<and> wf_attempt att \<and>
          perform_get E px urlopen env url timeout intent refs u = conclude E px env att (u\<lparr>w_fs := fs'\<rparr>)"
        using wf_attempts(4) by (fastforce simp: HttpGet perform_get_attempt)
    qed
    with HttpGet env show ?thesis by simp
  qed
qed

subsection \<open>Consequences for every call\<close>

lemma maybe_recorded_chained:
  assumes "maybe_recorded E env ty kw s s'" "chained (event_sealed (sha256 E)) s"
  shows "chained (event_sealed (sha256 E)) s'"
proof (cases "log s' = log s")
  case True
  with assms(2) show ?thesis by (simp add: chained_def)
next
  case False
  then obtain e where e: "recorded E env ty kw (log s) e" "log s' = log s @ [e]"
    using assms(1) by (auto simp: maybe_recorded_def)
  with assms(2) recorded_fields(4,5) [OF e(1)] show ?thesis
    by (auto simp: chained_def intro: linked_from_snoc)
qed

lemma now_durable_maybe: "now_durable E env ty kw s s' \<Longrightarrow> maybe_recorded E env ty kw s s'"
  by (auto simp: now_durable_def maybe_recorded_def)

lemma prepared_chained:
  "prepared_as E env intent r s s' \<Longrightarrow> chained (event_sealed (sha256 E)) s \<Longrightarrow>
     chained (event_sealed (sha256 E)) s'"
  unfolding prepared_as_def
  by (auto split: sum.splits option.splits intro: maybe_recorded_chained dest: now_durable_maybe)

lemma concluded_chained:
  "concluded_as E env att r s s' \<Longrightarrow> chained (event_sealed (sha256 E)) s \<Longrightarrow>
     chained (event_sealed (sha256 E)) s'"
  unfolding concluded_as_def
  by (auto split: attempt.splits intro: maybe_recorded_chained dest: now_durable_maybe)

lemma run_call_chained:
  assumes "tp_store px = ops" "inv (w_store w)" "run_call E px run urlopen c w = (r, w')"
    and "chained (event_sealed (sha256 E)) (w_store w)"
  shows "inv (w_store w') \<and> chained (event_sealed (sha256 E)) (w_store w')"
  using run_call_two_phase [OF assms(1-3)] assms(4)
  by (auto simp: turned_away_def two_phase_def dest: prepared_chained concluded_chained)

lemma prepared_durable:
  assumes "prepared_as E env intent (Inr (Some refs)) s s'"
  obtains p where "recorded E env Intent_Pending (effect_kwargs SE_None None None intent refs) (log s) p"
    "log s' = log s @ [p]" "durable_log s' = log s @ [p]"
  using assms by (auto simp: prepared_as_def now_durable_def)

lemma concluded_prefix:
  "concluded_as E env att r s s' \<Longrightarrow> durable_log s = log s \<Longrightarrow>
     prefix (log s) (log s') \<and> prefix (durable_log s) (durable_log s')"
  by (auto simp: concluded_as_def now_durable_def maybe_recorded_def split: attempt.splits)

lemma prepared_prefix:
  "prepared_as E env intent r s s' \<Longrightarrow> prefix (log s) (log s')"
  by (auto simp: prepared_as_def now_durable_def maybe_recorded_def split: sum.splits option.splits)

text \<open>The log only grows, and an effect on the file system has its intent on disk.\<close>

lemma run_call_append_only:
  assumes "tp_store px = ops" "inv (w_store w)" "run_call E px run urlopen c w = (r, w')"
  shows "prefix (log (w_store w)) (log (w_store w'))"
proof -
  have "prefix (log s) (log s'')"
    if "prepared_as E env it (Inr (Some refs)) s s'" "concluded_as E env att r s' s''" for s s' s'' env it refs att
    using that prepared_prefix [OF that(1)] concluded_prefix [OF that(2)]
    by (metis prefix_order.trans prepared_durable)
  then show ?thesis
    using run_call_two_phase [OF assms]
    by (auto simp: turned_away_def two_phase_def dest: prepared_prefix)
qed

lemma run_call_write_ahead:
  assumes "tp_store px = ops" "inv (w_store w)" "run_call E px run urlopen c w = (r, w')"
    and "w_fs w' \<noteq> w_fs w"
  obtains env p where "call_envelope c = Some env" "p \<in> set (durable_log (w_store w'))"
    "ev_event_type p = Intent_Pending" "ev_record_id p = env_action_id env" "ev_envelope p = Some env"
    "ev_intent p = call_intent c"
proof -
  from run_call_two_phase [OF assms(1-3)] assms(4) obtain env refs att s
    where e: "call_envelope c = Some env"
      "prepared_as E env (call_intent c) (Inr (Some refs)) (w_store w) s"
      "concluded_as E env att r s (w_store w')"
    by (auto simp: turned_away_def two_phase_def)
  from prepared_durable [OF e(2)] obtain p
    where p: "recorded E env Intent_Pending (effect_kwargs SE_None None None (call_intent c) refs)
                (log (w_store w)) p"
      "log s = log (w_store w) @ [p]" "durable_log s = log (w_store w) @ [p]" .
  with concluded_prefix [OF e(3)] have "p \<in> set (durable_log (w_store w'))"
    by (metis in_set_conv_decomp prefix_def append.assoc append_Cons)
  with that e(1) recorded_fields [OF p(1)] show ?thesis by simp
qed

end

end
