(* ===== verification/Fixtures.thy ===== *)
theory Fixtures
  imports ProxySpec
begin

text \<open>
  Concrete environments, envelopes, proxies and worlds, on which the hypotheses of the properties
  are shown to hold, with the results of the calls made on them.
\<close>

definition E0 :: py_env where
  "E0 = \<lparr>sha256 = (\<lambda>s. take 64 (rev s @ replicate 64 (CHR ''f''))), uuid4 = (\<lambda>i. ''id-'' @ show_nat i),
     now = (\<lambda>i. ''2026-01-01T00:00:0'' @ show_nat i @ ''Z''), locale_files = (\<lambda>l. None),
     locale_name = ''ja'', getcwd = [''home'']\<rparr>"

definition demo_envelope :: "string \<Rightarrow> string \<Rightarrow> string \<Rightarrow> action_envelope" where
  "demo_envelope action_id tool target =
     \<lparr>env_action_id = action_id, env_tool = tool, env_target = target,
      env_parameters_digest = ''d'', env_expected_result_digest = None,
      env_permission_scope = ''workspace'', env_risk_class = [''low''],
      env_redaction_policy = None\<rparr>"

definition env_w :: action_envelope where
  "env_w = demo_envelope ''a1'' ''filesystem.write'' ''/ws/a.txt''"

definition env_s :: action_envelope where
  "env_s = demo_envelope ''s1'' ''shell.execute'' ''ls''"

definition fs_ws :: "io_fault list \<Rightarrow> fs" where
  "fs_ws faults = \<lparr>fs_nodes = [([''ws''], Dir), ([''ws'', ''a.txt''], File ''old'')],
     fs_unreadable = [], fs_faults = faults\<rparr>"

definition world_with ::
  "db_fault list \<Rightarrow> string option list \<Rightarrow> io_fault list \<Rightarrow> (exec_db, decision_db) world" where
  "world_with wfs rfs ios = \<lparr>w_store = empty_exec_db wfs rfs, w_dec = empty_decision_db [] [],
     w_fs = fs_ws ios, w_tick = 0\<rparr>"

definition px0 :: "(exec_db, decision_db) tool_proxy" where
  "px0 = tool_proxy_init E0 ''/ws'' sqlite_execution_store (Some (sqlite_decision_store E0)) None None None"

definition run0 :: shell where
  "run0 command dir timeout fs = (Completed ''out'' [] 0, fs)"

definition get0 :: http where
  "get0 url timeout i = HttpRaises (ValueError url)"

definition approval_rule :: policy_rule where
  "approval_rule = \<lparr>rule_class = ''Ask'', rule_evaluate = (\<lambda>_. Inr REQUIRE_APPROVAL)\<rparr>"

lemma approval_rule_evaluate [simp]: "rule_evaluate approval_rule env = Inr REQUIRE_APPROVAL"
  by (simp add: approval_rule_def)

lemmas path_eval = path_parts_def starts_with_def parent_def path_name_def tmp_path_def is_relative_to_def
  resolve_def

lemmas fs_eval = write_bytes_def fsync_def replace_def next_io_def path_exists_def node_at_def
  set_node_def del_node_def cleanup_def atomic_write_def os_mkdir_def mkdir_plain_def

lemmas db_eval = sqlite_execution_store_def exec_append_def exec_last_hash_def empty_exec_db_def
  visible_def next_fault_def
  sqlite_decision_store_def decision_record_def decision_last_hash_def empty_decision_db_def d_visible_def

lemmas proxy_eval = write_file_def execute_shell_def make_directory_def http_get_def gated_def
  evaluate_policy_def evaluate_runtime_boundary_def with_intent_def prepare_execution_def
  effective_context_def record_decision_def record_event_def perform_write_def perform_shell_def
  perform_mkdir_def perform_get_def commit_with_def fail_with_def

lemmas fixture_defs = E0_def demo_envelope_def env_w_def env_s_def fs_ws_def world_with_def px0_def
  tool_proxy_init_def run0_def get0_def

lemmas demo_eval = fixture_defs proxy_eval db_eval fs_eval path_eval show_nat.simps digit_def

lemma px0_simps [simp]:
  "tp_store px0 = sqlite_execution_store"
  "tp_decision_store px0 = Some (sqlite_decision_store E0)"
  by (simp_all add: px0_def tool_proxy_init_def)

definition demo_write :: tool_call where
  "demo_write = WriteFile (Some env_w) ''hi'' (Some ''why'') None"

definition demo_get :: tool_call where
  "demo_get = HttpGet (Some env_s) ''u'' None None None"

abbreviation demo_run :: "tool_call \<Rightarrow> (exec_db, decision_db) world
    \<Rightarrow> (exn + proxy_result) \<times> (exec_db, decision_db) world" where
  "demo_run \<equiv> run_call E0 px0 run0 get0"

lemma world_with_inv [simp]: "exec_inv (w_store (world_with wfs rfs ios))"
  by (simp add: world_with_def empty_exec_db_def exec_inv_def visible_def)

lemma world_with_log [simp]: "exec_log (w_store (world_with wfs rfs ios)) = []"
  "exec_durable (w_store (world_with wfs rfs ios)) = []"
  by (simp_all add: world_with_def empty_exec_db_def exec_log_def exec_durable_def visible_def)

lemma good_cwd [simp]: "\<forall>c \<in> set (getcwd E0). good_part c"
  by (simp add: E0_def good_part_def)

lemma split_result: "fst x = r \<Longrightarrow> x = (r, snd x)"
  by (cases x) simp

lemma demo_success: "demo_run demo_write (world_with [] [] [])
    = (Inr SUCCESS, snd (demo_run demo_write (world_with [] [] [])))"
  by (rule split_result) (simp add: demo_write_def demo_eval)

lemma demo_unconfirmed: "demo_run demo_write (world_with [NoFault, CommitFails ''io''] [] [])
    = (Inr UNCONFIRMED, snd (demo_run demo_write (world_with [NoFault, CommitFails ''io''] [] [])))"
  by (rule split_result) (simp add: demo_write_def demo_eval)

lemma demo_failure: "demo_run demo_write (world_with [] [] [IoPartial 1 ''full''])
    = (Inr FAILURE, snd (demo_run demo_write (world_with [] [] [IoPartial 1 ''full''])))"
  by (rule split_result) (simp add: demo_write_def demo_eval)

lemma demo_rejected: "demo_run demo_write (world_with [InsertFails ''locked''] [] [])
    = (Inr REJECTED, snd (demo_run demo_write (world_with [InsertFails ''locked''] [] [])))"
  by (rule split_result) (simp add: demo_write_def demo_eval)

lemma demo_raises: "demo_run demo_get (world_with [] [] [])
    = (Inl (ValueError ''u''), snd (demo_run demo_get (world_with [] [] [])))"
  by (rule split_result) (simp add: demo_get_def demo_eval)

lemma demo_target: "resolve (getcwd E0) (env_target env_w) = [''ws'', ''a.txt'']"
  by (simp add: fixture_defs path_eval)

lemma demo_calls [simp]:
  "call_envelope demo_write = Some env_w" "call_intent demo_write = Some ''why''"
  "call_envelope demo_get = Some env_s" "call_intent demo_get = None"
  "env_action_id env_w = ''a1''" "env_action_id env_s = ''s1''"
  by (simp_all add: demo_write_def demo_get_def env_w_def env_s_def demo_envelope_def)

end
