(* ===== verification/ProxyProps.thy ===== *)
theory ProxyProps
  imports Fixtures
begin

text \<open>
  Properties of \<open>ToolProxy\<close> on the SQLite stores: what each result promises of the file
  system and of the log. The gates and whole histories are in \<open>ProxyHistory\<close>. They
  rest on the facts of the interpretations \<open>sq\<close> and \<open>sqd\<close>.
\<close>

abbreviation target_of :: "py_env \<Rightarrow> action_envelope \<Rightarrow> path" where
  "target_of E env \<equiv> resolve (getcwd E) (env_target env)"

abbreviation exec_w :: "(exec_db, 'd) world \<Rightarrow> execution_event list" where
  "exec_w w \<equiv> exec_log (w_store w)"

abbreviation disk_w :: "(exec_db, 'd) world \<Rightarrow> execution_event list" where
  "disk_w w \<equiv> exec_durable (w_store w)"

subsection \<open>The atomic write\<close>

lemma os_walk_set_file:
  "node_at fs p \<noteq> Some Dir \<Longrightarrow> os_walk fs cur cs = Inr q \<Longrightarrow> os_walk (set_node p (File d) fs) cur cs = Inr q"
proof (induction cs arbitrary: cur)
  case Nil
  then show ?case by simp
next
  case (Cons c cs)
  then have d: "node_at fs cur = Some Dir" by (auto split: option.splits node.splits)
  moreover have "cur \<noteq> p" using Cons.prems(1) d by auto
  ultimately have "node_at (set_node p (File d) fs) cur = Some Dir"
    using Cons.prems(1) by (simp add: node_at_set node_dir_ne)
  with Cons d show ?case by simp
qed

lemma write_bytes_walk:
  assumes "os_walk fs [] p = Inr q"
  shows "os_walk (snd (write_bytes p d fs)) [] p = Inr q"
  using assms os_walk_set_file [of "snd (next_io fs)" q "[]" p q]
  by (auto simp: fs_ops split: io_fault.splits)

lemma write_bytes_walk_Inl:
  "os_walk fs [] p = Inl x \<Longrightarrow> node_at (snd (write_bytes p d fs)) = node_at fs"
  by (rule ext) (auto simp: fs_ops)

lemma atomic_write_ok:
  assumes call: "atomic_write tmp target content fs = (Inr u, fs')"
    and plain: "\<forall>c \<in> set target. c \<noteq> ''..''"
  shows "\<exists>q. os_walk fs [] tmp = Inr q \<and>
     (\<forall>x. node_at fs' x = (if x = target then Some (File content) else if x = q then None else node_at fs x))"
proof -
  obtain fs1 where w: "write_bytes tmp content fs = (Inr (), fs1)"
    using call by (auto simp: atomic_write_def split: prod.splits sum.splits)
  obtain fs2 where f: "fsync tmp fs1 = (Inr (), fs2)" "replace tmp target fs2 = (Inr (), fs')"
    using call w by (auto simp: atomic_write_def split: prod.splits sum.splits)
  obtain q where q: "os_walk fs [] tmp = Inr q" using write_bytes_walks [OF w] by blast
  have n2: "node_at fs2 = node_at fs1" using fsync_frame [of tmp fs1] f(1) by simp
  have q2: "os_walk fs2 [] tmp = Inr q"
    using write_bytes_walk [OF q, of content] w os_walk_cong [OF n2] by simp
  obtain q' where "os_walk fs2 [] target = Inr q'" using replace_walks [OF f(2)] by blast
  then have t2: "os_walk fs2 [] target = Inr target" using os_walk_plain [OF plain] by fastforce
  have "node_at fs2 q = Some (File content)" using write_bytes_ok [OF w q] n2 by simp
  from replace_ok [OF f(2) q2 this t2]
  have "node_at fs' x = (if x = target then Some (File content) else if x = q then None else node_at fs2 x)"
    for x .
  moreover have "node_at fs2 x = node_at fs x" if "x \<noteq> q" for x
    using write_bytes_frame [of fs tmp x content] q that w n2 by simp
  ultimately show ?thesis using q by auto
qed

lemma atomic_write_error:
  assumes call: "atomic_write tmp target content fs = (Inl e, fs')"
  shows "os_walk fs' [] tmp = os_walk fs [] tmp \<or> node_at fs' = node_at fs"
    and "os_walk fs [] tmp \<noteq> Inr x \<Longrightarrow> node_at fs' x = node_at fs x"
proof -
  define fs1 where "fs1 = snd (write_bytes tmp content fs)"
  have n1: "node_at fs' = node_at fs1"
  proof -
    obtain r1 where w: "write_bytes tmp content fs = (r1, fs1)" by (simp add: fs1_def prod_eq_iff)
    obtain r2 fs2 where f: "fsync tmp fs1 = (r2, fs2)" by fastforce
    have "node_at fs2 = node_at fs1" using fsync_frame [of tmp fs1] f by simp
    with call w f replace_error show ?thesis
      by (auto simp: atomic_write_def split: sum.splits)
  qed
  show "os_walk fs' [] tmp = os_walk fs [] tmp \<or> node_at fs' = node_at fs"
    using n1 os_walk_cong [OF n1] write_bytes_walk [of fs tmp _ content]
      write_bytes_walk_Inl [of fs tmp _ content]
    by (cases "os_walk fs [] tmp") (auto simp: fs1_def)
  show "node_at fs' x = node_at fs x" if "os_walk fs [] tmp \<noteq> Inr x"
    using n1 write_bytes_frame [OF that, of content] by (simp add: fs1_def)
qed

lemma write_attempt_fails:
  assumes "write_attempt E env target content intent refs fs = (Fails kw, fs')"
    and "os_walk fs [] (tmp_path target (env_action_id env)) \<noteq> Inr x"
  shows "node_at fs' x = node_at fs x"
proof -
  let ?tmp = "tmp_path target (env_action_id env)"
  obtain e fs1 where a: "atomic_write ?tmp target content fs = (Inl e, fs1)" "fs' = cleanup ?tmp fs1"
    using assms(1) by (auto simp: write_attempt_def split: prod.splits sum.splits)
  have n: "node_at fs1 x = node_at fs x" using atomic_write_error(2) [OF a(1) assms(2)] .
  have "os_walk fs1 [] ?tmp = os_walk fs [] ?tmp"
    using atomic_write_error(1) [OF a(1)] os_walk_cong by metis
  with assms(2) have "node_at (cleanup ?tmp fs1) x = node_at fs1 x" by (intro cleanup_frame) simp
  with n a(2) show ?thesis by simp
qed

text \<open>An action id without a slash keeps the temporary file beside the target.\<close>

lemma tmp_path_plain:
  assumes "CHR ''/'' \<notin> set rid" "\<forall>c \<in> set target. good_part c"
  shows "tmp_path target rid = parent target @ [path_name target @ ''.tmp.'' @ rid]"
proof -
  have "CHR ''/'' \<notin> set (path_name target)"
    using assms(2) by (cases target rule: rev_cases) (auto simp: path_name_def good_part_def)
  then have "CHR ''/'' \<notin> set (path_name target @ ''.tmp.'' @ rid)" using assms(1) by simp
  then have "split_on (CHR ''/'') (path_name target @ ''.tmp.'' @ rid) = [path_name target @ ''.tmp.'' @ rid]"
    by (rule split_on_no_sep)
  moreover have "path_name target @ ''.tmp.'' @ rid \<noteq> ''.''" by (cases "path_name target") auto
  ultimately show ?thesis by (simp add: tmp_path_def path_parts_def)
qed

lemma resolve_all_good: "\<forall>c \<in> set d. good_part c \<Longrightarrow> \<forall>c \<in> set (resolve d s). good_part c"
  by (blast intro: resolve_good)

lemma good_not_up: "\<forall>c \<in> set p. good_part c \<Longrightarrow> \<forall>c \<in> set p. c \<noteq> ''..''"
  by (simp add: good_part_def)

lemma tmp_path_walk:
  assumes "CHR ''/'' \<notin> set rid" "\<forall>c \<in> set target. good_part c"
    and "os_walk fs [] (tmp_path target rid) = Inr q"
  shows "q = tmp_path target rid" "q \<noteq> target"
proof -
  let ?n = "path_name target @ ''.tmp.'' @ rid"
  have "?n \<noteq> ''..''" by (cases "path_name target") (auto split: if_splits)
  moreover have "\<forall>c \<in> set (parent target). c \<noteq> ''..''"
    using assms(2) by (auto simp: parent_def good_part_def dest: in_set_butlastD)
  ultimately have "\<forall>c \<in> set (tmp_path target rid). c \<noteq> ''..''"
    using tmp_path_plain [OF assms(1,2)] by auto
  from os_walk_plain [OF this assms(3)] show q: "q = tmp_path target rid" by simp
  show "q \<noteq> target"
  proof (cases target rule: rev_cases)
    case Nil
    then show ?thesis using q tmp_path_plain [OF assms(1,2)] by simp
  next
    case (snoc d n)
    then show ?thesis using q tmp_path_plain [OF assms(1,2)] by (simp add: parent_def path_name_def)
  qed
qed

subsection \<open>Results and the log\<close>

text \<open>An event of a call: of the given type, for the envelope's record.\<close>

definition call_event ::
  "py_env \<Rightarrow> action_envelope \<Rightarrow> string option \<Rightarrow> event_type \<Rightarrow> side_effect \<Rightarrow> execution_event \<Rightarrow> bool" where
  "call_event E env intent ty se e \<longleftrightarrow>
     ev_event_type e = ty \<and> ev_record_id e = env_action_id env \<and> ev_envelope e = Some env
     \<and> ev_intent e = intent \<and> ev_side_effect e = Some se \<and> event_sealed (sha256 E) e"

lemma recorded_call_event:
  "recorded E env ty (effect_kwargs se rd ed intent refs) L e \<Longrightarrow> call_event E env intent ty se e"
  using recorded_fields [of E env ty _ L e] by (simp add: call_event_def)

text \<open>A conclusion as the attempts of the tools make it.\<close>

definition attempt_form :: "string option \<Rightarrow> prepared \<Rightarrow> attempt \<Rightarrow> bool" where
  "attempt_form intent refs att \<longleftrightarrow>
     (case att of
        Commits kw \<Rightarrow> \<exists>d. kw = effect_kwargs SE_Confirmed (Some d) None intent refs
      | Fails kw \<Rightarrow> \<exists>se rd d. se \<noteq> SE_Confirmed \<and> kw = effect_kwargs se rd (Some d) intent refs
      | Raises e \<Rightarrow> True)"

lemma attempt_form_simps [simp]:
  "attempt_form intent refs (Commits (effect_kwargs SE_Confirmed (Some d) None intent refs))"
  "se \<noteq> SE_Confirmed \<Longrightarrow> attempt_form intent refs (Fails (effect_kwargs se rd (Some d) intent refs))"
  "attempt_form intent refs (Raises e)"
  by (auto simp: attempt_form_def)

lemma attempt_forms:
  "attempt_form intent refs (fst (write_attempt E env target content intent refs fs))"
  "attempt_form intent refs (shell_attempt E outcome intent refs)"
  "attempt_form intent refs (fst (mkdir_attempt E target intent refs fs))"
  "attempt_form intent refs (http_attempt E hout intent refs)"
  by (simp_all add: write_attempt_def shell_attempt_def mkdir_attempt_def http_attempt_def Let_def
      split: prod.split sum.split shell_outcome.split http_outcome.split)

lemma attempts_form:
  assumes "(att, fs') \<in> attempts E px run urlopen c env refs fs"
  shows "attempt_form (call_intent c) refs att"
proof (cases c)
  case (WriteFile oenv content intent ctx)
  with assms have "write_attempt E env (target_of E env) content intent refs fs = (att, fs')"
    by (auto simp: Let_def split: if_splits)
  with attempt_forms(1) WriteFile show ?thesis by (metis call_intent.simps(1) fst_conv)
next
  case (ExecuteShell oenv command timeout intent ctx)
  with assms show ?thesis by (auto intro: attempt_forms(2) split: prod.splits)
next
  case (MakeDirectory oenv intent ctx)
  with assms have "mkdir_attempt E (target_of E env) intent refs fs = (att, fs')"
    by (auto simp: Let_def split: if_splits)
  with attempt_forms(3) MakeDirectory show ?thesis by (metis call_intent.simps(3) fst_conv)
next
  case (HttpGet oenv url timeout intent ctx)
  with assms show ?thesis by (auto intro: attempt_forms(4))
qed

lemma attempts_raise:
  assumes "(Raises e, fs') \<in> attempts E px run urlopen c env refs fs"
  shows "\<exists>oenv url timeout intent ctx. c = HttpGet oenv url timeout intent ctx" "fs' = fs"
  using assms
  by (cases c; simp add: write_attempt_def shell_attempt_def mkdir_attempt_def Let_def
      split: prod.splits sum.splits shell_outcome.splits if_splits)+

lemma call_phases:
  fixes w :: "(exec_db, 'd) world"
  assumes "tp_store px = sqlite_execution_store" "exec_inv (w_store w)"
    and "run_call E px run urlopen c w = (r, w')"
  shows "turned_away r w w' \<or> (\<exists>env. call_envelope c = Some env
           \<and> sq.two_phase E env (call_intent c) (attempts E px run urlopen c env) r w w')"
  using sq.run_call_two_phase [OF assms] by blast

lemma run_call_exec_inv:
  fixes w :: "(exec_db, 'd) world"
  assumes "tp_store px = sqlite_execution_store" "exec_inv (w_store w)"
    and "run_call E px run urlopen c w = (r, w')"
  shows "exec_inv (w_store w')"
  using sq.run_call_two_phase [OF assms] by blast

lemma prepared_None:
  assumes "sq.prepared_as E env intent (Inr None) s s'"
  shows "exec_durable s' = exec_durable s \<and>
     (exec_log s' = exec_log s \<or>
      (\<exists>p. exec_log s' = exec_log s @ [p] \<and> call_event E env intent Intent_Pending SE_None p))"
  using assms recorded_call_event
  by (fastforce simp: sq.prepared_as_def sq.maybe_recorded_def)

lemma prepared_Some:
  assumes "sq.prepared_as E env intent (Inr (Some refs)) s s'"
  obtains p where "exec_log s' = exec_log s @ [p]" "exec_durable s' = exec_log s @ [p]"
    "call_event E env intent Intent_Pending SE_None p" "ev_decision_ref p = fst refs"
    "ev_context_ref p = snd refs"
proof -
  from sq.prepared_durable [OF assms] obtain p
    where p: "recorded E env Intent_Pending (effect_kwargs SE_None None None intent refs) (exec_log s) p"
      "exec_log s' = exec_log s @ [p]" "exec_durable s' = exec_log s @ [p]" .
  from that [OF p(2,3) recorded_call_event [OF p(1)]] recorded_fields(10,11) [OF p(1)]
  show ?thesis by simp
qed

text \<open>A call that got past the first phase.\<close>

lemma phases_cases:
  assumes "sq.two_phase E env intent atts r w w'"
  obtains
    (away) "w_fs w' = w_fs w" "\<exists>x. r = Inl x" "w_store w' = w_store w"
  | (rejected) "w_fs w' = w_fs w" "r = Inr REJECTED" "disk_w w' = disk_w w"
      "exec_w w' = exec_w w \<or>
       (\<exists>p. exec_w w' = exec_w w @ [p] \<and> call_event E env intent Intent_Pending SE_None p)"
  | (attempted) refs att s p where "(att, w_fs w') \<in> atts refs (w_fs w)"
      "exec_log s = exec_w w @ [p]" "exec_durable s = exec_w w @ [p]"
      "call_event E env intent Intent_Pending SE_None p" "ev_decision_ref p = fst refs"
      "ev_context_ref p = snd refs" "sq.concluded_as E env att r s (w_store w')"
proof -
  from assms consider
      "w_fs w' = w_fs w" "\<exists>x. r = Inl x" "w_store w' = w_store w"
    | "w_fs w' = w_fs w" "r = Inr REJECTED" "sq.prepared_as E env intent (Inr None) (w_store w) (w_store w')"
    | refs att s where "(att, w_fs w') \<in> atts refs (w_fs w)"
        "sq.prepared_as E env intent (Inr (Some refs)) (w_store w) s"
        "sq.concluded_as E env att r s (w_store w')"
    unfolding sq.two_phase_def by blast
  then show ?thesis
  proof cases
    case 1
    then show ?thesis by (rule that(1))
  next
    case 2
    with prepared_None that(2) show ?thesis by blast
  next
    case 3
    from prepared_Some [OF 3(2)] obtain p where "exec_log s = exec_w w @ [p]"
      "exec_durable s = exec_w w @ [p]" "call_event E env intent Intent_Pending SE_None p"
      "ev_decision_ref p = fst refs" "ev_context_ref p = snd refs" .
    with 3 that(3) show ?thesis by blast
  qed
qed

text \<open>How the second phase ends, on a log whose events are all on disk.\<close>

lemma concluded_results:
  assumes c: "sq.concluded_as E env att r s s'" and f: "attempt_form intent refs att"
    and d: "exec_durable s = exec_log s"
  obtains
    (success) e where "r = Inr SUCCESS" "exec_log s' = exec_log s @ [e]" "exec_durable s' = exec_log s'"
      "call_event E env intent Execution_Committed SE_Confirmed e"
      "ev_decision_ref e = fst refs" "ev_context_ref e = snd refs"
      "\<exists>kw. att = Commits kw \<and> ev_result_digest e = kw_result_digest kw"
  | (unconfirmed) "r = Inr UNCONFIRMED" "exec_durable s' = exec_log s" "\<exists>kw. att = Commits kw"
      "exec_log s' = exec_log s \<or>
       (\<exists>e. exec_log s' = exec_log s @ [e] \<and> call_event E env intent Execution_Committed SE_Confirmed e)"
  | (failure) "r = Inr FAILURE" "\<exists>kw. att = Fails kw"
      "exec_log s' = exec_log s \<or>
       (\<exists>e se. exec_log s' = exec_log s @ [e] \<and> se \<noteq> SE_Confirmed
          \<and> call_event E env intent Execution_Failed se e)"
      "exec_durable s' = exec_log s \<or> exec_durable s' = exec_log s'"
  | (raised) x where "att = Raises x" "r = Inl x" "s' = s"
proof (cases att)
  case (Commits kw)
  then obtain dg where kw: "kw = effect_kwargs SE_Confirmed (Some dg) None intent refs"
    using f by (auto simp: attempt_form_def)
  consider (A) "r = Inr SUCCESS" "sq.now_durable E env Execution_Committed kw s s'"
    | (B) "r = Inr UNCONFIRMED" "sq.maybe_recorded E env Execution_Committed kw s s'"
        "exec_durable s' = exec_durable s"
    using c Commits by (auto simp: sq.concluded_as_def)
  then show ?thesis
  proof cases
    case A
    then obtain e where e: "recorded E env Execution_Committed kw (exec_log s) e"
        "exec_log s' = exec_log s @ [e]" "exec_durable s' = exec_log s'"
      by (auto simp: sq.now_durable_def)
    show ?thesis
      by (rule success [OF A(1) e(2,3)])
        (use e(1) recorded_fields [OF e(1)] Commits in \<open>auto simp: kw intro: recorded_call_event\<close>)
  next
    case B
    show ?thesis
      by (rule unconfirmed) (use B d Commits in \<open>auto simp: sq.maybe_recorded_def kw intro: recorded_call_event\<close>)
  qed
next
  case (Fails kw)
  then obtain se rd dg where kw: "kw = effect_kwargs se rd (Some dg) intent refs" "se \<noteq> SE_Confirmed"
    using f by (auto simp: attempt_form_def)
  have "r = Inr FAILURE"
      "sq.maybe_recorded E env Execution_Failed kw s s'"
      "exec_durable s' = exec_log s \<or> exec_durable s' = exec_log s'"
    using c Fails d sq.now_durable_maybe by (auto simp: sq.concluded_as_def sq.now_durable_def)
  with failure Fails kw recorded_call_event show ?thesis by (metis sq.maybe_recorded_def)
next
  case (Raises x)
  with c raised show ?thesis by (auto simp: sq.concluded_as_def)
qed

text \<open>C17: \<open>SUCCESS\<close> means that exactly two events were added, the intent and its commit with
  \<open>side_effect_observed = confirmed\<close>, both durable, sealed and referring to the same decision
  and context.\<close>

theorem call_success:
  fixes w :: "(exec_db, 'd) world"
  assumes "tp_store px = sqlite_execution_store" "exec_inv (w_store w)"
    and "run_call E px run urlopen c w = (Inr SUCCESS, w')"
  shows "\<exists>env p e. call_envelope c = Some env \<and> exec_w w' = exec_w w @ [p, e] \<and> disk_w w' = exec_w w'
    \<and> call_event E env (call_intent c) Intent_Pending SE_None p
    \<and> call_event E env (call_intent c) Execution_Committed SE_Confirmed e
    \<and> ev_decision_ref e = ev_decision_ref p \<and> ev_context_ref e = ev_context_ref p"
proof -
  from call_phases [OF assms] obtain env where env: "call_envelope c = Some env"
      and ph: "sq.two_phase E env (call_intent c) (attempts E px run urlopen c env) (Inr SUCCESS) w w'"
    by (auto simp: turned_away_def)
  from ph show ?thesis
  proof (cases rule: phases_cases)
    case (attempted refs att s p)
    have d: "exec_durable s = exec_log s" using attempted by simp
    from attempted(7) attempts_form [OF attempted(1)] d show ?thesis
      by (cases rule: concluded_results) (use attempted env in auto)
  qed simp_all
qed

theorem call_success_witness:
  "length (exec_w (snd (demo_run demo_write (world_with [] [] [])))) = 2"
  using call_success [OF px0_simps(1) world_with_inv demo_success] by auto





text \<open>C19: \<open>FAILURE\<close> means that the intent is durable and at most one failure event, never a
  confirming one, follows it.\<close>

theorem call_failure:
  fixes w :: "(exec_db, 'd) world"
  assumes "tp_store px = sqlite_execution_store" "exec_inv (w_store w)"
    and "run_call E px run urlopen c w = (Inr FAILURE, w')"
  shows "\<exists>env p fs. call_envelope c = Some env \<and> exec_w w' = exec_w w @ p # fs
    \<and> prefix (exec_w w @ [p]) (disk_w w')
    \<and> call_event E env (call_intent c) Intent_Pending SE_None p
    \<and> (fs = [] \<or> (\<exists>e se. fs = [e] \<and> se \<noteq> SE_Confirmed
         \<and> call_event E env (call_intent c) Execution_Failed se e))"
proof -
  from call_phases [OF assms] obtain env where env: "call_envelope c = Some env"
      and ph: "sq.two_phase E env (call_intent c) (attempts E px run urlopen c env) (Inr FAILURE) w w'"
    by (auto simp: turned_away_def)
  from ph show ?thesis
  proof (cases rule: phases_cases)
    case (attempted refs att s p)
    have d: "exec_durable s = exec_log s" using attempted by simp
    from attempted(7) attempts_form [OF attempted(1)] d show ?thesis
    proof (cases rule: concluded_results)
      case failure
      with attempted env show ?thesis by fastforce
    qed auto
  qed simp_all
qed

theorem call_failure_witness:
  "\<exists>p fs. exec_w (snd (demo_run demo_write (world_with [] [] [IoPartial 1 ''full'']))) = p # fs
     \<and> ev_record_id p = ''a1''"
  using call_failure [OF px0_simps(1) world_with_inv demo_failure] by (auto simp: call_event_def)



subsection \<open>Results and the file system\<close>

lemma write_attempted:
  assumes "(att, fs') \<in> attempts E px run urlopen (WriteFile oenv content intent ctx) env refs fs"
  shows "is_relative_to (target_of E env) (tp_workspace px)"
    and "write_attempt E env (target_of E env) content intent refs fs = (att, fs')"
  using assms by (auto simp: Let_def split: if_splits)

lemma write_attempt_commits:
  assumes "write_attempt E env target content intent refs fs = (Commits kw, fs')"
  shows "atomic_write (tmp_path target (env_action_id env)) target content fs = (Inr (), fs')"
    and "kw_result_digest kw = Some (digest E content)"
  using assms by (auto simp: write_attempt_def split: prod.splits sum.splits)

lemma atomic_write_unreadable:
  "fs_unreadable (snd (atomic_write tmp target content fs)) = fs_unreadable fs"
proof -
  obtain r1 fs1 where w: "write_bytes tmp content fs = (r1, fs1)" by fastforce
  obtain r2 fs2 where f: "fsync tmp fs1 = (r2, fs2)" by fastforce
  have "fs_unreadable fs1 = fs_unreadable fs" "fs_unreadable fs2 = fs_unreadable fs1"
    using unreadable_frame(1) [of tmp content fs] unreadable_frame(2) [of tmp fs1] w f by simp_all
  then show ?thesis by (simp add: atomic_write_def w f split: sum.splits)
qed

text \<open>A \<open>write_file\<close> whose effect was observed.\<close>

lemma write_observed:
  fixes w :: "(exec_db, 'd) world"
  assumes "tp_store px = sqlite_execution_store" "exec_inv (w_store w)"
    and "\<forall>c \<in> set (getcwd E). good_part c"
    and "write_file E px (Some env) content intent ctx w = (Inr r, w')" "r = SUCCESS \<or> r = UNCONFIRMED"
  obtains tmp p where "is_relative_to (target_of E env) (tp_workspace px)"
    "os_walk (w_fs w) [] (tmp_path (target_of E env) (env_action_id env)) = Inr tmp"
    "\<forall>q. node_at (w_fs w') q = (if q = target_of E env then Some (File content)
                else if q = tmp then None else node_at (w_fs w) q)"
    "fs_unreadable (w_fs w') = fs_unreadable (w_fs w)"
    "call_event E env intent Intent_Pending SE_None p"
    "r = UNCONFIRMED \<Longrightarrow> disk_w w' = exec_w w @ [p]"
    "r = SUCCESS \<Longrightarrow> \<exists>e. exec_w w' = exec_w w @ [p, e] \<and> disk_w w' = exec_w w'
       \<and> call_event E env intent Execution_Committed SE_Confirmed e
       \<and> ev_result_digest e = Some (digest E content)"
proof -
  let ?c = "WriteFile (Some env) content intent ctx"
  let ?sh = "\<lambda>_ _ _ fs. (TimeoutExpired, fs)" and ?get = "\<lambda>_ _ _. HttpTimeout []"
  have run: "run_call E px ?sh ?get ?c w = (Inr r, w')" using assms(4) by simp
  from call_phases [OF assms(1,2) run] assms(5) have
    ph: "sq.two_phase E env intent (attempts E px ?sh ?get ?c env) (Inr r) w w'"
    by (auto simp: turned_away_def)
  from ph show ?thesis
  proof (cases rule: phases_cases)
    case (attempted refs att s p)
    note wa = write_attempted [OF attempted(1)]
    have d: "exec_durable s = exec_log s" using attempted by simp
    have f: "attempt_form intent refs att" using attempts_form [OF attempted(1)] by simp
    have ends: "(\<exists>kw. att = Commits kw) \<and> (r = UNCONFIRMED \<longrightarrow> disk_w w' = exec_w w @ [p])
        \<and> (r = SUCCESS \<longrightarrow> (\<exists>e kw. att = Commits kw \<and> exec_w w' = exec_w w @ [p, e] \<and> disk_w w' = exec_w w'
             \<and> call_event E env intent Execution_Committed SE_Confirmed e
             \<and> ev_result_digest e = kw_result_digest kw))"
      using attempted(7) f d by (cases rule: concluded_results) (use attempted assms(5) in auto)
    then obtain kw where kw: "att = Commits kw" by blast
    note cm = write_attempt_commits [OF wa(2) [unfolded kw]]
    from atomic_write_ok [OF cm(1) good_not_up [OF resolve_all_good [OF assms(3)]]] obtain tmp where
      "os_walk (w_fs w) [] (tmp_path (target_of E env) (env_action_id env)) = Inr tmp"
      "\<forall>q. node_at (w_fs w') q = (if q = target_of E env then Some (File content)
                else if q = tmp then None else node_at (w_fs w) q)" by blast
    moreover have "fs_unreadable (w_fs w') = fs_unreadable (w_fs w)"
      using atomic_write_unreadable cm(1) by (metis snd_conv)
    ultimately show ?thesis
      using that wa(1) attempted(4) ends kw cm(2) by auto
  qed (use assms(5) in auto)
qed

text \<open>C3: after \<open>SUCCESS\<close> of \<open>write_file\<close> the target, inside the workspace, has exactly the
  content, every other path but the temporary one is as before, the temporary file is gone, and
  the commit on top of the log has the digest of the content.\<close>

theorem write_file_success:
  fixes w :: "(exec_db, 'd) world"
  assumes "tp_store px = sqlite_execution_store" "exec_inv (w_store w)"
    and "\<forall>c \<in> set (getcwd E). good_part c"
    and "write_file E px (Some env) content intent ctx w = (Inr SUCCESS, w')"
  shows "is_relative_to (target_of E env) (tp_workspace px)
    \<and> (\<exists>tmp. os_walk (w_fs w) [] (tmp_path (target_of E env) (env_action_id env)) = Inr tmp
         \<and> (\<forall>q. node_at (w_fs w') q =
               (if q = target_of E env then Some (File content)
                else if q = tmp then None else node_at (w_fs w) q)))
    \<and> ev_result_digest (last (exec_w w')) = Some (digest E content)"
  by (rule write_observed [OF assms]) auto

theorem write_file_success_witness:
  "node_at (w_fs (snd (demo_run demo_write (world_with [] [] [])))) [''ws'', ''a.txt''] = Some (File ''hi'')"
  using write_file_success [OF px0_simps(1) world_with_inv good_cwd
      demo_success [unfolded demo_write_def run_call.simps]]
  by (auto simp: demo_target demo_write_def)

text \<open>C4: \<open>write_file\<close> is atomic: after \<open>FAILURE\<close> every path but the temporary one, the
  target included, is as it was (for an action id without a slash).\<close>

theorem write_file_failure_atomic:
  fixes w :: "(exec_db, 'd) world"
  assumes "tp_store px = sqlite_execution_store" "exec_inv (w_store w)"
    and "\<forall>c \<in> set (getcwd E). good_part c" "CHR ''/'' \<notin> set (env_action_id env)"
    and "write_file E px (Some env) content intent ctx w = (Inr FAILURE, w')"
    and "q \<noteq> tmp_path (target_of E env) (env_action_id env)"
  shows "node_at (w_fs w') q = node_at (w_fs w) q
    \<and> target_of E env \<noteq> tmp_path (target_of E env) (env_action_id env)"
proof -
  let ?c = "WriteFile (Some env) content intent ctx" and ?t = "target_of E env"
  let ?tmp = "tmp_path ?t (env_action_id env)"
  have good: "\<forall>c \<in> set ?t. good_part c" using resolve_all_good [OF assms(3)] .
  have ne: "?t \<noteq> ?tmp"
    using tmp_path_plain [OF assms(4) good]
    by (cases ?t rule: rev_cases) (auto simp: parent_def path_name_def)
  have run: "run_call E px (\<lambda>_ _ _ fs. (TimeoutExpired, fs)) (\<lambda>_ _ _. HttpTimeout []) ?c w = (Inr FAILURE, w')"
    using assms(5) by simp
  from call_phases [OF assms(1,2) run] have
    ph: "sq.two_phase E env intent (attempts E px (\<lambda>_ _ _ fs. (TimeoutExpired, fs)) (\<lambda>_ _ _. HttpTimeout []) ?c env)
      (Inr FAILURE) w w'"
    by (auto simp: turned_away_def)
  from ph show ?thesis
  proof (cases rule: phases_cases)
    case (attempted refs att s p)
    note wa = write_attempted [OF attempted(1)]
    have d: "exec_durable s = exec_log s" using attempted by simp
    have f: "attempt_form intent refs att" using attempts_form [OF attempted(1)] by simp
    from attempted(7) f d show ?thesis
    proof (cases rule: concluded_results)
      case failure
      then obtain kw where kw: "att = Fails kw" by blast
      have "os_walk (w_fs w) [] ?tmp \<noteq> Inr q" using tmp_path_walk(1) [OF assms(4) good] assms(6) by auto
      from write_attempt_fails [OF wa(2) [unfolded kw] this] ne show ?thesis by simp
    qed simp_all
  qed simp_all
qed

theorem write_file_failure_atomic_witness:
  "node_at (w_fs (snd (demo_run demo_write (world_with [] [] [IoPartial 1 ''full'']))))
     [''ws'', ''a.txt''] = Some (File ''old'')"
proof -
  have "node_at (w_fs (world_with [] [] [IoPartial 1 ''full''])) [''ws'', ''a.txt''] = Some (File ''old'')"
    by (simp add: world_with_def fs_ws_def node_at_def)
  moreover have "[''ws'', ''a.txt''] \<noteq> tmp_path (target_of E0 env_w) (env_action_id env_w)"
    unfolding demo_target by (simp add: path_eval)
  ultimately show ?thesis
    using write_file_failure_atomic [OF px0_simps(1) world_with_inv good_cwd _
        demo_failure [unfolded demo_write_def run_call.simps]]
    by (simp add: demo_write_def)
qed



end
