(* ===== verification/ProxyHistory.thy ===== *)
theory ProxyHistory
  imports ProxyProps
begin

text \<open>
  The gates in front of the tools, and whole histories of a proxy: calls, crashes of the process
  at any point of a call (the connection's open transaction is lost), and time passing. The
  reachable worlds keep both hash chains verifiable and never show an effect whose intent is not
  on disk.
\<close>

subsection \<open>The gates\<close>

lemmas case_congs = option.case_cong sum.case_cong prod.case_cong shell_outcome.case_cong
  http_outcome.case_cong

text \<open>A call without an envelope raises and does nothing.\<close>

theorem envelope_required_first:
  "call_envelope c = None \<Longrightarrow> run_call E px run urlopen c w = (Inl (envelope_required E), w)"
  by (cases c) (simp_all add: write_file_def execute_shell_def make_directory_def http_get_def)

theorem envelope_required_first_witness:
  "demo_run (MakeDirectory None None None) (world_with [] [] [])
     = (Inl (envelope_required E0), world_with [] [] [])"
  by (rule envelope_required_first) simp

lemma gated_away: "turned_away (fst (gated px env body w)) w (snd (gated px env body w))"
  if "\<forall>u. evaluate_policy px env \<noteq> Inr None \<or> evaluate_runtime_boundary px env \<noteq> Inr None"
  using that by (auto simp: gated_def turned_away_def evaluate_policy_def evaluate_runtime_boundary_def
      split: sum.splits option.splits if_splits)

lemma run_call_gated:
  assumes "call_envelope c = Some env"
    and "evaluate_policy px env \<noteq> Inr None \<or> evaluate_runtime_boundary px env \<noteq> Inr None"
  shows "turned_away (fst (run_call E px run urlopen c w)) w (snd (run_call E px run urlopen c w))"
  using assms gated_away [of px env]
  by (cases c) (auto simp: write_file_def execute_shell_def make_directory_def http_get_def Let_def
      turned_away_def)

lemma gate_evaluate_deny:
  assumes "\<forall>q \<in> set rs. \<exists>d. rule_evaluate q env = Inr d" "rule_evaluate r env = Inr DENY"
  shows "\<exists>res. gate_evaluate (rs @ r # rs') env = Inr res \<and> pr_decision res = DENY"
  using assms(1) by (induction rs) (auto simp: assms(2) split: sum.splits)

lemma gate_evaluate_allow:
  "\<forall>q \<in> set rs. \<exists>d. rule_evaluate q env = Inr d \<and> d \<noteq> DENY \<Longrightarrow>
     gate_evaluate rs env = Inr \<lparr>pr_decision = ALLOW, pr_reason = ''all rules passed'', pr_rule_name = None\<rparr>"
  by (induction rs) auto

text \<open>A rule that denies turns the call away with nothing done, whatever rules follow it and
  whatever the rules before it allowed.\<close>

theorem policy_denial:
  assumes "call_envelope c = Some env" "tp_policy_gate px = Some (rs @ r # rs')"
    and "\<forall>q \<in> set rs. \<exists>d. rule_evaluate q env = Inr d" "rule_evaluate r env = Inr DENY"
  shows "snd (run_call E px run urlopen c w) = w
    \<and> (fst (run_call E px run urlopen c w) = Inr REJECTED
       \<or> fst (run_call E px run urlopen c w) = Inl (boundary_error E (target_of E env)))"
proof -
  have "evaluate_policy px env = Inr (Some REJECTED)"
    using gate_evaluate_deny [OF assms(3,4), of rs'] assms(2) by (auto simp: evaluate_policy_def)
  with assms(1) show ?thesis
    by (cases c) (auto simp: write_file_def execute_shell_def make_directory_def http_get_def Let_def gated_def)
qed

theorem policy_denial_witness:
  "snd (run_call E0 (px0\<lparr>tp_policy_gate := Some [deny_shell_execution]\<rparr>) run0 get0
     (ExecuteShell (Some env_s) [''ls''] None None None) (world_with [] [] [])) = world_with [] [] []"
proof -
  have "rule_evaluate deny_shell_execution env_s = Inr DENY"
    by (simp add: deny_shell_execution_def env_s_def demo_envelope_def)
  then show ?thesis
    using policy_denial [of "ExecuteShell (Some env_s) [''ls''] None None None" env_s
        "px0\<lparr>tp_policy_gate := Some [deny_shell_execution]\<rparr>" "[]" deny_shell_execution "[]"]
    by simp
qed

text \<open>C38: the default runtime boundary turns away every call whose envelope names a tool that is
  denied or not allowed.\<close>

theorem runtime_boundary_denial:
  assumes "call_envelope c = Some env"
    and "tp_runtime_boundary px = Some (default_runtime_boundary b)"
    and "env_tool env \<in> b_denied b \<or> env_tool env \<notin> b_allowed b"
  shows "turned_away (fst (run_call E px run urlopen c w)) w (snd (run_call E px run urlopen c w))"
proof (rule run_call_gated [OF assms(1)])
  show "evaluate_policy px env \<noteq> Inr None \<or> evaluate_runtime_boundary px env \<noteq> Inr None"
    using assms(2,3) evaluate_tool_allowed [of b "env_tool env"]
    by (auto simp: evaluate_runtime_boundary_def default_runtime_boundary_def)
qed

theorem runtime_boundary_denial_witness:
  "snd (run_call E0 (px0\<lparr>tp_runtime_boundary := Some (default_runtime_boundary (boundary_init None None None))\<rparr>)
     run0 get0 (ExecuteShell (Some env_s) [''ls''] None None None) (world_with [] [] []))
     = world_with [] [] []"
proof -
  have "env_tool env_s \<in> b_denied (boundary_init None None None)"
    by (simp add: boundary_init_def set_or_def DEFAULT_DENIED_TOOLS_def env_s_def demo_envelope_def)
  then show ?thesis
    using runtime_boundary_denial [of "ExecuteShell (Some env_s) [''ls''] None None None" env_s
        "px0\<lparr>tp_runtime_boundary := Some (default_runtime_boundary (boundary_init None None None))\<rparr>"]
    by (simp add: turned_away_def)
qed

text \<open>Two proxies on the same back ends differ only in their gates.\<close>

definition same_backend :: "('s, 'd) tool_proxy \<Rightarrow> ('s, 'd) tool_proxy \<Rightarrow> bool" where
  "same_backend px qx \<longleftrightarrow> tp_workspace px = tp_workspace qx \<and> tp_store px = tp_store qx
     \<and> tp_decision_store px = tp_decision_store qx \<and> tp_context_resolver px = tp_context_resolver qx"

lemma same_backend_records:
  assumes "same_backend px qx"
  shows "record_event E px = record_event E qx" "effective_context px = effective_context qx"
    "record_decision E px = record_decision E qx"
  using assms by (simp_all add: same_backend_def record_event_def effective_context_def
      record_decision_def fun_eq_iff cong: case_congs)

lemma same_backend_phases:
  assumes "same_backend px qx"
  shows "fail_with E px = fail_with E qx" "commit_with E px = commit_with E qx"
    "prepare_execution E px = prepare_execution E qx"
  by (simp_all add: fail_with_def commit_with_def prepare_execution_def
      same_backend_records [OF assms] fun_eq_iff cong: case_congs)

lemma same_backend_performs:
  assumes "same_backend px qx"
  shows "with_intent E px = with_intent E qx" "perform_write E px = perform_write E qx"
    "perform_shell E px = perform_shell E qx" "perform_mkdir E px = perform_mkdir E qx"
    "perform_get E px = perform_get E qx"
  using assms unfolding same_backend_def
  by (simp_all add: with_intent_def perform_write_def perform_shell_def perform_mkdir_def
      perform_get_def same_backend_phases [OF assms] fun_eq_iff cong: case_congs)

lemma same_backend_call:
  assumes "same_backend px qx" "call_envelope c = Some env" "gated px env = gated qx env"
  shows "run_call E px run urlopen c w = run_call E qx run urlopen c w"
  using assms same_backend_performs [OF assms(1)] unfolding same_backend_def
  by (cases c) (simp_all add: write_file_def execute_shell_def make_directory_def http_get_def Let_def)



text \<open>The gates judge the tool that the envelope names, not the method that is called: a shell
  command under an envelope for \<open>filesystem.write\<close> passes \<open>DenyShellExecution\<close> and the default
  boundary, and runs as if there were no gates.\<close>

theorem gates_trust_envelope_tool:
  assumes "tp_policy_gate px = Some [deny_shell_execution]"
    and "tp_runtime_boundary px = Some (default_runtime_boundary (boundary_init None None None))"
    and "env_tool env = ''filesystem.write''"
  shows "execute_shell E px run (Some env) command timeout intent ctx w
    = execute_shell E (px\<lparr>tp_policy_gate := None, tp_runtime_boundary := None\<rparr>) run (Some env)
        command timeout intent ctx w"
proof -
  let ?qx = "px\<lparr>tp_policy_gate := None, tp_runtime_boundary := None\<rparr>"
  have "evaluate_policy px env = Inr None" "evaluate_runtime_boundary px env = Inr None"
    using assms by (simp_all add: evaluate_policy_def deny_shell_execution_def evaluate_runtime_boundary_def
        default_runtime_boundary_def evaluate_tool_def boundary_init_def set_or_def
        DEFAULT_DENIED_TOOLS_def DEFAULT_ALLOWED_TOOLS_def)
  then have "gated px env = gated ?qx env"
    by (simp add: gated_def evaluate_policy_def evaluate_runtime_boundary_def fun_eq_iff)
  from same_backend_call [OF _ _ this, of "ExecuteShell (Some env) command timeout intent ctx" E run "\<lambda>_ _ _. HttpTimeout []" w]
  show ?thesis by (simp add: same_backend_def)
qed

theorem gates_trust_envelope_tool_witness:
  "fst (execute_shell E0 (px0\<lparr>tp_policy_gate := Some [deny_shell_execution],
     tp_runtime_boundary := Some (default_runtime_boundary (boundary_init None None None))\<rparr>) run0
     (Some env_w) [''rm''] None None None (world_with [] [] [])) = Inr SUCCESS"
  by (subst gates_trust_envelope_tool)
    (simp_all add: env_w_def demo_envelope_def, simp add: demo_eval)

subsection \<open>Decisions\<close>

lemma record_decision_ok:
  assumes "tp_decision_store px = Some (sqlite_decision_store E)" "intent = Some it"
    and "record_decision E px rid intent ctx w = (Inr (Some refs), w')"
  shows "\<exists>d. d_durable (w_dec w') = d_visible (w_dec w) @ [row_of_decision d]
    \<and> d_action_id d = rid \<and> d_intent d = it \<and> d_context_snapshot d = ctx
    \<and> decision_sealed (sha256 E) d \<and> fst refs = Some (d_decision_id d)"
proof -
  obtain r1 d1 where l: "decision_last_hash (w_dec w) = (r1, d1)" by fastforce
  with assms obtain h where h: "r1 = Inr h"
    by (cases r1) (auto simp: record_decision_def sqlite_decision_store_def)
  let ?d = "make_decision E (w_tick w) rid it ctx h"
  obtain r2 d2 where rec: "decision_record E ?d d1 = (r2, d2)" by fastforce
  have r2: "r2 = Inr ()" "w_dec w' = d2" "fst refs = Some (d_decision_id ?d)"
    using assms l h rec
    by (auto simp: record_decision_def sqlite_decision_store_def Let_def split: sum.splits)
  have "d_durable d2 = d_visible d1 @ [row_of_decision ?d]"
    using decision_record_cases [OF rec] r2(1) by auto
  moreover have "d_visible d1 = d_visible (w_dec w)"
    using decision_last_hash_frame [OF l] by (simp add: d_visible_def)
  ultimately show ?thesis
    using r2 make_decision_sealed by (intro exI [of _ ?d]) simp
qed

fun call_context :: "tool_call \<Rightarrow> (string \<times> json) list option" where
  "call_context (WriteFile env content intent ctx) = ctx"
| "call_context (ExecuteShell env command timeout intent ctx) = ctx"
| "call_context (MakeDirectory env intent ctx) = ctx"
| "call_context (HttpGet env url timeout intent ctx) = ctx"

text \<open>The two phases of a call, by its definition.\<close>

definition after_prepare ::
  "py_env \<Rightarrow> ('s, 'd) tool_proxy \<Rightarrow> action_envelope \<Rightarrow> exn + prepared option \<Rightarrow> ('s, 'd) world
     \<Rightarrow> exn + proxy_result \<Rightarrow> ('s, 'd) world \<Rightarrow> bool" where
  "after_prepare E px env r1 w1 r w' \<longleftrightarrow>
     (case r1 of
        Inl x \<Rightarrow> r = Inl x \<and> w' = w1
      | Inr None \<Rightarrow> r = Inr REJECTED \<and> w' = w1
      | Inr (Some refs) \<Rightarrow> \<exists>att fs'. wf_attempt att \<and> conclude E px env att (w1\<lparr>w_fs := fs'\<rparr>) = (r, w'))"

lemma with_intent_prepared:
  assumes "with_intent E px env intent context body w = (r, w')"
    and "\<And>refs u. \<exists>att fs'. wf_attempt att \<and> body refs u = conclude E px env att (u\<lparr>w_fs := fs'\<rparr>)"
  shows "\<exists>r1 w1. prepare_execution E px env intent context w = (r1, w1) \<and> after_prepare E px env r1 w1 r w'"
proof -
  obtain r1 w1 where p: "prepare_execution E px env intent context w = (r1, w1)" by fastforce
  have "after_prepare E px env r1 w1 r w'"
    using assms p by (auto simp: with_intent_def after_prepare_def split: sum.splits option.splits) metis
  with p show ?thesis by blast
qed

lemma performs_conclude:
  "\<exists>att fs'. wf_attempt att \<and> perform_write E px env target content intent refs u
     = conclude E px env att (u\<lparr>w_fs := fs'\<rparr>)"
  "\<exists>att fs'. wf_attempt att \<and> perform_shell E px run env command timeout intent refs u
     = conclude E px env att (u\<lparr>w_fs := fs'\<rparr>)"
  "\<exists>att fs'. wf_attempt att \<and> perform_mkdir E px env target intent refs u
     = conclude E px env att (u\<lparr>w_fs := fs'\<rparr>)"
  "\<exists>att fs'. wf_attempt att \<and> perform_get E px urlopen env url timeout intent refs u
     = conclude E px env att (u\<lparr>w_fs := fs'\<rparr>)"
proof -
  show "\<exists>att fs'. wf_attempt att \<and> perform_write E px env target content intent refs u
      = conclude E px env att (u\<lparr>w_fs := fs'\<rparr>)"
    unfolding perform_write_attempt Let_def case_prod_unfold using wf_attempts(1) by blast
  show "\<exists>att fs'. wf_attempt att \<and> perform_shell E px run env command timeout intent refs u
      = conclude E px env att (u\<lparr>w_fs := fs'\<rparr>)"
    unfolding perform_shell_attempt Let_def case_prod_unfold using wf_attempts(2) by blast
  show "\<exists>att fs'. wf_attempt att \<and> perform_mkdir E px env target intent refs u
      = conclude E px env att (u\<lparr>w_fs := fs'\<rparr>)"
    unfolding perform_mkdir_attempt Let_def case_prod_unfold using wf_attempts(3) by blast
  have "u\<lparr>w_fs := w_fs u\<rparr> = u" by simp
  then show "\<exists>att fs'. wf_attempt att \<and> perform_get E px urlopen env url timeout intent refs u
      = conclude E px env att (u\<lparr>w_fs := fs'\<rparr>)"
    unfolding perform_get_attempt using wf_attempts(4) by metis
qed

lemma run_call_prepared:
  assumes "run_call E px run urlopen c w = (r, w')" "\<not> turned_away r w w'"
  shows "\<exists>env r1 w1. call_envelope c = Some env
    \<and> prepare_execution E px env (call_intent c) (call_context c) w = (r1, w1)
    \<and> after_prepare E px env r1 w1 r w'"
proof (cases "call_envelope c")
  case None
  with assms show ?thesis by (auto simp: envelope_required_first turned_away_def)
next
  case (Some env)
  note gc = gated_cases [of px env _ w r w']
  show ?thesis
  proof (cases c)
    case (WriteFile oenv content intent ctx)
    with assms Some gc have "with_intent E px env intent ctx
        (perform_write E px env (target_of E env) content intent) w = (r, w')"
      by (auto simp: write_file_def turned_away_def Let_def split: if_splits)
    from with_intent_prepared [OF this performs_conclude(1)] WriteFile Some show ?thesis by simp
  next
    case (ExecuteShell oenv command timeout intent ctx)
    with assms Some gc have "with_intent E px env intent ctx
        (perform_shell E px run env command timeout intent) w = (r, w')"
      by (auto simp: execute_shell_def)
    from with_intent_prepared [OF this performs_conclude(2)] ExecuteShell Some show ?thesis by simp
  next
    case (MakeDirectory oenv intent ctx)
    with assms Some gc have "with_intent E px env intent ctx
        (perform_mkdir E px env (target_of E env) intent) w = (r, w')"
      by (auto simp: make_directory_def turned_away_def Let_def split: if_splits)
    from with_intent_prepared [OF this performs_conclude(3)] MakeDirectory Some show ?thesis by simp
  next
    case (HttpGet oenv url timeout intent ctx)
    with assms Some gc have "with_intent E px env intent ctx
        (perform_get E px urlopen env url timeout intent) w = (r, w')"
      by (auto simp: http_get_def)
    from with_intent_prepared [OF this performs_conclude(4)] HttpGet Some show ?thesis by simp
  qed
qed

lemma record_event_dec: "w_dec (snd (record_event E px env ty kw w)) = w_dec w"
  by (auto simp: record_event_def Let_def split: prod.splits sum.splits)

lemma conclude_dec: "w_dec (snd (conclude E px env att w)) = w_dec w"
proof (cases att)
  case (Commits kw)
  with record_event_dec [of E px env Execution_Committed kw w] show ?thesis
    by (auto simp: commit_with_def split: prod.splits sum.splits)
next
  case (Fails kw)
  with record_event_dec [of E px env Execution_Failed kw w] show ?thesis by (simp add: fail_with_def)
qed simp

text \<open>What the first phase leaves on disk.\<close>

lemma prepare_disk:
  fixes w :: "(exec_db, 'd) world"
  assumes "tp_store px = sqlite_execution_store" "exec_inv (w_store w)"
    and "prepare_execution E px env intent ctx w = (r1, w1)"
  shows "exec_inv (w_store w1)" "w_fs w1 = w_fs w" "prefix (disk_w w) (disk_w w1)"
    "sq.chained (event_sealed (sha256 E)) (w_store w) \<Longrightarrow>
       sq.chained (event_sealed (sha256 E)) (w_store w1)"
    "r1 = Inr (Some refs) \<Longrightarrow> \<exists>p. disk_w w1 = exec_w w @ [p] \<and> exec_w w1 = disk_w w1
       \<and> call_event E env intent Intent_Pending SE_None p \<and> ev_decision_ref p = fst refs"
proof -
  note pc = sq.prepare_cases [OF assms]
  show "exec_inv (w_store w1)" "w_fs w1 = w_fs w" using pc by simp_all
  show "prefix (disk_w w) (disk_w w1)"
  proof (cases "\<exists>refs. r1 = Inr (Some refs)")
    case True
    with pc obtain refs where "sq.prepared_as E env intent (Inr (Some refs)) (w_store w) (w_store w1)"
      by auto
    from prepared_Some [OF this] sq.durable_prefix [OF assms(2)] show ?thesis
      by (metis prefix_prefix)
  next
    case False
    with pc show ?thesis by (auto simp: sq.prepared_as_def split: sum.splits option.splits)
  qed
  show "sq.chained (event_sealed (sha256 E)) (w_store w1)"
    if "sq.chained (event_sealed (sha256 E)) (w_store w)"
    using pc that sq.prepared_chained by blast
  show "\<exists>p. disk_w w1 = exec_w w @ [p] \<and> exec_w w1 = disk_w w1
      \<and> call_event E env intent Intent_Pending SE_None p \<and> ev_decision_ref p = fst refs"
    if "r1 = Inr (Some refs)"
    using pc that prepared_Some by (metis (no_types, lifting))
qed

lemma conclude_disk:
  fixes w :: "(exec_db, 'd) world"
  assumes "tp_store px = sqlite_execution_store" "exec_inv (w_store w)" "wf_attempt att"
    and "conclude E px env att w = (r, w')" "disk_w w = exec_w w"
  shows "exec_inv (w_store w')" "prefix (disk_w w) (disk_w w')" "w_dec w' = w_dec w"
    "sq.chained (event_sealed (sha256 E)) (w_store w) \<Longrightarrow>
       sq.chained (event_sealed (sha256 E)) (w_store w')"
  using sq.conclude_cases [OF assms(1-4)] sq.concluded_prefix assms(5) sq.concluded_chained
    conclude_dec [of E px env att w] assms(4)
  by auto



subsection \<open>Histories\<close>

text \<open>The world as a new process finds it: what was not committed is gone.\<close>

definition reopen :: "(exec_db, decision_db) world \<Rightarrow> (exec_db, decision_db) world" where
  "reopen w = w\<lparr>w_store := (w_store w)\<lparr>staged := []\<rparr>, w_dec := (w_dec w)\<lparr>d_staged := []\<rparr>\<rparr>"

text \<open>
  One step of a history: a call runs to its end, or the process dies before it, after its
  decision, after its intent, between the temporary write and the rename, or after its effect;
  or the clock goes on.
\<close>

inductive proxy_step ::
  "py_env \<Rightarrow> (exec_db, decision_db) tool_proxy \<Rightarrow> shell \<Rightarrow> http
     \<Rightarrow> (exec_db, decision_db) world \<Rightarrow> (exec_db, decision_db) world \<Rightarrow> bool"
  for E px run urlopen where
  call: "run_call E px run urlopen c w = (r, w') \<Longrightarrow> proxy_step E px run urlopen w w'"
| crash: "proxy_step E px run urlopen w (reopen w)"
| crash_decided: "record_decision E px rid intent ctx w = (r, w') \<Longrightarrow>
    proxy_step E px run urlopen w (reopen w')"
| crash_prepared: "prepare_execution E px env intent ctx w = (r, w') \<Longrightarrow>
    proxy_step E px run urlopen w (reopen w')"
| crash_writing: "prepare_execution E px env intent ctx w = (Inr (Some refs), w') \<Longrightarrow>
    write_bytes (tmp_path (target_of E env) (env_action_id env)) content (w_fs w') = (x, fs') \<Longrightarrow>
    proxy_step E px run urlopen w (reopen (w'\<lparr>w_fs := fs'\<rparr>))"
| crash_performed: "prepare_execution E px env intent ctx w = (Inr (Some refs), w') \<Longrightarrow>
    (att, fs') \<in> attempts E px run urlopen c env refs (w_fs w') \<Longrightarrow>
    proxy_step E px run urlopen w (reopen (w'\<lparr>w_fs := fs'\<rparr>))"
| wait: "w_tick w \<le> i \<Longrightarrow> proxy_step E px run urlopen w (w\<lparr>w_tick := i\<rparr>)"

definition decisions_chained :: "py_env \<Rightarrow> decision_db \<Rightarrow> bool" where
  "decisions_chained E d \<longleftrightarrow>
     linked_from dr_hash (\<lambda>r. Some (dr_previous_hash r)) GENESIS_HASH (d_visible d)
     \<and> (\<forall>r \<in> set (d_visible d). \<exists>x. r = row_of_decision x \<and> decision_sealed (sha256 E) x)"

definition proxy_inv :: "py_env \<Rightarrow> (exec_db, decision_db) world \<Rightarrow> bool" where
  "proxy_inv E w \<longleftrightarrow> exec_inv (w_store w)
     \<and> sq.chained (event_sealed (sha256 E)) (w_store w) \<and> decisions_chained E (w_dec w)"

definition decisions_wired :: "py_env \<Rightarrow> (exec_db, decision_db) tool_proxy \<Rightarrow> bool" where
  "decisions_wired E px \<longleftrightarrow>
     tp_decision_store px = None \<or> tp_decision_store px = Some (sqlite_decision_store E)"

lemma decisions_chained_sqd:
  "decisions_chained E d = sqd.chained (\<lambda>r. \<exists>x. r = row_of_decision x \<and> decision_sealed (sha256 E) x) d"
  by (simp add: decisions_chained_def sqd.chained_def)

lemma row_prev: "dr_previous_hash (row_of_decision d) = d_previous_hash d"
  by (simp add: row_of_decision_def)

lemma record_decision_chained:
  assumes px: "decisions_wired E px" and d: "decisions_chained E (w_dec w)"
    and call: "record_decision E px rid intent ctx w = (r, w')"
  shows "decisions_chained E (w_dec w')"
proof (cases "\<exists>it. tp_decision_store px = Some (sqlite_decision_store E) \<and> intent = Some it")
  case False
  with call px d show ?thesis
    by (auto simp: record_decision_def decisions_wired_def split: option.splits)
next
  case True
  then obtain it where t: "tp_decision_store px = Some (sqlite_decision_store E)" "intent = Some it" by blast
  obtain r1 d1 where l: "ds_last_hash (sqlite_decision_store E) (w_dec w) = (r1, d1)" by fastforce
  show ?thesis
  proof (cases r1)
    case (Inl e)
    with call t l have "w_dec w' = d1" by (auto simp: record_decision_def)
    with sqd.last_hash_chained [OF TrueI d [unfolded decisions_chained_sqd] l] show ?thesis
      by (simp add: decisions_chained_sqd)
  next
    case (Inr h)
    let ?d = "make_decision E (w_tick w) rid it ctx h"
    obtain r2 d2 where rec: "ds_record (sqlite_decision_store E) ?d d1 = (r2, d2)" by fastforce
    have "w_dec w' = d2"
      using call t l rec Inr by (auto simp: record_decision_def Let_def split: sum.splits)
    moreover have "decisions_chained E d2"
      unfolding decisions_chained_sqd
      by (rule sqd.link_and_append_chained
          [OF TrueI d [unfolded decisions_chained_sqd] l [unfolded Inr] _ _ TrueI rec])
        (simp_all add: row_prev exI [of _ ?d] make_decision_sealed)
    ultimately show ?thesis by simp
  qed
qed

lemma prepare_decisions_chained:
  assumes "decisions_wired E px" "decisions_chained E (w_dec w)"
    and "prepare_execution E px env intent ctx w = (r, w')"
  shows "decisions_chained E (w_dec w')"
proof -
  obtain r1 u where c: "effective_context px ctx w = (r1, u)" by fastforce
  have u: "w_dec u = w_dec w" using effective_context_frame [OF c] by simp
  show ?thesis
  proof (cases r1)
    case (Inl e)
    with assms c u show ?thesis by (auto simp: prepare_execution_def)
  next
    case (Inr cx)
    obtain r2 v where d: "record_decision E px (env_action_id env) intent cx u = (r2, v)" by fastforce
    have "decisions_chained E (w_dec v)"
      using record_decision_chained [OF assms(1) _ d] assms(2) u by simp
    moreover have "w_dec w' = w_dec v"
      using assms(3) c Inr d record_event_dec [of E px env Intent_Pending _ v]
      by (auto simp: prepare_execution_def split: prod.splits sum.splits option.splits) (metis snd_conv)+
    ultimately show ?thesis by simp
  qed
qed

lemma reopen_inv: "proxy_inv E w \<Longrightarrow> proxy_inv E (reopen w)"
proof -
  assume i: "proxy_inv E w"
  then have "exec_inv (w_store (reopen w))"
    by (simp add: proxy_inv_def reopen_def exec_inv_def visible_def)
  moreover have "prefix (exec_log (w_store (reopen w))) (exec_log (w_store w))"
    by (simp add: reopen_def exec_log_def visible_def)
  then have "sq.chained (event_sealed (sha256 E)) (w_store (reopen w))"
    using i sq.chained_prefix unfolding proxy_inv_def by blast
  moreover have "prefix (d_visible (w_dec (reopen w))) (d_visible (w_dec w))"
    by (simp add: reopen_def d_visible_def)
  then have "decisions_chained E (w_dec (reopen w))"
    using i sqd.chained_prefix unfolding proxy_inv_def decisions_chained_sqd by blast
  ultimately show ?thesis by (simp add: proxy_inv_def)
qed

lemma reopen_simps [simp]:
  "w_fs (reopen w) = w_fs w" "disk_w (reopen w) = disk_w w" "exec_w (reopen w) = disk_w w"
  by (simp_all add: reopen_def exec_durable_def exec_log_def visible_def)

lemma proxy_inv_fs [simp]: "proxy_inv E (w\<lparr>w_fs := fs\<rparr>) = proxy_inv E w"
  "proxy_inv E (w\<lparr>w_tick := i\<rparr>) = proxy_inv E w"
  by (simp_all add: proxy_inv_def)

lemma prepare_inv:
  assumes "tp_store px = sqlite_execution_store" "decisions_wired E px" "proxy_inv E w"
    and "prepare_execution E px env intent ctx w = (r, w')"
  shows "proxy_inv E w'"
  using prepare_disk(1,4) [OF assms(1) _ assms(4)] prepare_decisions_chained [OF assms(2) _ assms(4)] assms(3)
  by (simp add: proxy_inv_def)

lemma run_call_inv:
  assumes "tp_store px = sqlite_execution_store" "decisions_wired E px" "proxy_inv E w"
    and "run_call E px run urlopen c w = (r, w')"
  shows "proxy_inv E w'"
proof (cases "turned_away r w w'")
  case True
  with assms(3) show ?thesis by (simp add: turned_away_def)
next
  case False
  from run_call_prepared [OF assms(4) False] obtain env r1 w1
    where p: "prepare_execution E px env (call_intent c) (call_context c) w = (r1, w1)"
      "after_prepare E px env r1 w1 r w'" by blast
  have i: "proxy_inv E w1" using prepare_inv [OF assms(1-3) p(1)] .
  show ?thesis
  proof (cases "\<exists>refs. r1 = Inr (Some refs)")
    case False
    with p(2) i show ?thesis by (auto simp: after_prepare_def split: sum.splits option.splits)
  next
    case True
    then obtain refs att fs' where a: "r1 = Inr (Some refs)" "wf_attempt att"
        "conclude E px env att (w1\<lparr>w_fs := fs'\<rparr>) = (r, w')"
      using p(2) by (auto simp: after_prepare_def)
    have "disk_w w1 = exec_w w1"
      using prepare_disk(5) [OF assms(1) _ p(1) a(1)] assms(3) by (auto simp: proxy_inv_def)
    with conclude_disk [OF assms(1) _ a(2,3)] i show ?thesis by (simp add: proxy_inv_def)
  qed
qed

lemma proxy_step_inv:
  assumes "tp_store px = sqlite_execution_store" "decisions_wired E px"
    and "proxy_step E px run urlopen w w'" "proxy_inv E w"
  shows "proxy_inv E w'"
  using assms(3)
proof cases
  case (call c r)
  with run_call_inv assms(1,2,4) show ?thesis by blast
next
  case (crash_decided rid intent ctx r u)
  have "w_store u = w_store w" using record_decision_frame [OF crash_decided(2)] by simp
  with record_decision_chained [OF assms(2) _ crash_decided(2)] assms(4) have "proxy_inv E u"
    by (simp add: proxy_inv_def)
  with crash_decided(1) reopen_inv show ?thesis by simp
qed (use assms prepare_inv reopen_inv in \<open>auto intro!: reopen_inv\<close>)

definition new_world :: "(exec_db, decision_db) world \<Rightarrow> bool" where
  "new_world w \<longleftrightarrow> visible (w_store w) = [] \<and> d_visible (w_dec w) = []"

lemma new_world_inv: "new_world w \<Longrightarrow> proxy_inv E w"
  by (simp add: new_world_def proxy_inv_def exec_inv_def sq.chained_def exec_log_def decisions_chained_def)

lemma reachable_inv:
  assumes "tp_store px = sqlite_execution_store" "decisions_wired E px"
    and "(proxy_step E px run urlopen)\<^sup>*\<^sup>* w0 w" "proxy_inv E w0"
  shows "proxy_inv E w"
  using assms(3,4) by (induction rule: rtranclp_induct) (auto intro: proxy_step_inv [OF assms(1,2)])

text \<open>C2: from empty databases, after any history of calls and crashes, with any failures of
  SQLite, of the file system, of subprocesses and of the network, both \<open>verify_chain\<close>
  functions report no finding.\<close>

theorem reachable_chains_verify:
  assumes "tp_store px = sqlite_execution_store" "decisions_wired E px"
    and "(proxy_step E px run urlopen)\<^sup>*\<^sup>* w0 w" "new_world w0"
  shows "verify_chain E (w_store w) = Inr [] \<and> decision_verify_chain E (w_dec w) = Inr []"
proof -
  have "proxy_inv E w" by (rule reachable_inv [OF assms(1-3) new_world_inv [OF assms(4)]])
  then show ?thesis
    using verify_chain_chained
    by (simp add: proxy_inv_def decisions_chained_def decision_verify_chain_def decision_verify_rows_Nil)
qed

lemma demo_history:
  "(proxy_step E0 px0 run0 get0)\<^sup>*\<^sup>* (world_with [] [] [])
     (reopen (snd (demo_run demo_write (world_with [] [] []))))"
  by (rule rtranclp.rtrancl_into_rtrancl, rule r_into_rtranclp, rule proxy_step.call [OF demo_success])
    (rule proxy_step.crash)

lemma px0_wired: "decisions_wired E0 px0"
  by (simp add: decisions_wired_def)

lemma new_world_with: "new_world (world_with wfs rfs ios)"
  by (simp add: new_world_def world_with_def empty_exec_db_def empty_decision_db_def visible_def d_visible_def)

theorem reachable_chains_verify_witness:
  "verify_chain E0 (w_store (reopen (snd (demo_run demo_write (world_with [] [] []))))) = Inr []"
  using reachable_chains_verify [OF px0_simps(1) px0_wired demo_history new_world_with] by blast



text \<open>A step appends to what is on disk, and shows its effect only behind a new intent.\<close>

definition wrote_ahead ::
  "(exec_db, 'd) world \<Rightarrow> (exec_db, 'd) world \<Rightarrow> bool" where
  "wrote_ahead w w' \<longleftrightarrow> prefix (disk_w w) (disk_w w')
     \<and> (w_fs w' = w_fs w
        \<or> (\<exists>p \<in> set (drop (length (disk_w w)) (disk_w w')). ev_event_type p = Intent_Pending))"

lemma wrote_aheadI:
  assumes "exec_inv (w_store w)" "prefix (exec_w w @ [p]) (disk_w w')" "ev_event_type p = Intent_Pending"
  shows "wrote_ahead w w'"
proof -
  obtain xs where xs: "exec_w w = disk_w w @ xs"
    using sq.durable_prefix [OF assms(1)] by (auto simp: prefix_def)
  obtain ys where "disk_w w' = exec_w w @ [p] @ ys" using assms(2) by (auto simp: prefix_def)
  with xs assms(3) show ?thesis by (simp add: wrote_ahead_def)
qed

lemma run_call_wrote_ahead:
  fixes w :: "(exec_db, 'd) world"
  assumes "tp_store px = sqlite_execution_store" "exec_inv (w_store w)"
    and "run_call E px run urlopen c w = (r, w')"
  shows "wrote_ahead w w'"
proof (cases "turned_away r w w'")
  case True
  then show ?thesis by (simp add: turned_away_def wrote_ahead_def)
next
  case False
  from run_call_prepared [OF assms(3) False] obtain env r1 w1
    where p: "prepare_execution E px env (call_intent c) (call_context c) w = (r1, w1)"
      "after_prepare E px env r1 w1 r w'" by blast
  note pd = prepare_disk [OF assms(1,2) p(1)]
  show ?thesis
  proof (cases "\<exists>refs. r1 = Inr (Some refs)")
    case False
    with p(2) pd show ?thesis
      by (auto simp: after_prepare_def wrote_ahead_def split: sum.splits option.splits)
  next
    case True
    then obtain refs att fs' where a: "r1 = Inr (Some refs)" "wf_attempt att"
        "conclude E px env att (w1\<lparr>w_fs := fs'\<rparr>) = (r, w')"
      using p(2) by (auto simp: after_prepare_def)
    from pd(5) [OF a(1)] obtain e where e: "disk_w w1 = exec_w w @ [e]" "exec_w w1 = disk_w w1"
      "ev_event_type e = Intent_Pending" by (auto simp: call_event_def)
    have "prefix (disk_w w1) (disk_w w')"
      using conclude_disk(2) [OF assms(1) _ a(2,3)] pd(1) e(2) by simp
    with e show ?thesis by (intro wrote_aheadI [OF assms(2)]) simp_all
  qed
qed

lemma proxy_step_wrote_ahead:
  assumes "tp_store px = sqlite_execution_store" "exec_inv (w_store w)"
    and "proxy_step E px run urlopen w w'"
  shows "wrote_ahead w w'"
  using assms(3)
proof cases
  case (call c r)
  with run_call_wrote_ahead assms(1,2) show ?thesis by blast
next
  case (crash_decided rid intent ctx r u)
  with record_decision_frame [OF crash_decided(2)] show ?thesis by (simp add: wrote_ahead_def)
next
  case (crash_prepared env intent ctx r u)
  with prepare_disk [OF assms(1,2) crash_prepared(2)] show ?thesis by (simp add: wrote_ahead_def)
next
  case (crash_writing env intent ctx refs u content x fs')
  from prepare_disk(5) [OF assms(1,2) crash_writing(2) refl] obtain p
    where "disk_w u = exec_w w @ [p]" "ev_event_type p = Intent_Pending" by (auto simp: call_event_def)
  with crash_writing(1) show ?thesis
    by (intro wrote_aheadI [OF assms(2), of p]) simp_all
next
  case (crash_performed env intent ctx refs u att fs' c)
  from prepare_disk(5) [OF assms(1,2) crash_performed(2) refl] obtain p
    where "disk_w u = exec_w w @ [p]" "ev_event_type p = Intent_Pending" by (auto simp: call_event_def)
  with crash_performed(1) show ?thesis
    by (intro wrote_aheadI [OF assms(2), of p]) simp_all
qed (simp_all add: wrote_ahead_def)

lemma wrote_ahead_trans: "wrote_ahead u v \<Longrightarrow> wrote_ahead v w \<Longrightarrow> wrote_ahead u w"
  by (auto simp: wrote_ahead_def prefix_def)

text \<open>C1: write-ahead, over whole histories with crashes: what is on disk only grows, and if the
  file system differs from the start, an intent recorded since then is on disk.\<close>

theorem history_write_ahead:
  assumes "tp_store px = sqlite_execution_store" "decisions_wired E px"
    and "(proxy_step E px run urlopen)\<^sup>*\<^sup>* w0 w" "proxy_inv E w0"
  shows "prefix (disk_w w0) (disk_w w)
    \<and> (w_fs w \<noteq> w_fs w0 \<longrightarrow>
       (\<exists>p \<in> set (drop (length (disk_w w0)) (disk_w w)). ev_event_type p = Intent_Pending))"
proof -
  have "wrote_ahead w0 w \<and> proxy_inv E w"
    using assms(3)
  proof (induction rule: rtranclp_induct)
    case base
    from assms(4) show ?case by (simp add: wrote_ahead_def)
  next
    case (step u v)
    then have "exec_inv (w_store u)" by (simp add: proxy_inv_def)
    with step proxy_step_wrote_ahead [OF assms(1) _ step(2)] proxy_step_inv [OF assms(1,2) step(2)]
    show ?case by (blast intro: wrote_ahead_trans)
  qed
  then show ?thesis by (auto simp: wrote_ahead_def)
qed

theorem history_write_ahead_witness:
  "\<exists>p \<in> set (disk_w (reopen (snd (demo_run demo_write (world_with [] [] []))))).
     ev_event_type p = Intent_Pending"
proof -
  have "node_at (w_fs (snd (demo_run demo_write (world_with [] [] [])))) [''ws'', ''a.txt''] = Some (File ''hi'')"
    by (simp add: demo_write_def demo_eval)
  moreover have "node_at (w_fs (world_with [] [] [])) [''ws'', ''a.txt''] = Some (File ''old'')"
    by (simp add: world_with_def fs_ws_def node_at_def)
  ultimately have "w_fs (reopen (snd (demo_run demo_write (world_with [] [] [])))) \<noteq> w_fs (world_with [] [] [])"
    by auto
  then show ?thesis
    using history_write_ahead [OF px0_simps(1) px0_wired demo_history new_world_inv [OF new_world_with]]
    by (auto dest: in_set_dropD)
qed

subsection \<open>A temporary path outside the workspace\<close>

definition env_escape :: action_envelope where
  "env_escape = demo_envelope ''x/../../etc/conf'' ''filesystem.write'' ''/ws/a.txt''"

definition world_escape :: "(exec_db, decision_db) world" where
  "world_escape = (world_with [] [] [])\<lparr>w_fs := \<lparr>fs_nodes =
     [([''ws''], Dir), ([''ws'', ''a.txt.tmp.x''], Dir), ([''etc''], Dir), ([''etc'', ''conf''], File ''keep'')],
     fs_unreadable = [], fs_faults = []\<rparr>\<rparr>"

text \<open>The boundary check looks at the target only. An action id with \<open>/../\<close> puts the temporary
  file elsewhere: here \<open>write_file\<close> to a file of the workspace succeeds and a file outside the
  workspace is gone, overwritten and then renamed away.\<close>

theorem tmp_path_escapes_workspace:
  "fst (write_file E0 px0 (Some env_escape) ''hi'' None None world_escape) = Inr SUCCESS
   \<and> \<not> is_relative_to [''etc'', ''conf''] (tp_workspace px0)
   \<and> node_at (w_fs world_escape) [''etc'', ''conf''] = Some (File ''keep'')
   \<and> node_at (w_fs (snd (write_file E0 px0 (Some env_escape) ''hi'' None None world_escape))) [''etc'', ''conf''] = None"
  by (simp add: env_escape_def world_escape_def demo_eval)

end
