(* ===== verification/ReconcileProps.thy ===== *)
theory ReconcileProps
  imports Reconcile ProxyHistory
begin

text \<open>
  What \<open>reconcile\<close> reports and records: its three passes compute one declarative report of
  the log and the file system, it adds observations only, and so it can be repeated. Then the
  diagnoses it makes after each result of a call.
\<close>

subsection \<open>The report\<close>

definition pending_report :: "py_env \<Rightarrow> fs \<Rightarrow> execution_event list \<Rightarrow> (exn + reconciliation_finding) list" where
  "pending_report E fs ps = concat (map (\<lambda>p. case ev_envelope p of None \<Rightarrow> []
     | Some env \<Rightarrow> [diagnose_pending E fs (ev_record_id p) env]) ps)"

definition committed_report ::
  "py_env \<Rightarrow> fs \<Rightarrow> (string \<times> execution_event) list \<Rightarrow> (exn + reconciliation_finding) list" where
  "committed_report E fs rs = concat (map (\<lambda>(rid, ev). case ev_envelope ev of None \<Rightarrow> []
     | Some env \<Rightarrow> [diagnose_committed E fs rid env (ev_result_digest ev)]) rs)"

definition targets_of :: "py_env \<Rightarrow> execution_event list \<Rightarrow> string set" where
  "targets_of E evs = {path_str (target_of E env) | p env. p \<in> set evs \<and> ev_envelope p = Some env}"

definition unrecorded :: "fs \<Rightarrow> string set \<Rightarrow> path \<Rightarrow> bool" where
  "unrecorded fs known p \<longleftrightarrow>
     is_file fs p \<and> \<not> str_in ''.tmp.'' (path_name p) \<and> path_str p \<notin> known"

definition unrecorded_finding :: "py_env \<Rightarrow> path \<Rightarrow> exn + reconciliation_finding" where
  "unrecorded_finding E p = map_sum id
     (\<lambda>d. \<lparr>rf_diagnosis = Unrecorded_External_Change, rf_record_id = None,
           rf_target = Some (path_str p), rf_confidence = ''0.9'', rf_detail = d\<rparr>)
     (tr E ''reconcile.unrecorded_external_change'' [(''path'', path_str p)])"

definition reconcile_report ::
  "py_env \<Rightarrow> path \<Rightarrow> fs \<Rightarrow> execution_event list \<Rightarrow> (exn + reconciliation_finding) list" where
  "reconcile_report E ws fs L =
     (let ps = pending_events L; cs = committed_by_record (committed_events L);
          known = targets_of E ps \<union> targets_of E (map snd cs)
      in pending_report E fs ps @ committed_report E fs cs
         @ map (unrecorded_finding E) (filter (unrecorded fs known) (rglob ws fs)))"

lemma map_sum_Inr [simp]: "map_sum id g x = Inr y \<longleftrightarrow> (\<exists>d. x = Inr d \<and> y = g d)"
  by (cases x) auto

lemma diagnose_pending_fields:
  "diagnose_pending E fs rid env = Inr f \<Longrightarrow> rf_record_id f = Some rid
     \<and> rf_target f = Some (path_str (target_of E env))
     \<and> (rf_diagnosis f = Pending_Not_Executed \<or> rf_diagnosis f = Pending_Executed_Unconfirmed)"
  by (auto simp: diagnose_pending_def Let_def split: if_splits)

lemma diagnose_committed_fields:
  "diagnose_committed E fs rid env d = Inr f \<Longrightarrow> rf_record_id f = Some rid
     \<and> rf_target f = Some (path_str (target_of E env))
     \<and> (rf_diagnosis f = Committed_Consistent \<or> rf_diagnosis f = Committed_Diverged)"
  by (auto simp: diagnose_committed_def Let_def split: if_splits)

lemma in_pending_report:
  "x \<in> set (pending_report E fs ps) \<longleftrightarrow>
     (\<exists>p env. p \<in> set ps \<and> ev_envelope p = Some env \<and> x = diagnose_pending E fs (ev_record_id p) env)"
  by (force simp: pending_report_def split: option.splits)

lemma in_committed_report:
  "x \<in> set (committed_report E fs rs) \<longleftrightarrow>
     (\<exists>rid ev env. (rid, ev) \<in> set rs \<and> ev_envelope ev = Some env
        \<and> x = diagnose_committed E fs rid env (ev_result_digest ev))"
  by (force simp: committed_report_def split: option.splits)

lemma targets_of_Cons:
  "targets_of E (p # ps) =
     (case ev_envelope p of None \<Rightarrow> {} | Some env \<Rightarrow> {path_str (target_of E env)}) \<union> targets_of E ps"
  by (auto simp: targets_of_def split: option.splits)

lemma targets_of_Nil [simp]: "targets_of E [] = {}"
  by (simp add: targets_of_def)

lemma reconcile_committed_report:
  "reconcile_committed E fs rs known acc = Inr (known', acc') \<Longrightarrow>
     set known' = set known \<union> targets_of E (map snd rs)
     \<and> (\<exists>new. acc' = acc @ new \<and> map Inr new = committed_report E fs rs)"
proof (induction E fs rs known acc rule: reconcile_committed.induct)
  case (1 E fs known findings)
  then show ?case by (simp add: committed_report_def)
next
  case (2 E fs rid ev evs known findings)
  show ?case
  proof (cases "ev_envelope ev")
    case None
    with 2 show ?thesis by (simp add: committed_report_def targets_of_Cons)
  next
    case (Some env)
    with "2.prems" obtain f where f: "diagnose_committed E fs rid env (ev_result_digest ev) = Inr f"
      by (auto split: sum.splits)
    from "2.IH"(2) [OF Some f] "2.prems" Some f obtain new where
      "set known' = insert (path_str (target_of E env)) (set known) \<union> targets_of E (map snd evs)"
      "acc' = (findings @ [f]) @ new" "map Inr new = committed_report E fs evs"
      by auto
    then show ?thesis
      using Some f by (auto simp: committed_report_def targets_of_Cons intro!: exI [of _ "f # new"])
  qed
qed

subsection \<open>Observations\<close>

context execution_log
begin

text \<open>A step that adds observations, which belong to no envelope, and nothing else.\<close>

definition observes :: "py_env \<Rightarrow> ('s, 'd) world \<Rightarrow> ('s, 'd) world \<Rightarrow> bool" where
  "observes E w w' \<longleftrightarrow> inv (w_store w') \<and> w_fs w' = w_fs w \<and> w_dec w' = w_dec w
     \<and> (\<exists>es. log (w_store w') = log (w_store w) @ es
          \<and> (\<forall>e \<in> set es. ev_event_type e = Reconciliation_Observed \<and> ev_envelope e = None))
     \<and> (chained (event_sealed (sha256 E)) (w_store w) \<longrightarrow>
        chained (event_sealed (sha256 E)) (w_store w'))"

lemma observes_refl: "inv (w_store w) \<Longrightarrow> observes E w w"
  by (simp add: observes_def)

lemma observes_trans:
  assumes "observes E u v" "observes E v w"
  shows "observes E u w"
proof -
  obtain es where es: "log (w_store v) = log (w_store u) @ es"
      "\<forall>e \<in> set es. ev_event_type e = Reconciliation_Observed \<and> ev_envelope e = None"
    using assms(1) unfolding observes_def by blast
  obtain fs where fs: "log (w_store w) = log (w_store v) @ fs"
      "\<forall>e \<in> set fs. ev_event_type e = Reconciliation_Observed \<and> ev_envelope e = None"
    using assms(2) unfolding observes_def by blast
  have "\<exists>xs. log (w_store w) = log (w_store u) @ xs
      \<and> (\<forall>e \<in> set xs. ev_event_type e = Reconciliation_Observed \<and> ev_envelope e = None)"
    using es fs by (intro exI [of _ "es @ fs"]) auto
  with assms show ?thesis unfolding observes_def by simp
qed

lemma append_reconciliation_observes:
  assumes i: "inv (w_store w)" and conf: "wf_float conf"
    and call: "append_reconciliation_event E ops rid conf detail w = (r, w')"
  shows "observes E w w'"
proof -
  obtain rid' i' where ri: "(if truthy rid then (the rid, w_tick w)
      else (''reconcile-'' @ uuid4 E (w_tick w), Suc (w_tick w))) = (rid', i')" by fastforce
  obtain r1 s1 where l: "es_last_hash ops (w_store w) = (r1, s1)" by fastforce
  note fr = last_hash_frame [OF i l]
  show ?thesis
  proof (cases r1)
    case (Inl e)
    with call l ri fr last_hash_chained [OF i _ l] show ?thesis
      by (auto simp: append_reconciliation_event_def observes_def)
  next
    case (Inr h)
    let ?ev = "make_event E i' rid' Reconciliation_Observed h None
        (no_kwargs\<lparr>kw_confidence := Some conf, kw_error_digest := Some (sha256 E detail)\<rparr>)"
    obtain r2 s2 where a: "es_append ops ?ev s1 = (r2, s2)" by fastforce
    have wf: "wf_event ?ev" using conf by (intro wf_make_event) (simp add: wf_kwargs_def)
    have w': "w' = w\<lparr>w_store := s2, w_tick := Suc i'\<rparr>"
      using call l Inr ri a by (simp add: append_reconciliation_event_def Let_def)
    have "inv s2 \<and> (log s2 = log s1 \<or> log s2 = log s1 @ [?ev])"
      using append_cases [OF _ wf a] fr by simp
    moreover have "chained (event_sealed (sha256 E)) s2" if "chained (event_sealed (sha256 E)) (w_store w)"
      by (rule link_and_append_chained [OF i that l [unfolded Inr] _ _ wf a])
        (simp_all add: make_event_sealed)
    ultimately show ?thesis
      using fr w' by (auto simp: observes_def)
  qed
qed

lemma wf_confidences: "wf_float ''0.85''" "wf_float ''0.95''" "wf_float ''0.7''" "wf_float ''0.5''"
  "wf_float ''0.9''"
  by (code_simp)+

lemma diagnose_pending_confidence:
  "diagnose_pending E fs rid env = Inr f \<Longrightarrow> wf_float (rf_confidence f)"
  using wf_confidences by (auto simp: diagnose_pending_def Let_def split: if_splits)

lemma reconcile_pending_report:
  "inv (w_store w) \<Longrightarrow> reconcile_pending E ops ps known acc w = (r, w') \<Longrightarrow>
     observes E w w' \<and>
     (\<forall>known' acc'. r = Inr (known', acc') \<longrightarrow>
        set known' = set known \<union> targets_of E ps
        \<and> (\<exists>new. acc' = acc @ new \<and> map Inr new = pending_report E (w_fs w) ps))"
proof (induction ps arbitrary: known acc w)
  case Nil
  then show ?case by (auto simp: pending_report_def observes_refl)
next
  case (Cons p ps)
  show ?case
  proof (cases "ev_envelope p")
    case None
    with Cons.IH [OF Cons.prems(1), of known acc] Cons.prems(2) show ?thesis
      by (simp add: pending_report_def targets_of_Cons)
  next
    case (Some env)
    show ?thesis
    proof (cases "diagnose_pending E (w_fs w) (ev_record_id p) env")
      case (Inl e)
      with Some Cons.prems show ?thesis by (auto simp: observes_refl)
    next
      case (Inr f)
      obtain r1 w1 where a: "append_reconciliation_event E ops (Some (ev_record_id p)) (rf_confidence f)
          (rf_detail f) w = (r1, w1)" by fastforce
      have o: "observes E w w1"
        by (rule append_reconciliation_observes [OF Cons.prems(1) diagnose_pending_confidence [OF Inr] a])
      then have w1: "inv (w_store w1)" "w_fs w1 = w_fs w" by (simp_all add: observes_def)
      show ?thesis
      proof (cases r1)
        case (Inl e)
        with Some Inr Cons.prems a o show ?thesis by auto
      next
        case (Inr u)
        let ?k = "path_str (target_of E env) # known"
        have run: "reconcile_pending E ops ps ?k (acc @ [f]) w1 = (r, w')"
          using Cons.prems(2) Some \<open>diagnose_pending _ _ _ _ = Inr f\<close> a Inr by simp
        from Cons.IH [OF w1(1) run] o have "observes E w w'" by (blast intro: observes_trans)
        moreover have "set known' = set known \<union> targets_of E (p # ps)
            \<and> (\<exists>new. acc' = acc @ new \<and> map Inr new = pending_report E (w_fs w) (p # ps))"
          if r: "r = Inr (known', acc')" for known' acc'
        proof -
          from Cons.IH [OF w1(1) run] r obtain new where
            "set known' = set ?k \<union> targets_of E ps" "acc' = (acc @ [f]) @ new"
            "map Inr new = pending_report E (w_fs w) ps"
            unfolding w1(2) by blast
          then show ?thesis
            using Some \<open>diagnose_pending _ _ _ _ = Inr f\<close>
            by (auto simp: pending_report_def targets_of_Cons intro!: exI [of _ "f # new"])
        qed
        ultimately show ?thesis by blast
      qed
    qed
  qed
qed

lemma reconcile_unrecorded_report:
  "inv (w_store w) \<Longrightarrow> reconcile_unrecorded E ops ps known acc w = (r, w') \<Longrightarrow>
     observes E w w' \<and>
     (\<forall>acc'. r = Inr acc' \<longrightarrow> (\<exists>new. acc' = acc @ new
        \<and> map Inr new = map (unrecorded_finding E) (filter (unrecorded (w_fs w) (set known)) ps)))"
proof (induction ps arbitrary: acc w)
  case Nil
  then show ?case by (auto simp: observes_refl)
next
  case (Cons p ps)
  show ?case
  proof (cases "unrecorded (w_fs w) (set known) p")
    case False
    then have "reconcile_unrecorded E ops ps known acc w = (r, w')"
      using Cons.prems(2) by (auto simp: unrecorded_def split: if_splits)
    from Cons.IH [OF Cons.prems(1) this] False show ?thesis by simp
  next
    case True
    show ?thesis
    proof (cases "tr E ''reconcile.unrecorded_external_change'' [(''path'', path_str p)]")
      case (Inl e)
      with True Cons.prems show ?thesis by (auto simp: unrecorded_def observes_refl)
    next
      case (Inr detail)
      let ?f = "\<lparr>rf_diagnosis = Unrecorded_External_Change, rf_record_id = None,
          rf_target = Some (path_str p), rf_confidence = ''0.9'', rf_detail = detail\<rparr>"
      obtain r1 w1 where a: "append_reconciliation_event E ops None ''0.9'' detail w = (r1, w1)" by fastforce
      have o: "observes E w w1"
        by (rule append_reconciliation_observes [OF Cons.prems(1) wf_confidences(5) a])
      then have w1: "inv (w_store w1)" "w_fs w1 = w_fs w" by (simp_all add: observes_def)
      show ?thesis
      proof (cases r1)
        case (Inl e)
        with True Inr Cons.prems a o show ?thesis by (auto simp: unrecorded_def)
      next
        case (Inr u)
        have run: "reconcile_unrecorded E ops ps known (acc @ [?f]) w1 = (r, w')"
          using Cons.prems(2) True \<open>tr _ _ _ = Inr detail\<close> a Inr
          by (simp add: unrecorded_def Let_def)
        have f: "unrecorded_finding E p = Inr ?f"
          using \<open>tr _ _ _ = Inr detail\<close> by (simp add: unrecorded_finding_def)
        from Cons.IH [OF w1(1) run] o have "observes E w w'" by (blast intro: observes_trans)
        moreover have "\<exists>new. acc' = acc @ new \<and> map Inr new =
            map (unrecorded_finding E) (filter (unrecorded (w_fs w) (set known)) (p # ps))"
          if r: "r = Inr acc'" for acc'
        proof -
          from Cons.IH [OF w1(1) run] r obtain new where "acc' = (acc @ [?f]) @ new"
            "map Inr new = map (unrecorded_finding E) (filter (unrecorded (w_fs w) (set known)) ps)"
            unfolding w1(2) by blast
          with True f show ?thesis by (intro exI [of _ "?f # new"]) simp
        qed
        ultimately show ?thesis by blast
      qed
    qed
  qed
qed

lemma observed_queries:
  assumes "\<forall>e \<in> set es. ev_event_type e = Reconciliation_Observed \<and> ev_envelope e = None"
  shows "pending_events (L @ es) = pending_events L" "committed_events (L @ es) = committed_events L"
proof -
  have "filter closes es = []" "filter (\<lambda>e. ev_event_type e = Execution_Committed) es = []"
    "filter (\<lambda>e. ev_event_type e = Intent_Pending \<and> P e) es = []" for P
    using assms by (auto simp: filter_empty_conv closes_def)
  then show "pending_events (L @ es) = pending_events L" "committed_events (L @ es) = committed_events L"
    by (simp_all add: pending_events_def committed_events_def)
qed

lemma observes_queries:
  assumes "observes E w w'"
  shows "pending_events (log (w_store w')) = pending_events (log (w_store w))"
    "committed_events (log (w_store w')) = committed_events (log (w_store w))"
  using assms observed_queries unfolding observes_def by metis+

lemma observes_report:
  "observes E w w' \<Longrightarrow>
     reconcile_report E ws (w_fs w') (log (w_store w')) = reconcile_report E ws (w_fs w) (log (w_store w))"
  by (simp add: reconcile_report_def observes_queries) (simp add: observes_def)

lemma reconcile_reports:
  assumes i: "inv (w_store w)" and call: "reconcile E wd ops w = (r, w')"
  shows "observes E w w' \<and> (\<forall>findings. r = Inr findings \<longrightarrow>
     map Inr findings = reconcile_report E (resolve (getcwd E) wd) (w_fs w) (log (w_store w)))"
proof -
  let ?L = "log (w_store w)" and ?ws = "resolve (getcwd E) wd"
  let ?cs = "committed_by_record (committed_events ?L)"
  obtain r1 w1 where p: "reconcile_pending E ops (pending_events ?L) [] [] w = (r1, w1)" by fastforce
  note pr = reconcile_pending_report [OF i p]
  then have o1: "observes E w w1" by blast
  then have w1: "inv (w_store w1)" "w_fs w1 = w_fs w" by (simp_all add: observes_def)
  show ?thesis
  proof (cases r1)
    case (Inl e)
    with call p pending_log [OF i] o1 show ?thesis by (auto simp: reconcile_def)
  next
    case (Inr x)
    then obtain k1 f1 where x: "r1 = Inr (k1, f1)" by (cases x) auto
    with pr have k1: "set k1 = targets_of E (pending_events ?L)"
        "map Inr f1 = pending_report E (w_fs w) (pending_events ?L)" by auto
    have c: "es_committed ops (w_store w1) = Inr (committed_events ?L)"
      using committed_log [OF w1(1)] observes_queries(2) [OF o1] by simp
    show ?thesis
    proof (cases "reconcile_committed E (w_fs w) ?cs k1 f1")
      case (Inl e)
      with call p x c o1 w1 pending_log [OF i] show ?thesis by (auto simp: reconcile_def)
    next
      case (Inr y)
      then obtain k2 f2 where y: "reconcile_committed E (w_fs w) ?cs k1 f1 = Inr (k2, f2)" by (cases y) auto
      from reconcile_committed_report [OF y] obtain new where
        k2: "set k2 = set k1 \<union> targets_of E (map snd ?cs)" "f2 = f1 @ new"
        "map Inr new = committed_report E (w_fs w) ?cs" by blast
      have u: "reconcile_unrecorded E ops (rglob ?ws (w_fs w)) k2 f2 w1 = (r, w')"
        using call p x c y w1 pending_log [OF i] by (simp add: reconcile_def)
      note ur = reconcile_unrecorded_report [OF w1(1) u]
      then have "observes E w w'" using o1 by (blast intro: observes_trans)
      moreover have "map Inr findings = reconcile_report E ?ws (w_fs w) ?L" if "r = Inr findings" for findings
      proof -
        from ur that obtain new' where "findings = f2 @ new'"
          "map Inr new' = map (unrecorded_finding E) (filter (unrecorded (w_fs w) (set k2)) (rglob ?ws (w_fs w)))"
          unfolding w1(2) by blast
        with k1 k2 show ?thesis by (simp add: reconcile_report_def Let_def)
      qed
      ultimately show ?thesis by blast
    qed
  qed
qed

end

subsection \<open>Properties of the SQLite store's reconciliation\<close>

text \<open>C9: \<open>reconcile\<close>, where it returns, reports exactly the declarative report: one finding per
  pending intent, one per committed record (by its last commit), and one per unexplained file.
  Its only effect is to append observations, so the file system is untouched and the chain, if
  it verified, still does.\<close>

theorem reconcile_returns_report:
  fixes w :: "(exec_db, 'd) world"
  assumes "exec_inv (w_store w)" "sq.chained (event_sealed (sha256 E)) (w_store w)"
    and "reconcile E wd sqlite_execution_store w = (Inr findings, w')"
  shows "map Inr findings = reconcile_report E (resolve (getcwd E) wd) (w_fs w) (exec_w w)
    \<and> w_fs w' = w_fs w \<and> verify_chain E (w_store w') = Inr []
    \<and> (\<exists>es. exec_w w' = exec_w w @ es \<and> (\<forall>e \<in> set es. ev_event_type e = Reconciliation_Observed))"
  using sq.reconcile_reports [OF assms(1,3)] assms(2) verify_chain_chained
  by (auto simp: sq.observes_def)

text \<open>C34: reconciliation can be repeated: its own observations never change what is diagnosed.\<close>

theorem reconcile_repeatable:
  fixes w :: "(exec_db, 'd) world"
  assumes "exec_inv (w_store w)"
    and "reconcile E wd sqlite_execution_store w = (Inr findings, w')"
    and "reconcile E wd sqlite_execution_store w' = (Inr again, w'')"
  shows "again = findings"
proof -
  have o: "sq.observes E w w'" using sq.reconcile_reports [OF assms(1,2)] by blast
  then have i: "exec_inv (w_store w')" by (simp add: sq.observes_def)
  have "map Inr again = (map Inr findings :: (exn + reconciliation_finding) list)"
    using sq.reconcile_reports [OF assms(1,2)] sq.reconcile_reports [OF i assms(3)]
      sq.observes_report [OF o, of "resolve (getcwd E) wd"] by metis
  then show ?thesis by (simp add: inj_map_eq_map)
qed

lemma reported:
  assumes "map Inr fs = (xs :: (exn + 'a) list)" "Inr f \<in> set xs"
  shows "f \<in> set fs"
  using assms by auto


subsection \<open>Reconciliation returns\<close>

text \<open>The messages of \<open>reconcile\<close> can be made, and the store's reads do not fail.\<close>

definition messages_ok :: "py_env \<Rightarrow> bool" where
  "messages_ok E \<longleftrightarrow> (\<forall>key \<in> {''reconcile.target_not_found'', ''reconcile.target_exists_unconfirmed'',
       ''reconcile.target_deleted'', ''reconcile.target_consistent'', ''reconcile.target_diverged'',
       ''reconcile.unrecorded_external_change''}. \<forall>params. \<exists>m. tr E key params = Inr m)"

definition reads_ok :: "exec_db \<Rightarrow> bool" where
  "reads_ok db \<longleftrightarrow> set (read_faults db) \<subseteq> {None}"

lemma exec_append_reads: "read_faults (snd (exec_append e db)) = read_faults db"
  by (auto simp: exec_append_def Let_def split: db_fault.splits)

lemma exec_last_hash_reads:
  "reads_ok db \<Longrightarrow> \<exists>h db'. exec_last_hash db = (Inr h, db') \<and> reads_ok db'"
  by (auto simp: exec_last_hash_def reads_ok_def Let_def split: list.splits)

lemma append_reconciliation_returns:
  fixes w :: "(exec_db, 'd) world"
  assumes "reads_ok (w_store w)"
  shows "\<exists>w'. append_reconciliation_event E sqlite_execution_store rid conf detail w = (Inr (), w')
    \<and> reads_ok (w_store w')"
proof -
  obtain h db where "exec_last_hash (w_store w) = (Inr h, db)" "reads_ok db"
    using exec_last_hash_reads [OF assms] by blast
  then show ?thesis
    by (simp add: append_reconciliation_event_def sqlite_execution_store_def Let_def reads_ok_def
        exec_append_reads split: prod.split)
qed

lemma diagnose_returns:
  assumes "messages_ok E"
  shows "\<exists>f. diagnose_pending E fs rid env = Inr f" "\<exists>f. diagnose_committed E fs rid env d = Inr f"
    "\<exists>m. tr E ''reconcile.unrecorded_external_change'' ps = Inr m"
proof -
  have ms: "\<exists>m. tr E ''reconcile.target_not_found'' ps = Inr m"
    "\<exists>m. tr E ''reconcile.target_exists_unconfirmed'' ps = Inr m"
    "\<exists>m. tr E ''reconcile.target_deleted'' ps = Inr m"
    "\<exists>m. tr E ''reconcile.target_consistent'' ps = Inr m"
    "\<exists>m. tr E ''reconcile.target_diverged'' ps = Inr m"
    "\<exists>m. tr E ''reconcile.unrecorded_external_change'' ps = Inr m" for ps
    using assms by (auto simp: messages_ok_def)
  show "\<exists>f. diagnose_pending E fs rid env = Inr f"
    using ms(1) [of "[(''target'', path_str (target_of E env))]"] ms(2)
    by (auto simp: diagnose_pending_def Let_def)
  show "\<exists>f. diagnose_committed E fs rid env d = Inr f"
    using ms(3-5) [of "[(''target'', path_str (target_of E env))]"]
    by (auto simp: diagnose_committed_def Let_def)
  show "\<exists>m. tr E ''reconcile.unrecorded_external_change'' ps = Inr m" by (rule ms(6))
qed

lemma reconcile_pending_returns:
  fixes w :: "(exec_db, 'd) world"
  assumes "messages_ok E" "reads_ok (w_store w)"
  shows "\<exists>k f w'. reconcile_pending E sqlite_execution_store ps known acc w = (Inr (k, f), w')
    \<and> reads_ok (w_store w')"
  using assms(2)
proof (induction ps arbitrary: known acc w)
  case Nil
  then show ?case by simp
next
  case (Cons p ps)
  show ?case
  proof (cases "ev_envelope p")
    case None
    with Cons show ?thesis by simp
  next
    case (Some env)
    obtain f where f: "diagnose_pending E (w_fs w) (ev_record_id p) env = Inr f"
      using diagnose_returns(1) [OF assms(1)] by blast
    obtain w1 where w1: "append_reconciliation_event E sqlite_execution_store (Some (ev_record_id p))
        (rf_confidence f) (rf_detail f) w = (Inr (), w1)" "reads_ok (w_store w1)"
      using append_reconciliation_returns [OF Cons.prems] by blast
    from Cons.IH [OF w1(2)] Some f w1(1) show ?thesis by simp
  qed
qed

lemma reconcile_committed_returns:
  assumes "messages_ok E"
  shows "\<exists>k f. reconcile_committed E fs rs known acc = Inr (k, f)"
proof (induction rs arbitrary: known acc)
  case Nil
  then show ?case by simp
next
  case (Cons r rs)
  obtain rid ev where r: "r = (rid, ev)" by (cases r)
  show ?case
  proof (cases "ev_envelope ev")
    case None
    with Cons r show ?thesis by simp
  next
    case (Some env)
    with Cons r diagnose_returns(2) [OF assms, of fs rid env "ev_result_digest ev"] show ?thesis by auto
  qed
qed

lemma reconcile_unrecorded_returns:
  fixes w :: "(exec_db, 'd) world"
  assumes "messages_ok E" "reads_ok (w_store w)"
  shows "\<exists>f w'. reconcile_unrecorded E sqlite_execution_store ps known acc w = (Inr f, w')
    \<and> reads_ok (w_store w')"
  using assms(2)
proof (induction ps arbitrary: acc w)
  case Nil
  then show ?case by simp
next
  case (Cons p ps)
  obtain d where d: "tr E ''reconcile.unrecorded_external_change'' [(''path'', path_str p)] = Inr d"
    using diagnose_returns(3) [OF assms(1)] by blast
  obtain w1 where w1: "append_reconciliation_event E sqlite_execution_store None ''0.9'' d w = (Inr (), w1)"
      "reads_ok (w_store w1)"
    using append_reconciliation_returns [OF Cons.prems] by blast
  from Cons.IH [OF w1(2)] Cons.IH [OF Cons.prems] d w1(1) show ?case by (simp add: Let_def)
qed

lemma reconcile_total:
  fixes w :: "(exec_db, 'd) world"
  assumes "exec_inv (w_store w)" "reads_ok (w_store w)" "messages_ok E"
  shows "\<exists>findings w'. reconcile E wd sqlite_execution_store w = (Inr findings, w') \<and> reads_ok (w_store w')"
proof -
  obtain k f w1 where p: "reconcile_pending E sqlite_execution_store (pending_events (exec_w w)) [] [] w
      = (Inr (k, f), w1)" "reads_ok (w_store w1)"
    using reconcile_pending_returns [OF assms(3,2)] by blast
  have o: "sq.observes E w w1" using sq.reconcile_pending_report [OF assms(1) p(1)] by blast
  then have c: "es_committed sqlite_execution_store (w_store w1) = Inr (committed_events (exec_w w1))"
    by (intro sq.committed_log) (simp add: sq.observes_def)
  obtain k2 f2 where "reconcile_committed E (w_fs w1) (committed_by_record (committed_events (exec_w w1))) k f
      = Inr (k2, f2)"
    using reconcile_committed_returns [OF assms(3)] by blast
  with c p sq.pending_log [OF assms(1)] reconcile_unrecorded_returns [OF assms(3) p(2)] show ?thesis
    by (simp add: reconcile_def)
qed

text \<open>\<open>reconcile\<close> returns whenever the store can be read and the messages can be made,
  however many of its own records fail to be written.\<close>

theorem reconcile_returns:
  fixes w :: "(exec_db, 'd) world"
  assumes "exec_inv (w_store w)" "reads_ok (w_store w)" "messages_ok E"
  shows "\<exists>findings w'. reconcile E wd sqlite_execution_store w = (Inr findings, w')"
  using reconcile_total [OF assms] by blast

lemma messages_E0: "messages_ok E0"
proof -
  have plain: "\<exists>m. translate (locale_files E0) (locale_name E0) key ps = Inr m"
    if "CHR ''{'' \<notin> set key" "CHR ''}'' \<notin> set key" for key ps
    using expand_parts [of ps "[Lit key]"] that
    by (simp add: translate_def E0_def load_catalog_def)
  show ?thesis
    by (auto simp: messages_ok_def tr_def intro!: plain)
qed

theorem reconcile_returns_witness:
  "\<exists>findings w'. reconcile E0 ''/ws'' sqlite_execution_store (world_with [CommitFails ''io''] [] [])
     = (Inr findings, w')"
  by (rule reconcile_returns [OF world_with_inv _ messages_E0])
    (simp add: world_with_def empty_exec_db_def reads_ok_def)

subsection \<open>The diagnosis after a call\<close>

lemma pending_finding:
  fixes w :: "(exec_db, 'd) world"
  assumes "exec_inv (w_store w)" "reconcile E wd sqlite_execution_store w = (Inr findings, w')"
    and "p \<in> set (pending_events (exec_w w))" "ev_envelope p = Some env"
  obtains f where "f \<in> set findings" "diagnose_pending E (w_fs w) (ev_record_id p) env = Inr f"
proof -
  have "diagnose_pending E (w_fs w) (ev_record_id p) env
      \<in> set (reconcile_report E (resolve (getcwd E) wd) (w_fs w) (exec_w w))"
    using assms(3,4) by (auto simp: reconcile_report_def Let_def in_pending_report)
  also have "\<dots> = Inr ` set findings"
    using sq.reconcile_reports [OF assms(1,2)] by (metis list.set_map)
  finally show ?thesis using that by auto
qed

lemma write_file_inv:
  fixes w :: "(exec_db, 'd) world"
  assumes "tp_store px = sqlite_execution_store" "exec_inv (w_store w)"
    and "write_file E px (Some env) content intent ctx w = (r, w')"
  shows "exec_inv (w_store w')"
  using run_call_exec_inv [OF assms(1,2), of E _ _ "WriteFile (Some env) content intent ctx"] assms(3) by simp

lemma mkdir_inv:
  fixes w :: "(exec_db, 'd) world"
  assumes "tp_store px = sqlite_execution_store" "exec_inv (w_store w)"
    and "make_directory E px (Some env) intent ctx w = (r, w')"
  shows "exec_inv (w_store w')"
  using run_call_exec_inv [OF assms(1,2), of E _ _ "MakeDirectory (Some env) intent ctx"] assms(3) by simp

lemma reopen_exec_inv: "exec_inv (w_store w) \<Longrightarrow> exec_inv (w_store (reopen w))"
  by (simp add: reopen_def exec_inv_def visible_def)

lemma map_of_dict_of: "map_of (dict_of kvs) k = map_of (rev kvs) k"
proof -
  have "map_of (foldl (\<lambda>d (k, v). dict_set k v d) d kvs) k
      = (case map_of (rev kvs) k of None \<Rightarrow> map_of d k | Some v \<Rightarrow> Some v)" for d
    by (induction kvs arbitrary: d) (auto simp: update_conv' map_add_def split: option.splits)
  then show ?thesis by (simp add: dict_of_def split: option.splits)
qed

lemma committed_finding:
  fixes w :: "(exec_db, 'd) world"
  assumes "exec_inv (w_store w)" "reconcile E wd sqlite_execution_store w = (Inr findings, w')"
    and "committed_events (exec_w w) = cs @ [c]" "ev_envelope c = Some env"
  obtains f where "f \<in> set findings"
    "diagnose_committed E (w_fs w) (ev_record_id c) env (ev_result_digest c) = Inr f"
proof -
  have "map_of (committed_by_record (cs @ [c])) (ev_record_id c) = Some c"
    by (simp add: committed_by_record_def map_of_dict_of)
  then have "(ev_record_id c, c) \<in> set (committed_by_record (committed_events (exec_w w)))"
    using assms(3) by (simp add: map_of_SomeD)
  then have "diagnose_committed E (w_fs w) (ev_record_id c) env (ev_result_digest c)
      \<in> set (reconcile_report E (resolve (getcwd E) wd) (w_fs w) (exec_w w))"
    unfolding reconcile_report_def Let_def set_append in_committed_report Un_iff using assms(4) by blast
  also have "\<dots> = Inr ` set findings"
    using sq.reconcile_reports [OF assms(1,2)] by (metis list.set_map)
  finally show ?thesis using that by auto
qed


text \<open>C11: detection of tampering after a successful write: whatever the files are later, \<open>reconcile\<close>
  finds the record consistent exactly when the target is a readable file whose digest is the one
  of the content that was written, and diverged otherwise.\<close>

theorem committed_write_is_checked:
  fixes w :: "(exec_db, 'd) world"
  assumes "tp_store px = sqlite_execution_store" "exec_inv (w_store w)"
    and "\<forall>c \<in> set (getcwd E). good_part c"
    and "write_file E px (Some env) content intent ctx w = (Inr SUCCESS, w')"
    and "digest E content \<noteq> []"
    and "reconcile E wd sqlite_execution_store (w'\<lparr>w_fs := later\<rparr>) = (Inr findings, w'')"
  shows "\<exists>f \<in> set findings. rf_record_id f = Some (env_action_id env)
    \<and> (rf_diagnosis f = Committed_Consistent \<longleftrightarrow>
        map_option (digest E) (read_bytes later (target_of E env)) = Some (digest E content))
    \<and> (rf_diagnosis f = Committed_Diverged \<longleftrightarrow>
        map_option (digest E) (read_bytes later (target_of E env)) \<noteq> Some (digest E content))"
proof (rule write_observed [OF assms(1-4)])
  fix tmp p
  assume "SUCCESS = SUCCESS \<Longrightarrow> \<exists>e. exec_w w' = exec_w w @ [p, e] \<and> disk_w w' = exec_w w'
       \<and> call_event E env intent Execution_Committed SE_Confirmed e
       \<and> ev_result_digest e = Some (digest E content)"
  then obtain e where e: "exec_w w' = exec_w w @ [p, e]"
      "call_event E env intent Execution_Committed SE_Confirmed e"
      "ev_result_digest e = Some (digest E content)" by blast
  then have "committed_events (exec_w (w'\<lparr>w_fs := later\<rparr>)) = committed_events (exec_w w @ [p]) @ [e]"
    by (simp add: committed_events_def call_event_def)
  from committed_finding [OF _ assms(6) this] e(2) write_file_inv [OF assms(1,2,4)] obtain f where
    f: "f \<in> set findings"
      "diagnose_committed E later (env_action_id env) env (ev_result_digest e) = Inr f"
    by (auto simp: call_event_def)
  have "file_digest E later (target_of E env) = map_option (digest E) (read_bytes later (target_of E env))"
    by (simp add: file_digest_def digest_def [abs_def])
  with f(2) e(3) assms(5) have
    "(rf_diagnosis f = Committed_Consistent \<longleftrightarrow>
        map_option (digest E) (read_bytes later (target_of E env)) = Some (digest E content))
    \<and> (rf_diagnosis f = Committed_Diverged \<longleftrightarrow>
        map_option (digest E) (read_bytes later (target_of E env)) \<noteq> Some (digest E content))"
    by (auto simp: diagnose_committed_def Let_def truthy_def split: if_splits)
  with f(1) diagnose_committed_fields [OF f(2)] show ?thesis by blast
qed simp

lemma mkdir_observed:
  fixes w :: "(exec_db, 'd) world"
  assumes "tp_store px = sqlite_execution_store" "exec_inv (w_store w)"
    and "make_directory E px (Some env) intent ctx w = (Inr SUCCESS, w')"
  obtains p e where "node_at (w_fs w') (target_of E env) = Some Dir"
    "exec_w w' = exec_w w @ [p, e]" "call_event E env intent Execution_Committed SE_Confirmed e"
proof -
  let ?c = "MakeDirectory (Some env) intent ctx"
  let ?sh = "\<lambda>_ _ _ fs. (TimeoutExpired, fs)" and ?get = "\<lambda>_ _ _. HttpTimeout []"
  have run: "run_call E px ?sh ?get ?c w = (Inr SUCCESS, w')" using assms(3) by simp
  from call_phases [OF assms(1,2) run] have
    ph: "sq.two_phase E env intent (attempts E px ?sh ?get ?c env) (Inr SUCCESS) w w'"
    by (auto simp: turned_away_def)
  from ph show ?thesis
  proof (cases rule: phases_cases)
    case (attempted refs att s p)
    have d: "exec_durable s = exec_log s" using attempted by simp
    have f: "attempt_form intent refs att" using attempts_form [OF attempted(1)] by simp
    from attempted(7) f d show ?thesis
    proof (cases rule: concluded_results)
      case (success e)
      then obtain kw where "att = Commits kw" by blast
      with attempted(1) have "path_mkdir (target_of E env) (w_fs w) = (Inr (), w_fs w')"
        by (auto simp: Let_def mkdir_attempt_def split: if_splits prod.splits sum.splits)
      from path_mkdir_ok [OF this] that success attempted show ?thesis by auto
    qed simp_all
  qed simp_all
qed

text \<open>A directory made through the proxy is always diagnosed as diverged: the committed pass
  compares every tool's record with a file digest, and a directory has none.\<close>

theorem committed_mkdir_always_diverges:
  fixes w :: "(exec_db, 'd) world"
  assumes "tp_store px = sqlite_execution_store" "exec_inv (w_store w)"
    and "make_directory E px (Some env) intent ctx w = (Inr SUCCESS, w')"
    and "reconcile E wd sqlite_execution_store w' = (Inr findings, w'')"
  shows "\<exists>f \<in> set findings. rf_record_id f = Some (env_action_id env)
    \<and> rf_diagnosis f = Committed_Diverged \<and> rf_confidence f = ''0.8''"
proof (rule mkdir_observed [OF assms(1-3)])
  fix p e
  assume a: "node_at (w_fs w') (target_of E env) = Some Dir" "exec_w w' = exec_w w @ [p, e]"
    "call_event E env intent Execution_Committed SE_Confirmed e"
  then have "committed_events (exec_w w') = committed_events (exec_w w @ [p]) @ [e]"
    by (simp add: committed_events_def call_event_def)
  from committed_finding [OF mkdir_inv [OF assms(1-3)] assms(4) this] a(3) obtain f where
    f: "f \<in> set findings"
      "diagnose_committed E (w_fs w') (env_action_id env) env (ev_result_digest e) = Inr f"
    by (auto simp: call_event_def)
  have "file_digest E (w_fs w') (target_of E env) = None"
    using a(1) by (simp add: file_digest_def read_bytes_def)
  with f(2) have "rf_diagnosis f = Committed_Diverged \<and> rf_confidence f = ''0.8''"
    by (auto simp: diagnose_committed_def Let_def)
  with f(1) diagnose_committed_fields [OF f(2)] show ?thesis by blast
qed

subsection \<open>Reconciliations of the fixtures\<close>

lemma world_with_reads [simp]: "reads_ok (w_store (world_with wfs [] ios))"
  by (simp add: world_with_def empty_exec_db_def reads_ok_def)

lemma world_with_chained: "sq.chained s (w_store (world_with wfs rfs ios))"
  by (simp add: sq.chained_def)

theorem reconcile_returns_report_witness:
  "\<exists>findings w'. reconcile E0 ''/ws'' sqlite_execution_store (world_with [] [] []) = (Inr findings, w')
     \<and> verify_chain E0 (w_store w') = Inr []"
  using reconcile_total [OF world_with_inv world_with_reads messages_E0, of "''/ws''"]
    reconcile_returns_report [OF world_with_inv world_with_chained] by meson

theorem reconcile_repeatable_witness:
  "\<exists>fs w1 w2. reconcile E0 ''/ws'' sqlite_execution_store (world_with [] [] []) = (Inr fs, w1)
     \<and> reconcile E0 ''/ws'' sqlite_execution_store w1 = (Inr fs, w2)"
proof -
  obtain fs w1 where a: "reconcile E0 ''/ws'' sqlite_execution_store (world_with [] [] []) = (Inr fs, w1)"
      "reads_ok (w_store w1)"
    using reconcile_total [OF world_with_inv world_with_reads messages_E0] by blast
  have "exec_inv (w_store w1)"
    using sq.reconcile_reports [OF world_with_inv a(1)] by (simp add: sq.observes_def)
  from reconcile_total [OF this a(2) messages_E0, of "''/ws''"] obtain gs w2 where
    b: "reconcile E0 ''/ws'' sqlite_execution_store w1 = (Inr gs, w2)" by blast
  from reconcile_repeatable [OF world_with_inv a(1) b] a(1) b show ?thesis by blast
qed

lemma ws_resolves: "resolve (getcwd E0) ''/ws'' = [''ws'']"
  by (simp add: E0_def path_eval)


definition env_x :: action_envelope where
  "env_x = env_w\<lparr>env_expected_result_digest := Some (digest E0 ''hi'')\<rparr>"

lemma demo_unconfirmed_x:
  "write_file E0 px0 (Some env_x) ''hi'' None None (world_with [NoFault, CommitFails ''io''] [] [])
    = (Inr UNCONFIRMED, snd (write_file E0 px0 (Some env_x) ''hi'' None None
         (world_with [NoFault, CommitFails ''io''] [] [])))"
  by (rule split_result) (simp add: env_x_def demo_eval)


theorem committed_write_is_checked_witness:
  "\<exists>findings w'. reconcile E0 ''/ws'' sqlite_execution_store
       ((snd (demo_run demo_write (world_with [] [] [])))\<lparr>w_fs := fs_ws []\<rparr>) = (Inr findings, w')
     \<and> (\<exists>f \<in> set findings. rf_record_id f = Some ''a1'' \<and> rf_diagnosis f = Committed_Diverged)"
proof -
  let ?w' = "snd (demo_run demo_write (world_with [] [] []))"
  have i: "exec_inv (w_store (?w'\<lparr>w_fs := fs_ws []\<rparr>))"
    using run_call_exec_inv [OF px0_simps(1) world_with_inv demo_success] by simp
  have "reads_ok (w_store (?w'\<lparr>w_fs := fs_ws []\<rparr>))"
    by (simp add: demo_write_def demo_eval reads_ok_def)
  from reconcile_total [OF i this messages_E0, of "''/ws''"] obtain fs w1 where
    a: "reconcile E0 ''/ws'' sqlite_execution_store (?w'\<lparr>w_fs := fs_ws []\<rparr>) = (Inr fs, w1)" by blast
  have "read_bytes (fs_ws []) (target_of E0 env_w) = Some ''old''"
    unfolding demo_target by (simp add: read_bytes_def node_at_def fs_ws_def)
  then have "map_option (digest E0) (read_bytes (fs_ws []) (target_of E0 env_w)) \<noteq> Some (digest E0 ''hi'')"
    by (simp add: digest_def E0_def)
  with committed_write_is_checked [OF px0_simps(1) world_with_inv good_cwd
      demo_success [unfolded demo_write_def run_call.simps] _ a [unfolded demo_write_def run_call.simps]]
  have "\<exists>f \<in> set fs. rf_record_id f = Some ''a1'' \<and> rf_diagnosis f = Committed_Diverged"
    by (auto simp: digest_def E0_def)
  with a show ?thesis by blast
qed

definition env_d :: action_envelope where
  "env_d = demo_envelope ''m1'' ''filesystem.mkdir'' ''/ws/d''"

lemma demo_mkdir: "make_directory E0 px0 (Some env_d) None None (world_with [] [] [])
    = (Inr SUCCESS, snd (make_directory E0 px0 (Some env_d) None None (world_with [] [] [])))"
  by (rule split_result) (simp add: env_d_def Let_def path_mkdir.simps [of "[''ws'', ''d'']"] demo_eval)

theorem committed_mkdir_always_diverges_witness:
  "\<exists>findings w'. reconcile E0 ''/ws'' sqlite_execution_store
       (snd (make_directory E0 px0 (Some env_d) None None (world_with [] [] []))) = (Inr findings, w')
     \<and> (\<exists>f \<in> set findings. rf_diagnosis f = Committed_Diverged)"
proof -
  let ?w' = "snd (make_directory E0 px0 (Some env_d) None None (world_with [] [] []))"
  have i: "exec_inv (w_store ?w')" by (rule mkdir_inv [OF px0_simps(1) world_with_inv demo_mkdir])
  have "reads_ok (w_store ?w')"
    by (simp add: env_d_def Let_def path_mkdir.simps [of "[''ws'', ''d'']"] demo_eval reads_ok_def)
  from reconcile_total [OF i this messages_E0, of "''/ws''"] obtain fs w1 where
    a: "reconcile E0 ''/ws'' sqlite_execution_store ?w' = (Inr fs, w1)" by blast
  from committed_mkdir_always_diverges [OF px0_simps(1) world_with_inv demo_mkdir a] a show ?thesis by blast
qed

end
