(* ===== verification/PyRepr.thy ===== *)
theory PyRepr
  imports Json
begin

text \<open>
  \<open>str()\<close>, \<open>repr()\<close> and truth of the values that \<open>json.loads\<close> makes, and
  \<open>str.strip\<close>, as the service and reconciliation modules use them. Strings are UTF-8 bytes;
  \<open>repr\<close> keeps every character from 128 on, so it is Python's for strings whose non-ASCII
  characters are printable.
\<close>

subsection \<open>\<open>repr\<close> and \<open>str\<close>\<close>

definition repr_quote :: "string \<Rightarrow> char" where
  "repr_quote s = (if CHR 0x27 \<in> set s \<and> CHR 0x22 \<notin> set s then CHR 0x22 else CHR 0x27)"

definition repr_char :: "char \<Rightarrow> char \<Rightarrow> string" where
  "repr_char q c =
     (if c = q \<or> c = CHR 0x5C then [CHR 0x5C, c]
      else if c = CHR 0x09 then [CHR 0x5C, CHR ''t'']
      else if c = CHR 0x0A then [CHR 0x5C, CHR ''n'']
      else if c = CHR 0x0D then [CHR 0x5C, CHR ''r'']
      else if (of_char c :: nat) < 32 \<or> c = CHR 0x7F
        then [CHR 0x5C, CHR ''x'', hex_digit (of_char c div 16), hex_digit (of_char c mod 16)]
      else [c])"

definition str_repr :: "string \<Rightarrow> string" where
  "str_repr s = repr_quote s # concat (map (repr_char (repr_quote s)) s) @ [repr_quote s]"

definition list_repr :: "string list \<Rightarrow> string" where
  "list_repr reprs = ''['' @ join '', '' reprs @ '']''"

definition dict_repr :: "(string \<times> string) list \<Rightarrow> string" where
  "dict_repr reprs = ''{'' @ join '', '' (map (\<lambda>(k, v). str_repr k @ '': '' @ v) reprs) @ ''}''"

definition bool_repr :: "bool \<Rightarrow> string" where
  "bool_repr b = (if b then ''True'' else ''False'')"

fun float_repr :: "string \<Rightarrow> string" where
  "float_repr t =
     (if t = ''NaN'' then ''nan'' else if t = ''Infinity'' then ''inf''
      else if t = ''-Infinity'' then ''-inf'' else t)"

fun json_repr :: "json \<Rightarrow> string" where
  "json_repr JNull = ''None''"
| "json_repr (JBool b) = bool_repr b"
| "json_repr (JInt i) = show_int i"
| "json_repr (JFloat t) = float_repr t"
| "json_repr (JStr s) = str_repr s"
| "json_repr (JArr vs) = list_repr (map json_repr vs)"
| "json_repr (JObj kvs) = dict_repr (map (\<lambda>(k, v). (k, json_repr v)) kvs)"

definition py_str :: "json \<Rightarrow> string" where
  "py_str v = (case v of JStr s \<Rightarrow> s | _ \<Rightarrow> json_repr v)"

lemma py_str_JStr [simp]: "py_str (JStr s) = s"
  by (simp add: py_str_def)

text \<open>\<open>"\n".join(ls)\<close>\<close>

definition lines :: "string list \<Rightarrow> string" where
  "lines ls = join [CHR 0x0A] ls"

text \<open>\<open>bool(v)\<close>; a float is false when all digits of its mantissa are zero.\<close>

definition zero_float :: "string \<Rightarrow> bool" where
  "zero_float t \<longleftrightarrow>
     t \<notin> {''NaN'', ''Infinity'', ''-Infinity''} \<and>
     (\<forall>c \<in> set (takeWhile (\<lambda>c. c \<noteq> CHR ''e'' \<and> c \<noteq> CHR ''E'') t).
        c = CHR ''0'' \<or> c = CHR ''.'' \<or> c = CHR ''-'')"

fun truth :: "json \<Rightarrow> bool" where
  "truth JNull = False"
| "truth (JBool b) = b"
| "truth (JInt i) = (i \<noteq> 0)"
| "truth (JFloat t) = (\<not> zero_float t)"
| "truth (JStr s) = (s \<noteq> [])"
| "truth (JArr vs) = (vs \<noteq> [])"
| "truth (JObj kvs) = (kvs \<noteq> [])"

text \<open>\<open>d.get(k)\<close> and \<open>d.get(k, default)\<close> on a \<open>dict\<close>.\<close>

definition dget :: "(string \<times> json) list \<Rightarrow> string \<Rightarrow> json" where
  "dget d k = (case map_of d k of None \<Rightarrow> JNull | Some v \<Rightarrow> v)"

definition dget_or :: "(string \<times> json) list \<Rightarrow> string \<Rightarrow> json \<Rightarrow> json" where
  "dget_or d k v0 = (case map_of d k of None \<Rightarrow> v0 | Some v \<Rightarrow> v)"

declare dget_def [json_simps] dget_or_def [json_simps]

text \<open>\<open>v.get\<close> on what \<open>json.loads\<close> returned: only a \<open>dict\<close> has it.\<close>

definition type_name :: "json \<Rightarrow> string" where
  "type_name v =
     (case v of JNull \<Rightarrow> ''NoneType'' | JBool _ \<Rightarrow> ''bool'' | JInt _ \<Rightarrow> ''int''
      | JFloat _ \<Rightarrow> ''float'' | JStr _ \<Rightarrow> ''str'' | JArr _ \<Rightarrow> ''list'' | JObj _ \<Rightarrow> ''dict'')"

definition as_dict :: "json \<Rightarrow> exn + (string \<times> json) list" where
  "as_dict v =
     (case v of
        JObj kvs \<Rightarrow> Inr kvs
      | _ \<Rightarrow> Inl (AttributeError ([CHR 0x27] @ type_name v @ [CHR 0x27]
                  @ '' object has no attribute '' @ [CHR 0x27] @ ''get'' @ [CHR 0x27])))"

declare as_dict_def [json_simps]

lemma as_dict_iff: "as_dict v = Inr d \<longleftrightarrow> v = JObj d"
  by (cases v) (auto simp: as_dict_def)

subsection \<open>\<open>str.strip\<close>\<close>

text \<open>The white space of \<open>str.strip\<close>, as UTF-8: ASCII, then U+0085, U+00A0, U+1680, U+2000
  to U+200A, U+2028, U+2029, U+202F, U+205F, U+3000.\<close>

definition spaces :: "string list" where
  "spaces =
     map (\<lambda>c. [c]) ([CHR 0x09, CHR 0x0A, CHR 0x0B, CHR 0x0C, CHR 0x0D, CHR 0x1C, CHR 0x1D, CHR 0x1E,
                    CHR 0x1F, CHR '' ''])
     @ [[CHR 0xC2, CHR 0x85], [CHR 0xC2, CHR 0xA0], [CHR 0xE1, CHR 0x9A, CHR 0x80],
        [CHR 0xE2, CHR 0x80, CHR 0xA8], [CHR 0xE2, CHR 0x80, CHR 0xA9], [CHR 0xE2, CHR 0x80, CHR 0xAF],
        [CHR 0xE2, CHR 0x81, CHR 0x9F], [CHR 0xE3, CHR 0x80, CHR 0x80]]
     @ map (\<lambda>c. [CHR 0xE2, CHR 0x80, c])
         [CHR 0x80, CHR 0x81, CHR 0x82, CHR 0x83, CHR 0x84, CHR 0x85, CHR 0x86, CHR 0x87, CHR 0x88,
          CHR 0x89, CHR 0x8A]"

definition first_space :: "string list \<Rightarrow> string \<Rightarrow> nat" where
  "first_space sps s = (case find (starts_with s) sps of None \<Rightarrow> 0 | Some p \<Rightarrow> length p)"

lemma first_space_le: "first_space sps s \<le> length s"
  by (auto simp: first_space_def find_Some_iff starts_with_iff split: option.splits)

function strip_front :: "string list \<Rightarrow> string \<Rightarrow> string" where
  "strip_front sps s =
     (if first_space sps s = 0 then s else strip_front sps (drop (first_space sps s) s))"
  by pat_completeness auto
termination
proof (relation "measure (\<lambda>(sps, s). length s)")
  fix sps :: "string list" and s :: string
  assume "first_space sps s \<noteq> 0"
  with first_space_le [of sps s]
  show "((sps, drop (first_space sps s) s), sps, s) \<in> measure (\<lambda>(sps, s). length s)" by simp
qed simp

declare strip_front.simps [simp del]

definition strip :: "string \<Rightarrow> string" where
  "strip s = rev (strip_front (map rev spaces) (rev (strip_front spaces s)))"

text \<open>A text between braces stays as it is.\<close>

lemma strip_front_plain:
  assumes "\<forall>p \<in> set sps. p \<noteq> [] \<and> hd p \<noteq> c"
  shows "strip_front sps (c # s) = c # s"
proof -
  have "find (starts_with (c # s)) sps = None"
    using assms by (auto simp: find_None_iff starts_with_iff) (metis list.sel(1) append_Cons neq_Nil_conv)
  then show ?thesis by (simp add: strip_front.simps [of sps] first_space_def)
qed

lemma strip_braces: "strip (CHR ''{'' # s @ ''}'') = CHR ''{'' # s @ ''}''"
proof -
  have "strip_front spaces (CHR ''{'' # s @ ''}'') = CHR ''{'' # s @ ''}''"
    by (rule strip_front_plain) (simp add: spaces_def)
  moreover have "strip_front (map rev spaces) (CHR ''}'' # rev s @ ''{'') = CHR ''}'' # rev s @ ''{''"
    by (rule strip_front_plain) (simp add: spaces_def)
  ultimately show ?thesis by (simp add: strip_def)
qed

lemma strip_Nil [simp]: "strip [] = []"
  by (simp add: strip_def strip_front.simps first_space_def spaces_def starts_with_def)

subsection \<open>What is dumped stays on one line\<close>

definition no_breaks :: "string \<Rightarrow> bool" where
  "no_breaks s \<longleftrightarrow> CHR 0x0A \<notin> set s \<and> CHR 0x0D \<notin> set s"

lemma no_breaks_simps [simp]:
  "no_breaks []"
  "no_breaks (c # s) \<longleftrightarrow> c \<noteq> CHR 0x0A \<and> c \<noteq> CHR 0x0D \<and> no_breaks s"
  "no_breaks (s @ u) \<longleftrightarrow> no_breaks s \<and> no_breaks u"
  by (auto simp: no_breaks_def)

lemma no_breaks_hex: "n < 16 \<Longrightarrow> hex_digit n \<noteq> CHR 0x0A \<and> hex_digit n \<noteq> CHR 0x0D"
proof -
  assume "n < 16"
  then have "n \<in> set [0..<16]" by simp
  moreover have "\<forall>n \<in> set [0..<16]. hex_digit n \<noteq> CHR 0x0A \<and> hex_digit n \<noteq> CHR 0x0D"
    by code_simp
  ultimately show ?thesis by blast
qed

lemma no_breaks_escape: "no_breaks (escape_char c)"
proof -
  have "(of_char c :: nat) < 32 \<Longrightarrow> of_char c div 16 < (16::nat)" by simp
  then show ?thesis by (auto simp: escape_char_def no_breaks_hex)
qed

lemma no_breaks_dumps_str: "no_breaks (dumps_str s)"
  by (induction s) (simp_all add: dumps_str_def no_breaks_escape)

lemma no_breaks_digits: "\<forall>c \<in> set s. is_digit c \<Longrightarrow> no_breaks s"
  by (auto simp: no_breaks_def is_digit_def)

lemma no_breaks_show_int: "no_breaks (show_int i)"
  by (auto simp: show_int_def intro!: no_breaks_digits dest: show_nat_digits)

lemma no_breaks_takeWhile: "no_breaks (takeWhile is_digit s)"
  by (intro no_breaks_digits) (auto dest: set_takeWhileD)

lemma no_breaks_number_parts:
  "no_breaks (num_sign s)" "no_breaks (num_int s)" "no_breaks (num_frac s)" "no_breaks (num_exp s)"
proof -
  show "no_breaks (num_sign s)" by (auto simp: num_sign_def split: list.split)
  show "no_breaks (num_int s)"
    using no_breaks_takeWhile [of s] by (auto simp: num_int_def split: list.split)
  show "no_breaks (num_frac s)"
    by (auto simp: num_frac_def no_breaks_takeWhile split: list.split)
  show "no_breaks (num_exp s)"
    by (auto simp: num_exp_def exp_sign_def Let_def no_breaks_takeWhile split: list.split)
qed

lemma no_breaks_wf_float: "wf_float t \<Longrightarrow> no_breaks t"
  by (auto simp: wf_float_def parse_number_def Let_def no_breaks_number_parts split: if_splits)
    (metis no_breaks_number_parts no_breaks_simps(3))+

lemma no_breaks_dumps:
  shows "wf_json v \<Longrightarrow> no_breaks (dumps v)"
    and "wf_items vs \<Longrightarrow> no_breaks (dumps_items vs)"
    and "wf_members kvs \<Longrightarrow> no_breaks (dumps_members kvs)"
  by (induction v and vs and kvs rule: dumps_dumps_items_dumps_members.induct)
    (simp_all add: no_breaks_dumps_str no_breaks_show_int no_breaks_wf_float)

lemma no_breaks_dumps_sorted: "wf_json v \<Longrightarrow> no_breaks (dumps_sorted v)"
  by (simp add: dumps_sorted_def no_breaks_dumps wf_json_sort_keys)

lemma dumps_members_end: "\<exists>u. dumps_members kvs = u @ ''}''"
proof (induction kvs)
  case Nil
  then show ?case by simp
next
  case (Cons kv kvs)
  obtain k v where kv: "kv = (k, v)" by (cases kv)
  show ?case
  proof (cases kvs)
    case Nil
    then show ?thesis by (simp add: kv)
  next
    case (Cons m ms)
    from Cons.IH obtain u where "dumps_members (m # ms) = u @ ''}''" using Cons by auto
    then show ?thesis
      using Cons by (auto simp: kv intro!: exI [of _ "dumps_str k @ '': '' @ dumps v @ '', '' @ u"])
  qed
qed

lemma strip_dumps_obj: "strip (dumps (JObj kvs)) = dumps (JObj kvs)"
proof -
  obtain u where "dumps_members kvs = u @ ''}''" using dumps_members_end by blast
  then show ?thesis using strip_braces [of u] by simp
qed

end
