(* ===== verification/AuditGate.thy ===== *)
theory AuditGate
  imports ReconcileProps PyRepr
begin

text \<open>
  \<open>koguchi/audit.py\<close>, \<open>koguchi/rde.py\<close> and \<open>koguchi/integrations/joujou.py\<close>:
  the audit gate in front of the proxy, the schema of a meaning-change review, and the adapter
  that audits the creation of a todo. The properties say what a caller of the two gates may
  conclude from their answers.
\<close>

subsection \<open>The audit gate\<close>

record audit_result =
  ar_action_id :: string
  ar_result :: proxy_result
  ar_side_effect :: "side_effect option"

definition audit ::
  "py_env \<Rightarrow> ('s, 'd) tool_proxy \<Rightarrow> string \<Rightarrow> string \<Rightarrow> string \<Rightarrow> string \<Rightarrow> string list
     \<Rightarrow> string option \<Rightarrow> (string \<times> json) list option \<Rightarrow> string option
     \<Rightarrow> (('s, 'd) world, audit_result) py" where
  "audit E px tool target params_digest scope risk intent context data w =
     (let action_id = uuid4 E (w_tick w);
          envelope = \<lparr>env_action_id = action_id, env_tool = tool, env_target = target,
             env_parameters_digest = params_digest, env_expected_result_digest = None,
             env_permission_scope = scope, env_risk_class = risk, env_redaction_policy = None\<rparr>
      in (case write_file E px (Some envelope) (case data of None \<Rightarrow> [] | Some b \<Rightarrow> b) intent context
                 (w\<lparr>w_tick := Suc (w_tick w)\<rparr>) of
            (Inl e, w1) \<Rightarrow> (Inl e, w1)
          | (Inr r, w1) \<Rightarrow>
              (case es_events_for (tp_store px) action_id (w_store w1) of
                 Inl e \<Rightarrow> (Inl e, w1)
               | Inr events \<Rightarrow>
                   (Inr \<lparr>ar_action_id = action_id, ar_result = r,
                         ar_side_effect = (case events of [] \<Rightarrow> None | e # _ \<Rightarrow> ev_side_effect e)\<rparr>,
                    w1))))"

subsection \<open>Reviews\<close>

datatype rde_category = PRESERVED | TRANSFORMED | SUPPLEMENTED | UNRESOLVED | RISK | NEXT_POLICY

record rde_hint =
  rh_preserved :: "string list"
  rh_transformed :: "string list"
  rh_supplemented :: "string list"
  rh_unresolved :: "string list"
  rh_risks :: "string list"
  rh_next_policy :: "string option"

record rde_review =
  rr_review_id :: string
  rr_action_id :: string
  rr_hint :: rde_hint
  rr_reviewer :: "string option"
  rr_automated :: bool

definition make_review :: "py_env \<Rightarrow> nat \<Rightarrow> string \<Rightarrow> rde_hint \<Rightarrow> rde_review" where
  "make_review E i action_id hint =
     \<lparr>rr_review_id = uuid4 E i, rr_action_id = action_id, rr_hint = hint, rr_reviewer = None,
      rr_automated = False\<rparr>"

definition assert_preserved :: "rde_hint \<Rightarrow> string \<Rightarrow> exn + unit" where
  "assert_preserved hint expected =
     (if expected \<in> set (rh_preserved hint) then Inr ()
      else Inl (AssertionError (''Expected '' @ [CHR 0x27] @ expected @ [CHR 0x27]
             @ '' in preserved, got '' @ list_repr (map str_repr (rh_preserved hint)))))"

definition assert_risk_declared :: "rde_hint \<Rightarrow> string \<Rightarrow> exn + unit" where
  "assert_risk_declared hint keyword =
     (if \<exists>r \<in> set (rh_risks hint). str_in keyword r then Inr ()
      else Inl (AssertionError (''Expected risk containing '' @ [CHR 0x27] @ keyword @ [CHR 0x27]
             @ '' in risks, got '' @ list_repr (map str_repr (rh_risks hint)))))"

definition assert_no_unresolved_hidden :: "rde_hint \<Rightarrow> exn + unit" where
  "assert_no_unresolved_hidden hint =
     (if rh_unresolved hint \<noteq> [] \<and> rh_risks hint = []
      then Inl (AssertionError (''Unresolved items exist but no risks declared. ''
             @ ''Unresolved items should have corresponding risk notes.''))
      else Inr ())"

subsection \<open>The todo adapter\<close>

record todo_input =
  td_title :: string
  td_body :: "string option"
  td_target :: "string option"
  td_source :: string
  td_context_summary :: "string option"
  td_rde :: "rde_hint option"

record todo_result =
  tr_provider :: string
  tr_external_id :: string
  tr_url :: "string option"
  tr_title :: string
  tr_status :: string
  tr_audit_record_id :: "string option"

definition hint_json :: "rde_hint \<Rightarrow> json" where
  "hint_json h = JObj
     [(''preserved'', JArr (map JStr (rh_preserved h))),
      (''transformed'', JArr (map JStr (rh_transformed h))),
      (''supplemented'', JArr (map JStr (rh_supplemented h))),
      (''unresolved'', JArr (map JStr (rh_unresolved h))),
      (''risks'', JArr (map JStr (rh_risks h))),
      (''next_policy'', opt_str (rh_next_policy h))]"

definition todo_json :: "todo_input \<Rightarrow> json" where
  "todo_json td = JObj
     [(''title'', JStr (td_title td)),
      (''body'', opt_str (td_body td)),
      (''target'', opt_str (td_target td)),
      (''source'', JStr (td_source td)),
      (''context_summary'', opt_str (td_context_summary td)),
      (''rde'', (case td_rde td of None \<Rightarrow> JNull | Some h \<Rightarrow> hint_json h))]"

definition todo_result_json :: "todo_result \<Rightarrow> json" where
  "todo_result_json r = JObj
     [(''provider'', JStr (tr_provider r)),
      (''external_id'', JStr (tr_external_id r)),
      (''url'', opt_str (tr_url r)),
      (''title'', JStr (tr_title r)),
      (''status'', JStr (tr_status r)),
      (''audit_record_id'', opt_str (tr_audit_record_id r))]"

record 's todo_gate =
  tg_workspace :: string
  tg_proxy :: "('s, decision_db) tool_proxy"

text \<open>\<open>str(Path(a) / b / ..)\<close>, which keeps \<open>..\<close> and drops empty components.\<close>

definition pure_path_str :: "bool \<Rightarrow> path \<Rightarrow> string" where
  "pure_path_str absolute p =
     (if absolute then path_str p else if p = [] then ''.'' else join ''/'' p)"

definition audit_target :: "'s todo_gate \<Rightarrow> string \<Rightarrow> string" where
  "audit_target g record_id =
     (let name = record_id @ ''.json''
      in if starts_with name ''/'' then pure_path_str True (path_parts name)
         else pure_path_str (starts_with (tg_workspace g) ''/'')
                (path_parts (tg_workspace g) @ [''.koguchi'', ''audit''] @ path_parts name))"

definition todo_gate_init ::
  "py_env \<Rightarrow> string \<Rightarrow> 's execution_store \<Rightarrow> policy_gate option \<Rightarrow> (('s, decision_db) world, 's todo_gate) py" where
  "todo_gate_init E workspace_dir store gate w =
     (case path_mkdir (resolve (getcwd E) workspace_dir @ [''.koguchi'', ''audit'']) (w_fs w) of
        (Inl e, fs1) \<Rightarrow> (Inl e, w\<lparr>w_fs := fs1\<rparr>)
      | (Inr _, fs1) \<Rightarrow>
          (Inr \<lparr>tg_workspace = workspace_dir,
                tg_proxy = tool_proxy_init E workspace_dir store None None gate None\<rparr>,
           w\<lparr>w_fs := fs1\<rparr>))"

definition todo_envelope :: "'s todo_gate \<Rightarrow> string \<Rightarrow> todo_input \<Rightarrow> string \<Rightarrow> action_envelope" where
  "todo_envelope g record_id todo params_digest =
     \<lparr>env_action_id = record_id, env_tool = ''todo.create'',
      env_target = audit_target g record_id, env_parameters_digest = params_digest,
      env_expected_result_digest = None,
      env_permission_scope = ''todo:create:'' @
        (case td_target todo of None \<Rightarrow> ''auto'' | Some x \<Rightarrow> if x = [] then ''auto'' else x),
      env_risk_class = [''external_api_write'', ''todo_creation''],
      env_redaction_policy = Some ''without_context''\<rparr>"

definition before_create_todo ::
  "py_env \<Rightarrow> 's todo_gate \<Rightarrow> todo_input \<Rightarrow> string \<Rightarrow> (string \<times> json) list option
     \<Rightarrow> (('s, decision_db) world, string) py" where
  "before_create_todo E g todo intent context w =
     (let record_id = uuid4 E (w_tick w);
          params_digest = sha256 E (dumps_sorted (todo_json todo))
      in (case write_file E (tg_proxy g) (Some (todo_envelope g record_id todo params_digest))
                 (dumps (todo_json todo)) (Some intent) context (w\<lparr>w_tick := Suc (w_tick w)\<rparr>) of
            (Inl e, w1) \<Rightarrow> (Inl e, w1)
          | (Inr r, w1) \<Rightarrow>
              if r = REJECTED
              then (Inl (PermissionError (''Todo creation denied by policy: '' @ td_title todo)), w1)
              else (Inr record_id, w1)))"

definition after_create_todo_success ::
  "py_env \<Rightarrow> 's todo_gate \<Rightarrow> string \<Rightarrow> todo_input \<Rightarrow> todo_result \<Rightarrow> (('s, decision_db) world, unit) py" where
  "after_create_todo_success E g record_id todo result w =
     (case write_file E (tg_proxy g) (Some (todo_envelope g record_id todo ''unused''))
             (dumps (todo_result_json result)) (Some ''audit commit for todo.create'') None w of
        (Inl e, w1) \<Rightarrow> (Inl e, w1)
      | (Inr r, w1) \<Rightarrow>
          if r = UNCONFIRMED
          then (Inl (UnconfirmedSideEffectError record_id (Some (tr_provider result))), w1)
          else (Inr (), w1))"

definition after_create_todo_failure ::
  "py_env \<Rightarrow> 's todo_gate \<Rightarrow> string \<Rightarrow> todo_input \<Rightarrow> exn \<Rightarrow> (('s, decision_db) world, unit) py" where
  "after_create_todo_failure E g record_id todo error w =
     (case write_file E (tg_proxy g) (Some (todo_envelope g record_id todo ''unused''))
             (exn_str error) (Some ''audit failure record for todo.create'') None w of
        (Inl e, w1) \<Rightarrow> (Inl e, w1)
      | (Inr _, w1) \<Rightarrow> (Inr (), w1))"

subsection \<open>What the answers mean\<close>

abbreviation write_call :: "action_envelope \<Rightarrow> string \<Rightarrow> string option
    \<Rightarrow> (string \<times> json) list option \<Rightarrow> tool_call" where
  "write_call env content intent ctx \<equiv> WriteFile (Some env) content intent ctx"

text \<open>A write that was not turned away has its intent on disk, on top of the log.\<close>

lemma write_intent:
  fixes w :: "(exec_db, 'd) world"
  assumes "tp_store px = sqlite_execution_store" "exec_inv (w_store w)"
    and "write_file E px (Some env) content intent ctx w = (Inr r, w')" "r \<noteq> REJECTED"
  obtains p es where "exec_w w' = exec_w w @ p # es" "p \<in> set (disk_w w')"
    "call_event E env intent Intent_Pending SE_None p" "exec_inv (w_store w')"
    "r = SUCCESS \<longrightarrow> (\<exists>e. es = [e] \<and> call_event E env intent Execution_Committed SE_Confirmed e)"
proof -
  let ?sh = "\<lambda>_ _ _ fs. (TimeoutExpired, fs)" and ?get = "\<lambda>_ _ _. HttpTimeout []"
  have run: "run_call E px ?sh ?get (write_call env content intent ctx) w = (Inr r, w')"
    using assms(3) by simp
  note inv = run_call_exec_inv [OF assms(1,2) run]
  from call_phases [OF assms(1,2) run] assms(4) have
    ph: "sq.two_phase E env intent (attempts E px ?sh ?get (write_call env content intent ctx) env) (Inr r) w w'"
    by (auto simp: turned_away_def)
  from ph show ?thesis
  proof (cases rule: phases_cases)
    case (attempted refs att s p)
    have d: "exec_durable s = exec_log s" using attempted by simp
    have f: "attempt_form intent refs att" using attempts_form [OF attempted(1)] by simp
    from attempted(7) f d show ?thesis
      by (cases rule: concluded_results)
        (use that attempted inv in \<open>auto dest: spec [of _ "[]"]\<close>)
  qed (use assms(4) in auto)
qed

text \<open>\<open>audit\<close> reports \<open>side_effect_observed\<close> from the first event of the action, which is
  its intent: it says \<open>none\<close> for every call that was not rejected, also when the committed event
  says \<open>confirmed\<close>.\<close>

theorem audit_reports_none:
  fixes w :: "(exec_db, 'd) world"
  assumes "tp_store px = sqlite_execution_store" "exec_inv (w_store w)"
    and "uuid4 E (w_tick w) \<notin> ev_record_id ` set (exec_w w)"
    and "audit E px tool tgt dg scope risk intent ctx data w = (Inr res, w')" "ar_result res \<noteq> REJECTED"
  shows "ar_side_effect res = Some SE_None
    \<and> (ar_result res = SUCCESS \<longrightarrow> (\<exists>e \<in> set (exec_w w'). ev_record_id e = ar_action_id res
         \<and> ev_event_type e = Execution_Committed \<and> ev_side_effect e = Some SE_Confirmed))"
proof -
  let ?id = "uuid4 E (w_tick w)" and ?w = "w\<lparr>w_tick := Suc (w_tick w)\<rparr>"
  let ?env = "\<lparr>env_action_id = ?id, env_tool = tool, env_target = tgt, env_parameters_digest = dg,
      env_expected_result_digest = None, env_permission_scope = scope, env_risk_class = risk,
      env_redaction_policy = None\<rparr>"
  obtain r w1 where wr: "write_file E px (Some ?env) (case data of None \<Rightarrow> [] | Some b \<Rightarrow> b) intent ctx ?w
      = (Inr r, w1)"
    using assms(4) by (auto simp: audit_def Let_def split: prod.splits sum.splits)
  obtain evs where ev: "es_events_for (tp_store px) ?id (w_store w1) = Inr evs"
      "res = \<lparr>ar_action_id = ?id, ar_result = r,
         ar_side_effect = (case evs of [] \<Rightarrow> None | e # _ \<Rightarrow> ev_side_effect e)\<rparr>" "w' = w1"
    using assms(4) wr by (auto simp: audit_def Let_def split: prod.splits sum.splits)
  have r: "r \<noteq> REJECTED" using assms(5) ev(2) by simp
  have i: "exec_inv (w_store ?w)" using assms(2) by simp
  from write_intent [OF assms(1) i wr r] obtain p es where
    p: "exec_w w1 = exec_w ?w @ p # es" "p \<in> set (disk_w w1)"
      "call_event E ?env intent Intent_Pending SE_None p" "exec_inv (w_store w1)"
      "r = SUCCESS \<longrightarrow> (\<exists>e. es = [e] \<and> call_event E ?env intent Execution_Committed SE_Confirmed e)" .
  have "evs = filter (\<lambda>e. ev_record_id e = ?id) (exec_w w1)"
    using ev(1) sq.events_for_log [OF p(4), of ?id] assms(1) by simp
  moreover have "filter (\<lambda>e. ev_record_id e = ?id) (exec_w w) = []"
    using assms(3) by (force simp: filter_empty_conv)
  ultimately have "\<exists>rest. evs = p # rest" using p(1,3) by (simp add: call_event_def)
  with ev(2) p(3) have "ar_side_effect res = Some SE_None" by (auto simp: call_event_def)
  moreover have "\<exists>e \<in> set (exec_w w'). ev_record_id e = ar_action_id res
         \<and> ev_event_type e = Execution_Committed \<and> ev_side_effect e = Some SE_Confirmed"
    if "ar_result res = SUCCESS"
    using that p(1,5) ev by (auto simp: call_event_def)
  ultimately show ?thesis by blast
qed

text \<open>C39: when \<open>before_create_todo\<close> returns a record id, the intent of the todo is on disk under
  that id, before the provider is called.\<close>

theorem todo_intent_durable:
  fixes w :: "(exec_db, decision_db) world"
  assumes "tp_store (tg_proxy g) = sqlite_execution_store" "exec_inv (w_store w)"
    and "before_create_todo E g todo intent ctx w = (Inr rid, w')"
  shows "\<exists>p \<in> set (disk_w w'). ev_record_id p = rid \<and> ev_event_type p = Intent_Pending
    \<and> ev_intent p = Some intent \<and> event_sealed (sha256 E) p"
proof -
  let ?w = "w\<lparr>w_tick := Suc (w_tick w)\<rparr>"
  let ?env = "todo_envelope g (uuid4 E (w_tick w)) todo (sha256 E (dumps_sorted (todo_json todo)))"
  obtain r where wr: "write_file E (tg_proxy g) (Some ?env) (dumps (todo_json todo)) (Some intent) ctx ?w
      = (Inr r, w')" "r \<noteq> REJECTED" "rid = uuid4 E (w_tick w)"
    using assms(3) by (auto simp: before_create_todo_def Let_def split: prod.splits sum.splits if_splits)
  have i: "exec_inv (w_store ?w)" using assms(2) by simp
  from write_intent [OF assms(1) i wr(1,2)] obtain p where "p \<in> set (disk_w w')"
    "call_event E ?env (Some intent) Intent_Pending SE_None p" by blast
  with wr(3) show ?thesis by (intro bexI [of _ p]) (auto simp: call_event_def todo_envelope_def)
qed

text \<open>An in-flight todo is invisible to recovery: once the intent file of
  \<open>before_create_todo\<close> has been written and recorded, no later log reports the record as
  pending, whatever happens to the call of the provider that follows.\<close>

theorem todo_in_flight_not_pending:
  fixes w :: "(exec_db, decision_db) world"
  assumes "tp_store (tg_proxy g) = sqlite_execution_store" "exec_inv (w_store w)"
    and "before_create_todo E g todo intent ctx w = (Inr rid, w')"
    and "write_file E (tg_proxy g) (Some (todo_envelope g rid todo (sha256 E (dumps_sorted (todo_json todo)))))
           (dumps (todo_json todo)) (Some intent) ctx (w\<lparr>w_tick := Suc (w_tick w)\<rparr>) = (Inr SUCCESS, w')"
    and "prefix (exec_w w') later"
  shows "rid \<notin> ev_record_id ` set (pending_events later)"
proof -
  let ?w = "w\<lparr>w_tick := Suc (w_tick w)\<rparr>"
  have i: "exec_inv (w_store ?w)" using assms(2) by simp
  from write_intent [OF assms(1) i assms(4)] obtain p e where
    "exec_w w' = exec_w ?w @ [p, e]" and ce: "call_event E (todo_envelope g rid todo
       (sha256 E (dumps_sorted (todo_json todo)))) (Some intent) Execution_Committed SE_Confirmed e"
    by blast
  moreover from ce have "ev_event_type e = Execution_Committed" "ev_record_id e = rid"
    by (simp_all add: call_event_def todo_envelope_def)
  ultimately have "closes e" "e \<in> set later" "ev_record_id e = rid"
    using assms(5) by (auto simp: prefix_def closes_def)
  then have "rid \<in> ev_record_id ` {x \<in> set later. closes x}" by force
  then show ?thesis unfolding pending_events_def set_filter set_map by blast
qed

subsection \<open>Witnesses\<close>

definition env_audit :: action_envelope where
  "env_audit = \<lparr>env_action_id = uuid4 E0 0, env_tool = ''filesystem.write'', env_target = ''/ws/a.txt'',
     env_parameters_digest = ''d'', env_expected_result_digest = None, env_permission_scope = ''s'',
     env_risk_class = [], env_redaction_policy = None\<rparr>"

lemma demo_audit_write:
  "fst (write_file E0 px0 (Some env_audit) ''hi'' None None ((world_with [] [] [])\<lparr>w_tick := Suc 0\<rparr>))
     = Inr SUCCESS"
  by (simp add: env_audit_def demo_eval)

lemma demo_audit:
  "\<exists>res w'. audit E0 px0 ''filesystem.write'' ''/ws/a.txt'' ''d'' ''s'' [] None None (Some ''hi'')
     (world_with [] [] []) = (Inr res, w') \<and> ar_result res = SUCCESS"
proof -
  let ?w = "(world_with [] [] [])\<lparr>w_tick := Suc 0\<rparr>"
  obtain w1 where w1: "write_file E0 px0 (Some env_audit) ''hi'' None None ?w = (Inr SUCCESS, w1)"
    using split_result [OF demo_audit_write] by blast
  have "exec_inv (w_store ?w)" by simp
  from write_file_inv [OF px0_simps(1) this w1] have i: "exec_inv (w_store w1)" .
  have t: "w_tick (world_with [] [] []) = 0" by (simp add: world_with_def)
  show ?thesis
    using w1 sq.events_for_log [OF i, of "uuid4 E0 0"]
    by (simp add: audit_def t env_audit_def Let_def)
qed

theorem audit_reports_none_witness:
  "\<exists>res w'. audit E0 px0 ''filesystem.write'' ''/ws/a.txt'' ''d'' ''s'' [] None None (Some ''hi'')
     (world_with [] [] []) = (Inr res, w') \<and> ar_result res = SUCCESS \<and> ar_side_effect res = Some SE_None"
proof -
  obtain res w' where a: "audit E0 px0 ''filesystem.write'' ''/ws/a.txt'' ''d'' ''s'' [] None None (Some ''hi'')
     (world_with [] [] []) = (Inr res, w')" "ar_result res = SUCCESS"
    using demo_audit by blast
  have "ar_result res \<noteq> REJECTED" using a(2) by simp
  from audit_reports_none [OF px0_simps(1) world_with_inv _ a(1) this] a show ?thesis by auto
qed

definition g0 :: "exec_db todo_gate" where
  "g0 = \<lparr>tg_workspace = ''/ws'', tg_proxy = tool_proxy_init E0 ''/ws'' sqlite_execution_store None None None None\<rparr>"

definition todo0 :: todo_input where
  "todo0 = \<lparr>td_title = ''x'', td_body = None, td_target = None, td_source = ''manual'',
     td_context_summary = None, td_rde = None\<rparr>"

definition todo_world :: "db_fault list \<Rightarrow> (exec_db, decision_db) world" where
  "todo_world wfs = (world_with wfs [] [])\<lparr>w_fs := \<lparr>fs_nodes =
     [([''ws''], Dir), ([''ws'', ''.koguchi''], Dir), ([''ws'', ''.koguchi'', ''audit''], Dir)],
     fs_unreadable = [], fs_faults = []\<rparr>\<rparr>"

lemma digit_0: "char_of (48 :: nat) = CHR ''0''"
  by code_simp

lemmas todo_eval = digit_0 g0_def todo0_def todo_world_def before_create_todo_def after_create_todo_success_def
  todo_envelope_def audit_target_def pure_path_str_def path_str_def Let_def demo_eval

lemma g0_store [simp]: "tp_store (tg_proxy g0) = sqlite_execution_store"
  by (simp add: g0_def tool_proxy_init_def)

lemma todo_world_inv [simp]: "exec_inv (w_store (todo_world wfs))"
  by (simp add: todo_world_def)

lemma demo_before: "before_create_todo E0 g0 todo0 ''why'' None (todo_world [])
    = (Inr ''id-0'', snd (before_create_todo E0 g0 todo0 ''why'' None (todo_world [])))"
  by (rule split_result) (simp add: todo_eval)

theorem todo_intent_durable_witness:
  "\<exists>p \<in> set (disk_w (snd (before_create_todo E0 g0 todo0 ''why'' None (todo_world [])))).
     ev_record_id p = ''id-0'' \<and> ev_intent p = Some ''why''"
  using todo_intent_durable [OF g0_store todo_world_inv demo_before] by auto

lemma demo_before_write:
  "write_file E0 (tg_proxy g0) (Some (todo_envelope g0 ''id-0'' todo0 (sha256 E0 (dumps_sorted (todo_json todo0)))))
     (dumps (todo_json todo0)) (Some ''why'') None ((todo_world [])\<lparr>w_tick := Suc (w_tick (todo_world []))\<rparr>)
   = (Inr SUCCESS, snd (before_create_todo E0 g0 todo0 ''why'' None (todo_world [])))"
proof -
  have u: "uuid4 E0 (w_tick (todo_world [])) = ''id-0''"
    by (simp add: todo_world_def world_with_def E0_def show_nat.simps digit_def digit_0)
  let ?wr = "write_file E0 (tg_proxy g0) (Some (todo_envelope g0 ''id-0'' todo0
      (sha256 E0 (dumps_sorted (todo_json todo0))))) (dumps (todo_json todo0)) (Some ''why'') None
      ((todo_world [])\<lparr>w_tick := Suc (w_tick (todo_world []))\<rparr>)"
  have "fst ?wr = Inr SUCCESS" by (simp add: todo_eval)
  then have r: "?wr = (Inr SUCCESS, snd ?wr)" by (rule split_result)
  have "before_create_todo E0 g0 todo0 ''why'' None (todo_world []) = (Inr ''id-0'', snd ?wr)"
    unfolding before_create_todo_def Let_def u by (subst r) simp
  with r show ?thesis by simp
qed

theorem todo_in_flight_not_pending_witness:
  "''id-0'' \<notin> ev_record_id ` set (pending_events
     (exec_w (snd (before_create_todo E0 g0 todo0 ''why'' None (todo_world [])))))"
  by (rule todo_in_flight_not_pending [OF g0_store todo_world_inv demo_before demo_before_write]) simp

text \<open>A commit that is rejected goes unnoticed: with a locked store,
  \<open>after_create_todo_success\<close> returns normally, although nothing was recorded and its contract
  says that a failure raises \<open>UnconfirmedSideEffectError\<close>.\<close>

theorem todo_commit_lost_silently:
  "fst (after_create_todo_success E0 g0 ''r'' todo0
      \<lparr>tr_provider = ''p'', tr_external_id = ''e'', tr_url = None, tr_title = [], tr_status = ''created'',
       tr_audit_record_id = None\<rparr> (todo_world [InsertFails ''locked''])) = Inr ()
   \<and> visible (w_store (snd (after_create_todo_success E0 g0 ''r'' todo0
      \<lparr>tr_provider = ''p'', tr_external_id = ''e'', tr_url = None, tr_title = [], tr_status = ''created'',
       tr_audit_record_id = None\<rparr> (todo_world [InsertFails ''locked''])))) = []"
  by (simp add: todo_eval)

end
