(* ===== verification/StoreProps.thy ===== *)
theory StoreProps
  imports Fixtures
begin

text \<open>
  Properties of the stores and of what they are built from: the canonical encoding, the chain and
  what it does and does not detect, the queries as a refinement of the log, decisions, messages
  and redaction.
\<close>

subsection \<open>The canonical encoding\<close>

text \<open>Two values have the same canonical encoding exactly when they are the same value up to
  the order of the members of their objects, and what is encoded can be read back.\<close>

theorem canonical_encoding:
  assumes "wf_json v" "wf_json w"
  shows "(canonical_serialize v = canonical_serialize w \<longleftrightarrow> sort_keys v = sort_keys w)
    \<and> loads (canonical_serialize v) = Inr (sort_keys v)"
  using dumps_sorted_inj [OF assms] loads_dumps_sorted [OF assms(1)]
  by (auto simp: canonical_serialize_def) (metis dumps_sorted_sort_keys)

lemma ab_order: "(''b'' :: string) \<le> ''a'' \<longleftrightarrow> False" "(''a'' :: string) \<le> ''b''"
  by code_simp+

theorem canonical_encoding_witness:
  "loads (canonical_serialize (JObj [(''b'', JInt 1), (''a'', JArr [JStr ''x'', JNull])]))
     = Inr (JObj [(''a'', JArr [JStr ''x'', JNull]), (''b'', JInt 1)])"
  using canonical_encoding [of "JObj [(''b'', JInt 1), (''a'', JArr [JStr ''x'', JNull])]" JNull]
  by (simp add: ab_order)

text \<open>C22: an event survives the store: what \<open>append\<close> writes into the payload column is read back
  by the queries as the same event, whatever strings it holds.\<close>

theorem event_payload_round_trip:
  assumes "wf_event e"
  shows "decode_event (row_payload (row_of_event e)) = Inr e"
  using assms by (rule decode_row)

theorem event_payload_round_trip_witness:
  "decode_event (row_payload (row_of_event \<lparr>ev_event_id = [CHR 0x22, CHR 0x5C], ev_record_id = [],
     ev_timestamp = ''T'', ev_event_type = Reconciliation_Observed, ev_envelope = None,
     ev_result_digest = None, ev_error_digest = None, ev_side_effect = Some SE_Unknown,
     ev_confidence = Some ''0.95'', ev_previous_hash = Some ''p'', ev_hash = ''h'', ev_intent = None,
     ev_decision_ref = None, ev_context_ref = None, ev_rde_ref = None\<rparr>))
   = Inr \<lparr>ev_event_id = [CHR 0x22, CHR 0x5C], ev_record_id = [],
     ev_timestamp = ''T'', ev_event_type = Reconciliation_Observed, ev_envelope = None,
     ev_result_digest = None, ev_error_digest = None, ev_side_effect = Some SE_Unknown,
     ev_confidence = Some ''0.95'', ev_previous_hash = Some ''p'', ev_hash = ''h'', ev_intent = None,
     ev_decision_ref = None, ev_context_ref = None, ev_rde_ref = None\<rparr>"
  by (rule event_payload_round_trip) (simp add: wf_event_def, code_simp)

subsection \<open>The store as a log\<close>

text \<open>C8: the store refines the log of events: on a database that only \<open>append\<close> wrote, every query
  is the filter of the log that its SQL states, and an \<open>append\<close> that returns adds exactly its
  event, on disk.\<close>

theorem store_refines_log:
  assumes "exec_inv db"
  shows "exec_pending db = Inr (pending_events (exec_log db))
    \<and> exec_committed db = Inr (committed_events (exec_log db))
    \<and> exec_events_for rid db = Inr (filter (\<lambda>e. ev_record_id e = rid) (exec_log db))
    \<and> (\<forall>e db'. wf_event e \<and> exec_append e db = (Inr (), db') \<longrightarrow>
         exec_inv db' \<and> exec_log db' = exec_log db @ [e] \<and> exec_durable db' = exec_log db')"
proof -
  have "exec_inv db' \<and> exec_log db' = exec_log db @ [e] \<and> exec_durable db' = exec_log db'"
    if "wf_event e" "exec_append e db = (Inr (), db')" for e db'
    using sq.append_ok [OF assms that(1)] that(2) by (simp add: sqlite_execution_store_def)
  then show ?thesis
    using exec_pending_log [OF assms] exec_committed_log [OF assms] exec_events_for_log [OF assms]
    by blast
qed

lemma empty_inv [simp]: "exec_inv (empty_exec_db wfs rfs)"
  by (simp add: exec_inv_def empty_exec_db_def visible_def)

lemma empty_log: "exec_log (empty_exec_db wfs rfs) = []"
  by (simp add: exec_log_def empty_exec_db_def visible_def)

theorem store_refines_log_witness:
  "exec_pending (empty_exec_db [] []) = Inr []"
  using store_refines_log [OF empty_inv, of "[]" "[]"] by (simp add: empty_log pending_events_def)

text \<open>A failed commit is not undone: the row whose commit failed stays in the open transaction
  and the next successful \<open>append\<close> writes it to disk with its own.\<close>

theorem failed_commit_becomes_durable:
  assumes "write_faults db = CommitFails m # NoFault # fs"
    and "ev_event_id e \<notin> set (map row_event_id (visible db))"
    and "ev_event_id e' \<notin> set (map row_event_id (visible db))" "ev_event_id e' \<noteq> ev_event_id e"
  shows "fst (exec_append e db) = Inl (StoreWriteError m)
    \<and> fst (exec_append e' (snd (exec_append e db))) = Inr ()
    \<and> durable (snd (exec_append e' (snd (exec_append e db))))
        = visible db @ [row_of_event e, row_of_event e']"
proof -
  have "exec_append e db = (Inl (StoreWriteError m),
      db\<lparr>write_faults := NoFault # fs, staged := staged db @ [row_of_event e]\<rparr>)"
    using assms(1,2) by (simp add: exec_append_def next_fault_def Let_def)
  then show ?thesis
    using assms(3,4) by (simp add: exec_append_def next_fault_def Let_def visible_def)
qed

theorem failed_commit_becomes_durable_witness:
  "\<exists>e e'. length (durable (snd (exec_append e' (snd (exec_append e (empty_exec_db [CommitFails ''io'', NoFault] [])))))) = 2"
proof -
  let ?e = "\<lambda>i. \<lparr>ev_event_id = i, ev_record_id = [], ev_timestamp = ''T'', ev_event_type = Intent_Pending,
     ev_envelope = None, ev_result_digest = None, ev_error_digest = None, ev_side_effect = None,
     ev_confidence = None, ev_previous_hash = None, ev_hash = ''h'', ev_intent = None,
     ev_decision_ref = None, ev_context_ref = None, ev_rde_ref = None\<rparr>"
  have "length (durable (snd (exec_append (?e ''b'') (snd (exec_append (?e ''a'')
      (empty_exec_db [CommitFails ''io'', NoFault] [])))))) = 2"
    using failed_commit_becomes_durable [of "empty_exec_db [CommitFails ''io'', NoFault] []" "''io''" "[]"
        "?e ''a''" "?e ''b''"]
    by (simp add: empty_exec_db_def visible_def)
  then show ?thesis by blast
qed

subsection \<open>Tamper evidence\<close>

text \<open>The two columns that \<open>verify_chain\<close> reads.\<close>

definition chain_columns :: "exec_db \<Rightarrow> (string \<times> string) list" where
  "chain_columns db = map (\<lambda>r. (row_payload r, row_hash r)) (visible db)"

lemma verify_chain_accepted:
  "verify_chain E db = Inr [] \<longleftrightarrow> rows_accepted (sha256 E) GENESIS_HASH (chain_columns db)"
  by (simp add: verify_chain_def verify_rows_Nil chain_columns_def)


lemma rows_accepted_take: "rows_accepted sha h rows \<Longrightarrow> rows_accepted sha h (take n rows)"
proof (induction rows arbitrary: h n)
  case Nil
  then show ?case by simp
next
  case (Cons row rows)
  then show ?case by (cases n) auto
qed

text \<open>What \<open>verify_chain\<close> does not detect, the loss of the newest events: every prefix of a
  database that passes, the empty one included, passes.\<close>

theorem verify_chain_accepts_truncation:
  assumes "verify_chain E db = Inr []"
  shows "verify_chain E (db\<lparr>durable := take n (visible db), staged := []\<rparr>) = Inr []"
  using assms rows_accepted_take [of _ _ "chain_columns db" n]
  by (simp add: verify_chain_accepted chain_columns_def visible_def take_map)

text \<open>What \<open>verify_chain\<close> does not detect, a change of the columns the queries select by: after
  the \<open>event_type\<close> column is overwritten the chain still passes, and nothing is pending.\<close>

theorem verify_chain_ignores_columns:
  assumes "verify_chain E db = Inr []"
  defines "blank \<equiv> db\<lparr>durable := map (\<lambda>r. r\<lparr>row_event_type := ''x''\<rparr>) (visible db), staged := []\<rparr>"
  shows "verify_chain E blank = Inr [] \<and> exec_pending blank = Inr []"
  using assms(1) by (simp add: blank_def verify_chain_def visible_def comp_def exec_pending_def decode_rows_def
      filter_map)

subsection \<open>A database of one event\<close>

definition ev1 :: execution_event where
  "ev1 = make_event E0 0 ''r'' Intent_Pending GENESIS_HASH None no_kwargs"

definition db1 :: exec_db where
  "db1 = \<lparr>durable = [row_of_event ev1], staged = [], write_faults = [], read_faults = []\<rparr>"

lemma wf_ev1: "wf_event ev1"
  by (simp add: ev1_def wf_make_event wf_kwargs_def)

lemma db1_log: "exec_inv db1" "exec_log db1 = [ev1]"
  using wf_ev1 by (simp_all add: db1_def exec_inv_def exec_log_def visible_def)

lemma db1_verifies: "verify_chain E0 db1 = Inr []"
proof (rule verify_chain_chained [OF db1_log(1)])
  show "sq.chained (event_sealed (sha256 E0)) db1"
    using make_event_sealed [of E0] by (simp add: sq.chained_def db1_log(2)) (simp add: ev1_def)
qed

lemma last_dumps_members: "dumps_members kvs \<noteq> [] \<and> last (dumps_members kvs) = CHR ''}''"
  by (induction kvs rule: induct_list012) (auto split: prod.splits)

lemma hd_sha_E0: "s \<noteq> [] \<Longrightarrow> hd (sha256 E0 s) = last s" "length (sha256 E0 s) = 64"
  by (simp_all add: E0_def hd_rev)

lemma db1_text: "\<exists>x. hashed_texts GENESIS_HASH (chain_columns db1) = [x] \<and> sha256 E0 x \<noteq> GENESIS_HASH"
proof -
  have acc: "row_accepted (sha256 E0) GENESIS_HASH (row_payload (row_of_event ev1), row_hash (row_of_event ev1))"
    using db1_verifies by (simp add: verify_chain_accepted chain_columns_def db1_def visible_def)
  from row_accepted_text(2) [OF acc] obtain kvs where
    "row_text GENESIS_HASH (row_payload (row_of_event ev1), row_hash (row_of_event ev1))
       = GENESIS_HASH @ dumps_sorted (JObj (drop_key ''hash'' kvs))"
    by (auto simp: hash_input_def canonical_serialize_def)
  moreover obtain ms where "sort_keys (JObj (drop_key ''hash'' kvs)) = JObj ms" by simp
  ultimately have x: "row_text GENESIS_HASH (row_payload (row_of_event ev1), row_hash (row_of_event ev1))
       = GENESIS_HASH @ CHR ''{'' # dumps_members ms" (is "?x = _")
    by (simp add: dumps_sorted_def del: sort_keys.simps)
  then have "last ?x = CHR ''}''" "?x \<noteq> []" using last_dumps_members [of ms] by simp_all
  then have "hd (sha256 E0 ?x) = CHR ''}''" by (simp add: hd_sha_E0)
  moreover have "hd GENESIS_HASH = CHR ''0''" by (simp add: GENESIS_HASH_def)
  ultimately have "sha256 E0 ?x \<noteq> GENESIS_HASH" by auto
  then show ?thesis by (simp add: chain_columns_def db1_def visible_def)
qed


theorem verify_chain_accepts_truncation_witness:
  "verify_chain E0 (db1\<lparr>durable := take 0 (visible db1), staged := []\<rparr>) = Inr []"
  by (rule verify_chain_accepts_truncation [OF db1_verifies])

theorem verify_chain_ignores_columns_witness:
  "exec_pending db1 = Inr [ev1] \<and>
   exec_pending (db1\<lparr>durable := map (\<lambda>r. r\<lparr>row_event_type := ''x''\<rparr>) (visible db1), staged := []\<rparr>) = Inr []"
  using verify_chain_ignores_columns [OF db1_verifies] exec_pending_log [OF db1_log(1)]
  by (simp add: db1_log(2) pending_events_def closes_def) (simp add: ev1_def)

subsection \<open>Decisions\<close>

text \<open>A decision that was recorded as the newest of its action is what \<open>get\<close> returns, with the
  keys of its context sorted.\<close>

theorem decision_get_after_record:
  assumes "decision_record E d db = (Inr (), db')"
    and "wf_decision d" "\<not> ends_with (d_timestamp d) ''+00:00''"
    and "\<forall>r \<in> set (d_visible db). dr_action_id r = d_action_id d
           \<longrightarrow> dr_timestamp r < isoformat (d_timestamp d)"
  shows "decision_get (d_action_id d) db' = Inr (Some (sorted_context d))"
proof -
  have v: "d_visible db' = d_visible db @ [row_of_decision d]"
    using decision_record_cases [OF assms(1)] by (auto simp: d_visible_def)
  have f: "dr_action_id (row_of_decision d) = d_action_id d"
    "dr_timestamp (row_of_decision d) = isoformat (d_timestamp d)"
    by (simp_all add: row_of_decision_def)
  have "latest (filter (\<lambda>r. dr_action_id r = d_action_id d) (d_visible db')) = Some (row_of_decision d)"
    unfolding v using assms(4) f by (simp add: latest_snoc)
  then show ?thesis
    using decision_of_row_of [OF assms(2,3)] by (simp add: decision_get_def)
qed

definition dec1 :: decision where
  "dec1 = make_decision E0 0 ''r'' ''why'' (Some [(''b'', JNull), (''a'', JInt 1)]) GENESIS_HASH"

theorem decision_get_after_record_witness:
  "decision_get ''r'' (snd (decision_record E0 dec1 (empty_decision_db [] []))) = Inr (Some (sorted_context dec1))"
proof -
  have r: "decision_record E0 dec1 (empty_decision_db [] [])
      = (Inr (), snd (decision_record E0 dec1 (empty_decision_db [] [])))"
    by (rule split_result) (simp add: decision_record_def empty_decision_db_def next_fault_def d_visible_def)
  have "wf_decision dec1" "\<not> ends_with (d_timestamp dec1) ''+00:00''" "d_action_id dec1 = ''r''"
    by (simp_all add: dec1_def wf_decision_def E0_def show_nat.simps ends_with_def)
  with decision_get_after_record [OF r] show ?thesis
    by (simp add: empty_decision_db_def d_visible_def)
qed

text \<open>\<open>verify_chain\<close> of the decision store checks the linkage and nothing else: it passes exactly
  when every row's \<open>previous_hash\<close> is the stored hash of the row before, so an intent or a context
  that was rewritten in place is not detected.\<close>

theorem decision_chain_checks_linkage_only:
  "(decision_verify_chain E db = Inr [] \<longleftrightarrow>
      linked_from dr_hash (\<lambda>r. Some (dr_previous_hash r)) GENESIS_HASH (d_visible db))
   \<and> (decision_verify_chain E db = Inr [] \<longrightarrow>
      decision_verify_chain E (db\<lparr>d_durable := map (\<lambda>r. r\<lparr>dr_intent := forged\<rparr>) (d_durable db),
        d_staged := map (\<lambda>r. r\<lparr>dr_intent := forged\<rparr>) (d_staged db)\<rparr>) = Inr [])"
proof -
  have "linked_from dr_hash (\<lambda>r. Some (dr_previous_hash r)) h (map (\<lambda>r. r\<lparr>dr_intent := forged\<rparr>) rs)
      = linked_from dr_hash (\<lambda>r. Some (dr_previous_hash r)) h rs" for h rs
    by (induction rs arbitrary: h) simp_all
  from this [of GENESIS_HASH "d_durable db @ d_staged db"] show ?thesis
    by (simp add: decision_verify_chain_def decision_verify_rows_Nil d_visible_def)
qed

theorem decision_chain_checks_linkage_only_witness:
  "decision_verify_chain E0 ((empty_decision_db [] [])\<lparr>d_durable := map (\<lambda>r. r\<lparr>dr_intent := ''forged''\<rparr>)
     [row_of_decision dec1]\<rparr>) = Inr []"
proof -
  have "decision_verify_chain E0 ((empty_decision_db [] [])\<lparr>d_durable := [row_of_decision dec1]\<rparr>) = Inr []"
    by (simp add: decision_verify_chain_def decision_verify_rows_Nil empty_decision_db_def d_visible_def
        row_of_decision_def dec1_def)
  with decision_chain_checks_linkage_only [of E0 "(empty_decision_db [] [])\<lparr>d_durable := [row_of_decision dec1]\<rparr>"
      "''forged''"]
  show ?thesis by (simp add: empty_decision_db_def)
qed

subsection \<open>Messages\<close>

lemma get_catalog_locale: "cur_locale (snd (get_catalog files loc st)) = cur_locale st"
  by (simp add: get_catalog_def Let_def split: option.splits)

lemma t_locale: "cur_locale (snd (t files key params st)) = cur_locale st"
  by (simp add: t_def Let_def get_catalog_locale case_prod_unfold)

text \<open>The catalog cache of \<open>t\<close> is invisible: in any state that calls of \<open>t\<close> and
  \<open>set_locale\<close> can reach, \<open>t\<close> answers what it would without a cache, and stays in such a state.\<close>

theorem message_cache_is_transparent:
  assumes "cache_ok files st"
  shows "fst (t files key params st) = translate files (cur_locale st) key params
    \<and> cache_ok files (snd (t files key params st)) \<and> cache_ok files (set_locale loc st)
    \<and> cur_locale (snd (t files key params st)) = cur_locale st"
  using t_cache_ok [OF assms] assms t_locale by (simp add: set_locale_def cache_ok_def)

theorem message_cache_is_transparent_witness:
  "fst (t (\<lambda>l. if l = ''en'' then Some [(''k'', ''v'')] else None) ''k'' [] (set_locale ''en'' (i18n_init None)))
     = Inr ''v''"
proof -
  let ?files = "\<lambda>l. if l = ''en'' then Some [(''k'', ''v'')] else None"
  have "cache_ok ?files (set_locale ''en'' (i18n_init None))"
    by (simp add: cache_ok_def set_locale_def i18n_init_def)
  from message_cache_is_transparent [OF this, of "''k''" "[]"] show ?thesis
    by (simp add: translate_def load_catalog_def set_locale_def expand_def)
qed

subsection \<open>Redaction\<close>

text \<open>Redaction is monotone: what a stricter policy shows in the clear of an event or a decision,
  a laxer one shows too, with the same value.\<close>

theorem redaction_monotone:
  assumes "p \<le> q"
  shows "disclosed (redact_event e p) \<subseteq> disclosed (redact_event e q)
    \<and> disclosed (redact_decision d p) \<subseteq> disclosed (redact_decision d q)"
  using redact_event_mono [OF assms] redact_decision_mono [OF assms] by blast

theorem redaction_monotone_witness:
  "disclosed (redact_event ev1 MINIMAL) \<subseteq> disclosed (redact_event ev1 WITHOUT_INTENT)"
  using redaction_monotone [of MINIMAL WITHOUT_INTENT ev1 dec1] by (simp add: less_eq_redaction_policy_def)

text \<open>C36: \<open>redact_dict\<close> masks every secret-like key at any depth of objects and of arrays of objects,
  keeps the keys and their order, and is idempotent; the hypothesis that no array holds an array is
  needed, since those are copied as they are.\<close>

theorem redact_dict_masks:
  assumes "flat kvs"
  shows "masked (members (redact_dict kvs)) \<and> map fst (redact_dict kvs) = map fst kvs
    \<and> redact_dict (redact_dict kvs) = redact_dict kvs"
  using masked_redact(1) [OF assms] redact_dict_keys redact_idem(1) by blast

theorem redact_dict_masks_witness:
  "masked (members (redact_dict [(''a'', JArr [JObj [(''API_KEY'', JStr ''s'')]])]))"
  by (rule redact_dict_masks [THEN conjunct1]) simp

theorem redact_dict_misses_nested_arrays:
  "redact_dict [(''a'', JArr [JArr [JObj [(''token'', JStr ''s'')]]])]
     = [(''a'', JArr [JArr [JObj [(''token'', JStr ''s'')]]])]
   \<and> redact_dict [(''a'', JArr [JObj [(''token'', JStr ''s'')]])]
     = [(''a'', JArr [JObj [(''token'', JStr REDACTED)]])]"
  by code_simp

lemma event_keys_plain:
  "\<forall>k \<in> set [''event_id'', ''record_id'', ''timestamp'', ''event_type'', ''side_effect_observed'',
     ''result_digest'', ''error_digest'', ''envelope'', ''confidence'', ''previous_hash'', ''hash'',
     ''decision_ref'', ''context_ref'', ''intent'', ''action_id'', ''tool'', ''target'',
     ''parameters_digest'', ''expected_result_digest'', ''permission_scope'', ''risk_class'',
     ''redaction_policy'']. \<not> secret_key k"
  by code_simp

lemma opt_str_members [simp]: "value_members (opt_str x) = []"
  by (cases x) simp_all

lemma items_members_strs [simp]: "items_members (map JStr ss) = []"
  by (induction ss) simp_all

lemma members_append: "members (xs @ ys) = members xs @ members ys"
  by (induction xs) auto

lemma event_members_plain: "\<forall>(k, v) \<in> set (members (redact_event e p)). \<not> secret_key k"
proof -
  note plain = event_keys_plain [simplified]
  show ?thesis
    using plain
    by (cases "ev_envelope e"; cases "ev_confidence e"; cases "p = MINIMAL")
      (auto simp: redact_event_def envelope_json_def members_append)
qed

text \<open>In an export the masking of secret-like keys has nothing to do: no field of an event or an
  envelope has a secret-like name, so \<open>export_events\<close> is the redaction alone, and a secret inside
  an intent or a target is exported as it is.\<close>

theorem export_masks_nothing:
  assumes "exec_inv db"
  shows "export_events db p = Inr (map (\<lambda>e. redact_event e p) (exec_log db))"
proof -
  have "decode_rows (visible db) = Inr (exec_log db)"
    using assms decode_rows_ok by (simp add: exec_inv_def exec_log_def)
  moreover have "redact_dict (redact_event e p) = redact_event e p" for e
    by (rule redact_plain(1) [OF event_members_plain])
  ultimately show ?thesis by (simp add: export_events_def redact_events_def)
qed

theorem export_masks_nothing_witness:
  "export_events db1 MINIMAL = Inr [redact_event ev1 MINIMAL]"
  using export_masks_nothing [OF db1_log(1)] by (simp add: db1_log(2))

subsection \<open>The environment of a subprocess\<close>

text \<open>The default boundary passes on, in order and unchanged, exactly the variables that are safe
  by name or have no secret-like part in their name.\<close>

theorem environment_filter:
  assumes "distinct (map fst env)"
  shows "filter_environment b env = filter (\<lambda>(k, v). env_passes b k) env"
  using assms by (rule filter_environment_filter)

theorem environment_filter_witness:
  "filter_environment (boundary_init None None None) [(''PATH'', ''/bin''), (''GITHUB_TOKEN'', ''x''), (''EDITOR'', ''vi'')]
     = [(''PATH'', ''/bin''), (''EDITOR'', ''vi'')]"
proof -
  have "env_passes (boundary_init None None None) ''PATH''" "\<not> env_passes (boundary_init None None None) ''GITHUB_TOKEN''"
    "env_passes (boundary_init None None None) ''EDITOR''"
    by code_simp+
  then show ?thesis
    using environment_filter [of "[(''PATH'', ''/bin''), (''GITHUB_TOKEN'', ''x''), (''EDITOR'', ''vi'')]"]
    by simp
qed

end
