(* ===== verification/Backend.thy ===== *)
theory Backend
  imports Runtime FileSystem PyRepr
begin

text \<open>
  \<open>koguchi/chokepoint_client.py\<close> and \<open>koguchi/execution_backend.py\<close>: the JSON protocol with
  the external chokepoint binary, and the two execution backends of the service runtime. What
  the binary does is a parameter \<open>spawn\<close>, the result of \<open>subprocess.run\<close>; what
  \<open>data.get\<close> returns is kept as the JSON value it is, since the code checks no type.
\<close>

subsection \<open>The chokepoint client\<close>

record chokepoint_result =
  cr_request_id :: string
  cr_allowed :: bool
  cr_status :: string
  cr_exit_code :: json
  cr_stdout :: string
  cr_stderr :: string
  cr_error :: json

definition chokepoint_from_dict :: "(string \<times> json) list \<Rightarrow> chokepoint_result" where
  "chokepoint_from_dict data =
     \<lparr>cr_request_id = py_str (dget_or data ''request_id'' (JStr [])),
      cr_allowed = truth (dget_or data ''allowed'' (JBool False)),
      cr_status = py_str (dget_or data ''status'' (JStr [])),
      cr_exit_code = dget data ''exit_code'',
      cr_stdout = py_str (dget_or data ''stdout'' (JStr [])),
      cr_stderr = py_str (dget_or data ''stderr'' (JStr [])),
      cr_error = dget data ''error''\<rparr>"

text \<open>
  \<open>subprocess.run([binary], input=.., timeout=..)\<close>: it finishes with an output and a return
  code, or raises; an exception of another class (\<open>PermissionError\<close>, an undecodable output) is
  \<open>SpawnRaises\<close>.
\<close>

datatype spawn_outcome =
    Finished string string int
  | SpawnNotFound
  | SpawnTimeout
  | SpawnRaises exn

type_synonym spawn = "string \<Rightarrow> string \<Rightarrow> string option \<Rightarrow> fs \<Rightarrow> spawn_outcome \<times> fs"

definition binary_not_found :: "path \<Rightarrow> exn" where
  "binary_not_found binary =
     ChokepointUnavailableError (''Rust chokepoint binary not found: '' @ path_str binary)"

definition client_init :: "path \<Rightarrow> fs \<Rightarrow> exn + path" where
  "client_init binary fs =
     (if path_exists fs binary then Inr binary else Inl (binary_not_found binary))"

definition chokepoint_request :: "string \<Rightarrow> string \<Rightarrow> string \<Rightarrow> string \<Rightarrow> string \<Rightarrow> json" where
  "chokepoint_request operation workspace p content request_id =
     JObj [(''schema_version'', JInt 1), (''request_id'', JStr request_id),
           (''operation'', JStr operation), (''workspace'', JStr workspace),
           (''path'', JStr p), (''content'', JStr content)]"

definition timeout_str :: "string option \<Rightarrow> string" where
  "timeout_str timeout = (case timeout of None \<Rightarrow> ''None'' | Some s \<Rightarrow> s)"

definition client_result :: "string \<Rightarrow> exn + chokepoint_result" where
  "client_result stdout =
     (case loads stdout of
        Inl e \<Rightarrow> Inl (ChokepointProtocolError (''Invalid JSON from chokepoint: '' @ exn_str e))
      | Inr v \<Rightarrow>
          (case as_dict v of Inl e \<Rightarrow> Inl e | Inr data \<Rightarrow> Inr (chokepoint_from_dict data)))"

definition client_execute ::
  "spawn \<Rightarrow> path \<Rightarrow> string \<Rightarrow> string \<Rightarrow> string \<Rightarrow> string \<Rightarrow> string \<Rightarrow> string option
     \<Rightarrow> (fs, chokepoint_result) py" where
  "client_execute spawn binary operation workspace p content request_id timeout fs =
     (let payload = dumps (chokepoint_request operation workspace p content request_id)
      in (case spawn (path_str binary) payload timeout fs of
            (SpawnNotFound, fs1) \<Rightarrow> (Inl (binary_not_found binary), fs1)
          | (SpawnTimeout, fs1) \<Rightarrow>
              (Inl (ChokepointProtocolError
                 (''Chokepoint timed out after '' @ timeout_str timeout @ ''s'')), fs1)
          | (SpawnRaises e, fs1) \<Rightarrow> (Inl e, fs1)
          | (Finished out err code, fs1) \<Rightarrow>
              if code \<noteq> 0
              then (Inl (ChokepointProtocolError
                      (''Chokepoint exited with code '' @ show_int code @ '': '' @ err)), fs1)
              else (client_result out, fs1)))"

subsection \<open>Execution backends\<close>

definition CHOKEPOINT_OPERATION_MAP :: "(string \<times> string) list" where
  "CHOKEPOINT_OPERATION_MAP =
     [(''filesystem.write'', ''write_text''), (''filesystem.read'', ''read_text'')]"

record backend_request =
  bq_request_id :: string
  bq_tool_name :: string
  bq_arguments :: "(string \<times> json) list"
  bq_workspace :: string

record backend_result =
  br_request_id :: string
  br_backend_name :: string
  br_allowed :: bool
  br_result :: json
  br_error :: json
  br_stdout :: "string option"
  br_stderr :: "string option"
  br_exit_code :: json

record execution_backend =
  be_name :: string
  be_execute :: "backend_request \<Rightarrow> (fs, backend_result) py"

definition backend_refusal :: "string \<Rightarrow> string \<Rightarrow> string \<Rightarrow> backend_result" where
  "backend_refusal request_id name msg =
     \<lparr>br_request_id = request_id, br_backend_name = name, br_allowed = False, br_result = JNull,
      br_error = JStr msg, br_stdout = None, br_stderr = None, br_exit_code = JNull\<rparr>"

definition python_execute :: "backend_request \<Rightarrow> (fs, backend_result) py" where
  "python_execute q fs =
     (Inr \<lparr>br_request_id = bq_request_id q, br_backend_name = ''python'', br_allowed = True,
           br_result = JObj [(''status'', JStr ''executed''), (''tool'', JStr (bq_tool_name q))],
           br_error = JNull, br_stdout = None, br_stderr = None, br_exit_code = JNull\<rparr>, fs)"

definition python_backend :: execution_backend where
  "python_backend = \<lparr>be_name = ''python'', be_execute = python_execute\<rparr>"

record rust_backend =
  rust_binary_path :: path
  rust_client :: "path option"

definition rust_init :: "path \<Rightarrow> fs \<Rightarrow> rust_backend" where
  "rust_init binary fs =
     \<lparr>rust_binary_path = binary,
      rust_client = (case client_init binary fs of Inl _ \<Rightarrow> None | Inr c \<Rightarrow> Some c)\<rparr>"

definition chokepoint_error :: "exn \<Rightarrow> bool" where
  "chokepoint_error e =
     (case e of ChokepointUnavailableError _ \<Rightarrow> True | ChokepointProtocolError _ \<Rightarrow> True | _ \<Rightarrow> False)"

definition rust_result :: "chokepoint_result \<Rightarrow> backend_result" where
  "rust_result cr =
     \<lparr>br_request_id = cr_request_id cr, br_backend_name = ''rust_chokepoint'',
      br_allowed = cr_allowed cr,
      br_result = (if cr_allowed cr then JStr (cr_stdout cr) else JNull), br_error = cr_error cr,
      br_stdout = Some (cr_stdout cr), br_stderr = Some (cr_stderr cr), br_exit_code = cr_exit_code cr\<rparr>"

definition rust_execute :: "spawn \<Rightarrow> rust_backend \<Rightarrow> backend_request \<Rightarrow> (fs, backend_result) py" where
  "rust_execute spawn b q fs =
     (case map_of CHOKEPOINT_OPERATION_MAP (bq_tool_name q) of
        None \<Rightarrow>
          (Inr (backend_refusal (bq_request_id q) ''rust_chokepoint''
                  (''unsupported tool for Rust backend: '' @ bq_tool_name q)), fs)
      | Some operation \<Rightarrow>
          (case rust_client b of
             None \<Rightarrow>
               (Inr (backend_refusal (bq_request_id q) ''rust_chokepoint''
                       ''Rust chokepoint binary not available''), fs)
           | Some binary \<Rightarrow>
               (case client_execute spawn binary operation (bq_workspace q)
                       (py_str (dget_or (bq_arguments q) ''path'' (JStr [])))
                       (py_str (dget_or (bq_arguments q) ''content'' (JStr [])))
                       (bq_request_id q) (Some ''5.0'') fs of
                  (Inr cr, fs1) \<Rightarrow> (Inr (rust_result cr), fs1)
                | (Inl e, fs1) \<Rightarrow>
                    if chokepoint_error e
                    then (Inr (backend_refusal (bq_request_id q) ''rust_chokepoint'' (exn_str e)), fs1)
                    else (Inl e, fs1))))"

definition rust_chokepoint_backend :: "spawn \<Rightarrow> rust_backend \<Rightarrow> execution_backend" where
  "rust_chokepoint_backend spawn b = \<lparr>be_name = ''rust_chokepoint'', be_execute = rust_execute spawn b\<rparr>"

subsection \<open>The protocol\<close>

text \<open>What the binary is sent for a request, and its answer.\<close>

definition spawned :: "spawn \<Rightarrow> path \<Rightarrow> string \<Rightarrow> backend_request \<Rightarrow> fs \<Rightarrow> spawn_outcome \<times> fs" where
  "spawned spawn binary operation q fs =
     spawn (path_str binary)
       (dumps (chokepoint_request operation (bq_workspace q)
                 (py_str (dget_or (bq_arguments q) ''path'' (JStr [])))
                 (py_str (dget_or (bq_arguments q) ''content'' (JStr []))) (bq_request_id q)))
       (Some ''5.0'') fs"

lemmas rust_defs = rust_execute_def client_execute_def client_result_def Let_def

lemma refusal_fields [simp]:
  "br_allowed (backend_refusal i n m) = False"
  "br_error (backend_refusal i n m) = JStr m"
  "br_backend_name (backend_refusal i n m) = n"
  "br_request_id (backend_refusal i n m) = i"
  by (simp_all add: backend_refusal_def)

lemma rust_result_fields [simp]:
  "br_allowed (rust_result cr) = cr_allowed cr"
  "br_error (rust_result cr) = cr_error cr"
  "br_backend_name (rust_result cr) = ''rust_chokepoint''"
  "br_request_id (rust_result cr) = cr_request_id cr"
  by (simp_all add: rust_result_def)

lemma chokepoint_error_simps [simp]:
  "chokepoint_error (ChokepointUnavailableError m)"
  "chokepoint_error (ChokepointProtocolError m)"
  "chokepoint_error (binary_not_found p)"
  "\<not> chokepoint_error (AttributeError m)"
  by (simp_all add: chokepoint_error_def binary_not_found_def)

lemma as_dict_error: "as_dict v = Inl e \<Longrightarrow> \<not> chokepoint_error e"
  by (auto simp: json_simps split: json.splits)

lemma wf_chokepoint_request [simp]: "wf_json (chokepoint_request op ws p c i)"
  by (simp add: chokepoint_request_def)

lemma rust_unsupported:
  "map_of CHOKEPOINT_OPERATION_MAP (bq_tool_name q) = None \<or> rust_client b = None \<Longrightarrow>
     snd (rust_execute spawn b q fs) = fs"
  by (auto simp: rust_execute_def split: option.split)

text \<open>What the backend does where the binary is asked, by the binary's outcome.\<close>

lemma rust_asked:
  assumes "map_of CHOKEPOINT_OPERATION_MAP (bq_tool_name q) = Some op" "rust_client b = Some binary"
  shows "rust_execute spawn b q fs =
    (case spawned spawn binary op q fs of
       (SpawnNotFound, fs1) \<Rightarrow>
         (Inr (backend_refusal (bq_request_id q) ''rust_chokepoint'' (exn_str (binary_not_found binary))), fs1)
     | (SpawnTimeout, fs1) \<Rightarrow>
         (Inr (backend_refusal (bq_request_id q) ''rust_chokepoint'' ''Chokepoint timed out after 5.0s''), fs1)
     | (SpawnRaises e, fs1) \<Rightarrow>
         (if chokepoint_error e
          then Inr (backend_refusal (bq_request_id q) ''rust_chokepoint'' (exn_str e)) else Inl e, fs1)
     | (Finished out err code, fs1) \<Rightarrow>
         (if code \<noteq> 0
          then Inr (backend_refusal (bq_request_id q) ''rust_chokepoint''
                 (''Chokepoint exited with code '' @ show_int code @ '': '' @ err))
          else (case loads out of
                  Inl e \<Rightarrow> Inr (backend_refusal (bq_request_id q) ''rust_chokepoint''
                             (''Invalid JSON from chokepoint: '' @ exn_str e))
                | Inr v \<Rightarrow>
                    (case as_dict v of
                       Inl e \<Rightarrow> Inl e
                     | Inr d \<Rightarrow> Inr (rust_result (chokepoint_from_dict d)))), fs1))"
  using assms
  by (auto simp: rust_defs spawned_def timeout_str_def
      split: prod.split spawn_outcome.split sum.split dest: as_dict_error)

end
