(* ===== verification/Jsonl.thy ===== *)
theory Jsonl
  imports FileSystem PyRepr
begin

text \<open>
  The JSONL file that \<open>audit_store.py\<close> and \<open>reconciliation_store.py\<close> both keep: a line is
  appended with \<open>open("a")\<close>, and read back with universal newlines, \<open>strip\<close> and
  \<open>json.loads\<close>. The interface \<open>jsonl_log\<close> is what either store promises to its
  client: a successful write adds exactly its record at the end of what is read.
\<close>

subsection \<open>Writing\<close>

definition jsonl_append :: "path \<Rightarrow> string \<Rightarrow> (fs, unit) py" where
  "jsonl_append p line fs =
     (let (f, fs1) = next_io fs; data = line @ [CHR 0x0A]
      in (case os_walk fs1 [] p of
            Inl e \<Rightarrow> (Inl e, fs1)
          | Inr q \<Rightarrow>
              if node_at fs1 q = Some Dir then (Inl (IsADirectoryError (path_str q)), fs1)
              else (let old = (case node_at fs1 q of Some (File b) \<Rightarrow> b | _ \<Rightarrow> [])
                    in (case f of
                          IoOk \<Rightarrow> (Inr (), set_node q (File (old @ data)) fs1)
                        | IoFails m \<Rightarrow> (Inl (OSError m), fs1)
                        | IoPartial n m \<Rightarrow>
                            (Inl (OSError m), set_node q (File (old @ take n data)) fs1)))))"

subsection \<open>Reading\<close>

fun universal_newlines :: "string \<Rightarrow> string" where
  "universal_newlines [] = []"
| "universal_newlines [c] = [if c = CHR 0x0D then CHR 0x0A else c]"
| "universal_newlines (c # d # s) =
     (if c = CHR 0x0D then CHR 0x0A # universal_newlines (if d = CHR 0x0A then s else d # s)
      else c # universal_newlines (d # s))"

fun read_lines :: "(nat \<Rightarrow> exn \<Rightarrow> exn) \<Rightarrow> nat \<Rightarrow> string list \<Rightarrow> exn + json list" where
  "read_lines broken n [] = Inr []"
| "read_lines broken n (l # ls) =
     (if strip l = [] then read_lines broken (Suc n) ls
      else (case loads (strip l) of
              Inl e \<Rightarrow> Inl (broken n e)
            | Inr v \<Rightarrow>
                (case read_lines broken (Suc n) ls of
                   Inl e \<Rightarrow> Inl e
                 | Inr vs \<Rightarrow> Inr (v # vs))))"

definition broken_line :: "(string \<Rightarrow> exn) \<Rightarrow> path \<Rightarrow> nat \<Rightarrow> exn \<Rightarrow> exn" where
  "broken_line C p n e =
     C (''Broken JSONL at '' @ path_str p @ '':'' @ show_nat n @ '': '' @ exn_str e)"

definition jsonl_read :: "(string \<Rightarrow> exn) \<Rightarrow> path \<Rightarrow> fs \<Rightarrow> exn + json list" where
  "jsonl_read C p fs =
     (case os_walk fs [] p of
        Inl _ \<Rightarrow> Inr []
      | Inr q \<Rightarrow>
          (case node_at fs q of
             None \<Rightarrow> Inr []
           | Some Dir \<Rightarrow> Inl (IsADirectoryError (path_str p))
           | Some (File b) \<Rightarrow>
               if q \<in> set (fs_unreadable fs) then Inl (PermissionError (path_str p))
               else read_lines (broken_line C p) 1 (split_on (CHR 0x0A) (universal_newlines b))))"

text \<open>The file can be read, and every line of it is ended.\<close>

definition jsonl_clean :: "path \<Rightarrow> fs \<Rightarrow> bool" where
  "jsonl_clean p fs \<longleftrightarrow>
     (\<forall>q. os_walk fs [] p = Inr q \<longrightarrow> q \<notin> set (fs_unreadable fs) \<and>
        (\<forall>b. node_at fs q = Some (File b) \<longrightarrow> b = [] \<or> last b = CHR 0x0A))"

subsection \<open>A line that was written is read back\<close>

lemma os_walk_set:
  "os_walk fs cur cs = Inr r \<Longrightarrow> node_at fs q \<noteq> Some Dir \<Longrightarrow>
     os_walk (set_node q (File d) fs) cur cs = Inr r"
proof (induction cs arbitrary: cur)
  case Nil
  then show ?case by simp
next
  case (Cons c cs)
  then have cur: "node_at fs cur = Some Dir" by (auto split: option.splits node.splits)
  with Cons.prems have "node_at (set_node q (File d) fs) cur = Some Dir"
    by (auto simp: node_at_set node_dir_ne)
  with cur Cons show ?case by simp
qed

lemma universal_newlines_app:
  "universal_newlines (b @ CHR 0x0A # s) = universal_newlines (b @ [CHR 0x0A]) @ universal_newlines s"
  by (induction b rule: universal_newlines.induct) (cases s; auto)+

lemma universal_newlines_end: "\<exists>w. universal_newlines (b @ [CHR 0x0A]) = w @ [CHR 0x0A]"
proof (induction b rule: universal_newlines.induct)
  case (2 c)
  then show ?case by simp
next
  case (3 c d s)
  show ?case
  proof (cases "c = CHR 0x0D")
    case True
    with 3(1) obtain w where
      "universal_newlines ((if d = CHR 0x0A then s else d # s) @ [CHR 0x0A]) = w @ [CHR 0x0A]" by blast
    with True show ?thesis by (auto intro: exI [of _ "CHR 0x0A # w"])
  next
    case False
    with 3(2) obtain w where "universal_newlines ((d # s) @ [CHR 0x0A]) = w @ [CHR 0x0A]" by blast
    with False show ?thesis by (auto intro: exI [of _ "c # w"])
  qed
qed simp

lemma universal_newlines_plain: "CHR 0x0D \<notin> set s \<Longrightarrow> universal_newlines s = s"
  by (induction s rule: universal_newlines.induct) auto

lemma split_on_append: "split_on c (xs @ c # ys) = split_on c xs @ split_on c ys"
  by (induction xs) (auto split: list.splits)

lemma read_lines_append:
  "read_lines broken n (xs @ ys) =
     (case read_lines broken n xs of
        Inl e \<Rightarrow> Inl e
      | Inr us \<Rightarrow>
          (case read_lines broken (n + length xs) ys of Inl e \<Rightarrow> Inl e | Inr vs \<Rightarrow> Inr (us @ vs)))"
  by (induction xs arbitrary: n) (auto split: sum.splits)

lemma lines_of_line: "no_breaks l \<Longrightarrow> split_on (CHR 0x0A) (universal_newlines (l @ [CHR 0x0A])) = [l, []]"
  by (simp add: no_breaks_def universal_newlines_plain split_on_append_sep)

lemma lines_append:
  assumes "b = [] \<or> last b = CHR 0x0A" "no_breaks l" "l \<noteq> []"
    "strip l = l" "loads l = Inr v"
  shows "read_lines C 1 (split_on (CHR 0x0A) (universal_newlines (b @ l @ [CHR 0x0A]))) =
           (case read_lines C 1 (split_on (CHR 0x0A) (universal_newlines b)) of
              Inl e \<Rightarrow> Inl e | Inr vs \<Rightarrow> Inr (vs @ [v]))"
proof (cases "b = []")
  case True
  with assms show ?thesis by (simp add: lines_of_line)
next
  case False
  with assms(1) obtain b' where b: "b = b' @ [CHR 0x0A]" by (metis append_butlast_last_id)
  obtain w where w: "universal_newlines (b' @ [CHR 0x0A]) = w @ [CHR 0x0A]"
    using universal_newlines_end by blast
  have "universal_newlines (b @ l @ [CHR 0x0A]) = w @ CHR 0x0A # l @ [CHR 0x0A]"
    using assms(2) universal_newlines_app [of b' "l @ [CHR 0x0A]"]
    by (simp add: b w no_breaks_def universal_newlines_plain)
  then have "split_on (CHR 0x0A) (universal_newlines (b @ l @ [CHR 0x0A])) =
      split_on (CHR 0x0A) w @ [l, []]"
    using assms(2) by (simp add: split_on_append no_breaks_def split_on_append_sep split_on_no_sep)
  moreover have "split_on (CHR 0x0A) (universal_newlines b) = split_on (CHR 0x0A) w @ [[]]"
    by (simp add: b w split_on_append)
  ultimately show ?thesis
    using assms(3-5) by (simp add: read_lines_append split: sum.splits)
qed

lemma jsonl_append_read:
  assumes clean: "jsonl_clean p fs" and app: "jsonl_append p l fs = (Inr (), fs')"
    and l: "no_breaks l" "l \<noteq> []" "strip l = l" "loads l = Inr v"
  shows "jsonl_clean p fs' \<and>
         jsonl_read C p fs' = (case jsonl_read C p fs of Inl e \<Rightarrow> Inl e | Inr vs \<Rightarrow> Inr (vs @ [v]))"
proof -
  obtain f fs1 where io: "next_io fs = (f, fs1)" by (cases "next_io fs")
  have same: "node_at fs1 = node_at fs" "fs_unreadable fs1 = fs_unreadable fs"
    using node_at_next_io [of fs] next_io_nodes(2) [of fs] io by (auto simp: fun_eq_iff)
  from app io obtain q where q: "os_walk fs1 [] p = Inr q" and nd: "node_at fs1 q \<noteq> Some Dir"
    and fs': "fs' = set_node q (File ((case node_at fs1 q of Some (File b) \<Rightarrow> b | _ \<Rightarrow> []) @ l @ [CHR 0x0A])) fs1"
    by (auto simp: jsonl_append_def Let_def split: sum.splits if_splits io_fault.splits)
  have walk: "os_walk fs [] p = Inr q" using q os_walk_cong [OF same(1)] by simp
  have walk': "os_walk fs' [] p = Inr q" using os_walk_set [OF q nd] fs' by simp
  have at: "node_at fs' q = Some (File ((case node_at fs q of Some (File b) \<Rightarrow> b | _ \<Rightarrow> []) @ l @ [CHR 0x0A]))"
    using nd same by (simp add: fs' node_at_set node_dir_ne)
  have readable: "q \<notin> set (fs_unreadable fs)" using clean walk by (simp add: jsonl_clean_def)
  have "jsonl_clean p fs'" using walk' at readable by (simp add: jsonl_clean_def fs' same)
  moreover have "jsonl_read C p fs' = (case jsonl_read C p fs of Inl e \<Rightarrow> Inl e | Inr vs \<Rightarrow> Inr (vs @ [v]))"
  proof (cases "node_at fs q")
    case None
    with walk walk' at lines_append [of "[]" l v "broken_line C p"] l readable
    show ?thesis
      by (simp add: jsonl_read_def fs' same)
  next
    case (Some n)
    with nd same obtain b where b: "node_at fs q = Some (File b)" by (cases n) auto
    with clean walk have "b = [] \<or> last b = CHR 0x0A" by (auto simp: jsonl_clean_def)
    with lines_append [OF this l, of "broken_line C p"] walk walk' at b readable
    show ?thesis by (simp add: jsonl_read_def fs' same)
  qed
  ultimately show ?thesis ..
qed

text \<open>What the file holds is a matter of its own node and the way to it.\<close>

lemma jsonl_frame:
  assumes "node_at fs' = node_at fs" "fs_unreadable fs' = fs_unreadable fs"
  shows "jsonl_read C p fs' = jsonl_read C p fs" "jsonl_clean p fs' = jsonl_clean p fs"
  unfolding jsonl_read_def jsonl_clean_def os_walk_cong [OF assms(1)] assms by simp_all

lemma jsonl_append_ok:
  "jsonl_append p l fs = (Inr (), fs') \<Longrightarrow> \<exists>q. os_walk fs [] p = Inr q \<and> node_at fs q \<noteq> Some Dir"
  by (auto simp: jsonl_append_def Let_def case_prod_unfold split: sum.splits if_splits)

subsection \<open>The contract of a JSONL store\<close>

fun put_all :: "('r \<Rightarrow> ('s, unit) py) \<Rightarrow> 'r list \<Rightarrow> ('s, unit) py" where
  "put_all put [] s = (Inr (), s)"
| "put_all put (r # rs) s =
     (case put r s of (Inl e, s1) \<Rightarrow> (Inl e, s1) | (Inr _, s1) \<Rightarrow> put_all put rs s1)"

locale jsonl_log =
  fixes put :: "'r \<Rightarrow> (fs, unit) py"
    and readback :: "fs \<Rightarrow> exn + json list"
    and record_of :: "'r \<Rightarrow> json"
    and ok :: "'r \<Rightarrow> bool"
    and clean :: "fs \<Rightarrow> bool"
  assumes put_reads: "clean fs \<Longrightarrow> ok r \<Longrightarrow> put r fs = (Inr (), fs') \<Longrightarrow>
      clean fs' \<and> readback fs' = (case readback fs of Inl e \<Rightarrow> Inl e | Inr vs \<Rightarrow> Inr (vs @ [record_of r]))"
begin

lemma put_all_reads:
  "clean fs \<Longrightarrow> list_all ok rs \<Longrightarrow> put_all put rs fs = (Inr (), fs') \<Longrightarrow>
     clean fs' \<and> readback fs' = (case readback fs of Inl e \<Rightarrow> Inl e | Inr vs \<Rightarrow> Inr (vs @ map record_of rs))"
proof (induction rs arbitrary: fs)
  case Nil
  then show ?case by (simp split: sum.splits)
next
  case (Cons r rs)
  from Cons.prems(3) obtain fs1 where w: "put r fs = (Inr (), fs1)"
    and ws: "put_all put rs fs1 = (Inr (), fs')"
    by (auto split: prod.splits sum.splits)
  have 1: "clean fs1 \<and> readback fs1 = (case readback fs of Inl e \<Rightarrow> Inl e | Inr vs \<Rightarrow> Inr (vs @ [record_of r]))"
    using put_reads [OF Cons.prems(1) _ w] Cons.prems(2) by simp
  with Cons.IH [OF _ _ ws] Cons.prems(2) show ?case by (auto split: sum.splits)
qed

end

text \<open>Objects written with \<open>json.dumps(.., sort_keys=True)\<close> meet the contract.\<close>

lemma jsonl_append_json:
  assumes "jsonl_clean p fs" "wf_json v" "v = JObj kvs"
    "jsonl_append p (dumps_sorted v) fs = (Inr (), fs')"
  shows "jsonl_clean p fs' \<and>
         jsonl_read C p fs' =
           (case jsonl_read C p fs of Inl e \<Rightarrow> Inl e | Inr vs \<Rightarrow> Inr (vs @ [sort_keys v]))"
proof (rule jsonl_append_read [OF assms(1,4)])
  show "no_breaks (dumps_sorted v)" by (rule no_breaks_dumps_sorted [OF assms(2)])
  show "dumps_sorted v \<noteq> []" by (simp add: dumps_sorted_def assms(3))
  show "strip (dumps_sorted v) = dumps_sorted v"
    unfolding dumps_sorted_def assms(3) sort_keys.simps by (rule strip_dumps_obj)
  show "loads (dumps_sorted v) = Inr (sort_keys v)" by (rule loads_dumps_sorted [OF assms(2)])
qed

end
