(* ===== verification/ServiceRuntime.thy ===== *)
theory ServiceRuntime
  imports Backend Jsonl
begin

text \<open>
  \<open>koguchi/service_runtime.py\<close> and \<open>koguchi/audit_store.py\<close>: \<open>ServiceRuntime\<close> judges
  a request by the runtime boundary, lets the backend execute it and emits one audit event to its
  sink, which is a list in memory or a JSONL file. The interface \<open>audit_log\<close> is the contract of
  a sink; both sinks are interpretations of it, and what the runtime promises is proved once
  over it.
\<close>

subsection \<open>Requests, results and events\<close>

record sr_request =
  sq_tool_name :: string
  sq_arguments :: "(string \<times> json) list"
  sq_workspace :: string
  sq_env :: "(string \<times> string) list option"
  sq_request_id :: "string option"

record sr_result =
  ss_allowed :: bool
  ss_reason :: string
  ss_result :: json
  ss_error :: json
  ss_request_id :: string

record audit_event =
  ae_event_type :: string
  ae_request_id :: string
  ae_tool_name :: string
  ae_allowed :: bool
  ae_reason :: string
  ae_workspace :: string
  ae_timestamp :: string
  ae_error :: json
  ae_execution_backend :: string

subsection \<open>The runtime\<close>

text \<open>
  A sink is its \<open>emit\<close>, on its own state and the file system, and what the
  \<open>isinstance(sink, InMemoryAuditEventSink)\<close> of \<open>status\<close> and \<open>events\<close> finds.
\<close>

record 'k audit_sink =
  as_emit :: "audit_event \<Rightarrow> ('k \<times> fs, unit) py"
  as_in_memory :: "'k \<Rightarrow> audit_event list option"

record 'k service_runtime =
  sr_boundary :: runtime_boundary
  sr_event_sink :: "'k audit_sink"
  sr_backend :: execution_backend
  sr_started_at :: string

record 'k sr_world =
  sr_sink :: 'k
  sr_fs :: fs
  sr_tick :: nat

definition in_memory_sink :: "audit_event list audit_sink" where
  "in_memory_sink =
     \<lparr>as_emit = (\<lambda>ev (es, fs). (Inr (), (es @ [ev], fs))), as_in_memory = Some\<rparr>"

definition service_init ::
  "py_env \<Rightarrow> nat \<Rightarrow> runtime_boundary \<Rightarrow> 'k audit_sink \<Rightarrow> execution_backend option
     \<Rightarrow> 'k service_runtime" where
  "service_init E i boundary sink backend =
     \<lparr>sr_boundary = boundary, sr_event_sink = sink,
      sr_backend = (case backend of None \<Rightarrow> python_backend | Some b \<Rightarrow> b),
      sr_started_at = isoformat (now E i)\<rparr>"

definition sr_emit :: "'k service_runtime \<Rightarrow> audit_event \<Rightarrow> 'a \<Rightarrow> ('k sr_world, 'a) py" where
  "sr_emit rt ev result w =
     (case as_emit (sr_event_sink rt) ev (sr_sink w, sr_fs w) of
        (Inl e, (k, fs)) \<Rightarrow> (Inl e, w\<lparr>sr_sink := k, sr_fs := fs\<rparr>)
      | (Inr _, (k, fs)) \<Rightarrow> (Inr result, w\<lparr>sr_sink := k, sr_fs := fs\<rparr>))"

text \<open>\<open>request.request_id or str(uuid.uuid4())\<close>\<close>

definition sr_id :: "py_env \<Rightarrow> nat \<Rightarrow> sr_request \<Rightarrow> string" where
  "sr_id E i q =
     (case sq_request_id q of None \<Rightarrow> uuid4 E i | Some r \<Rightarrow> if r = [] then uuid4 E i else r)"

definition sr_event ::
  "py_env \<Rightarrow> nat \<Rightarrow> sr_request \<Rightarrow> string \<Rightarrow> bool \<Rightarrow> string \<Rightarrow> json \<Rightarrow> string \<Rightarrow> audit_event" where
  "sr_event E i q ty allowed reason err backend =
     \<lparr>ae_event_type = ty, ae_request_id = sr_id E i q, ae_tool_name = sq_tool_name q,
      ae_allowed = allowed, ae_reason = reason, ae_workspace = sq_workspace q,
      ae_timestamp = isoformat (now E i), ae_error = err, ae_execution_backend = backend\<rparr>"

definition service_execute ::
  "py_env \<Rightarrow> 'k service_runtime \<Rightarrow> sr_request \<Rightarrow> ('k sr_world, sr_result) py" where
  "service_execute E rt q w =
     (let i = sr_tick w; request_id = sr_id E i q; w0 = w\<lparr>sr_tick := Suc i\<rparr>
      in (case rb_evaluate_tool (sr_boundary rt) (sq_tool_name q) of
            Inl e \<Rightarrow> (Inl e, w0)
          | Inr d \<Rightarrow>
              if \<not> rb_allowed d
              then sr_emit rt (sr_event E i q ''deny'' False (rb_reason d) JNull ''not_invoked'')
                     \<lparr>ss_allowed = False, ss_reason = rb_reason d, ss_result = JNull, ss_error = JNull,
                      ss_request_id = request_id\<rparr> w0
              else (case be_execute (sr_backend rt)
                        \<lparr>bq_request_id = request_id, bq_tool_name = sq_tool_name q,
                         bq_arguments = sq_arguments q, bq_workspace = sq_workspace q\<rparr> (sr_fs w0) of
                      (Inl e, fs1) \<Rightarrow> (Inl e, w0\<lparr>sr_fs := fs1\<rparr>)
                    | (Inr br, fs1) \<Rightarrow>
                        if truth (br_error br) \<and> \<not> br_allowed br
                        then sr_emit rt
                               (sr_event E i q ''error'' (br_allowed br) (rb_reason d) (br_error br)
                                  (br_backend_name br))
                               \<lparr>ss_allowed = br_allowed br, ss_reason = rb_reason d, ss_result = JNull,
                                ss_error = br_error br, ss_request_id = request_id\<rparr>
                               (w0\<lparr>sr_fs := fs1\<rparr>)
                        else sr_emit rt
                               (sr_event E i q (if br_allowed br then ''allow'' else ''deny'')
                                  (br_allowed br) (rb_reason d) JNull (br_backend_name br))
                               \<lparr>ss_allowed = br_allowed br, ss_reason = rb_reason d,
                                ss_result = br_result br, ss_error = JNull,
                                ss_request_id = request_id\<rparr>
                               (w0\<lparr>sr_fs := fs1\<rparr>))))"

definition audit_event_dict :: "audit_event \<Rightarrow> (string \<times> json) list" where
  "audit_event_dict e =
     [(''event_type'', JStr (ae_event_type e)), (''request_id'', JStr (ae_request_id e)),
      (''tool_name'', JStr (ae_tool_name e)), (''allowed'', JBool (ae_allowed e)),
      (''reason'', JStr (ae_reason e)), (''workspace'', JStr (ae_workspace e)),
      (''timestamp'', JStr (ae_timestamp e)), (''error'', ae_error e),
      (''execution_backend'', JStr (ae_execution_backend e))]"

definition service_status ::
  "'k service_runtime \<Rightarrow> string \<Rightarrow> 'k sr_world \<Rightarrow> (string \<times> json) list" where
  "service_status rt time w =
     [(''started_at'', JStr (sr_started_at rt)),
      (''event_count'',
        JInt (case as_in_memory (sr_event_sink rt) (sr_sink w) of None \<Rightarrow> 0 | Some es \<Rightarrow> int (length es))),
      (''uptime_seconds'', JFloat time)]"

definition service_events :: "'k service_runtime \<Rightarrow> 'k sr_world \<Rightarrow> (string \<times> json) list list" where
  "service_events rt w =
     (case as_in_memory (sr_event_sink rt) (sr_sink w) of
        None \<Rightarrow> [] | Some es \<Rightarrow> map audit_event_dict es)"

subsection \<open>The persistent sink\<close>

definition ALLOWED_FIELDS :: "string list" where
  "ALLOWED_FIELDS =
     [''execution_backend'', ''schema_version'', ''event_type'', ''request_id'', ''tool_name'',
      ''allowed'', ''reason'', ''workspace'', ''timestamp'', ''error'']"

definition audit_record :: "audit_event \<Rightarrow> (string \<times> json) list" where
  "audit_record e =
     [(''schema_version'', JInt 1), (''event_type'', JStr (ae_event_type e)),
      (''request_id'', JStr (ae_request_id e)), (''tool_name'', JStr (ae_tool_name e)),
      (''allowed'', JBool (ae_allowed e)), (''reason'', JStr (ae_reason e)),
      (''workspace'', JStr (ae_workspace e)), (''timestamp'', JStr (ae_timestamp e)),
      (''execution_backend'', JStr (ae_execution_backend e)), (''error'', ae_error e)]"

definition sanitize_audit_event :: "audit_event \<Rightarrow> exn + (string \<times> json) list" where
  "sanitize_audit_event e =
     (let extra = filter (\<lambda>k. k \<notin> set ALLOWED_FIELDS) (map fst (audit_record e))
      in if extra \<noteq> []
         then Inl (AuditSerializationError
                (''Unexpected fields in audit record: {'' @ join '', '' (map str_repr extra) @ ''}''))
         else Inr (audit_record e))"

definition audit_sink_init :: "path \<Rightarrow> bool \<Rightarrow> (fs, path) py" where
  "audit_sink_init p create_parent fs =
     (if create_parent
      then (case path_mkdir (parent p) fs of (Inl e, fs1) \<Rightarrow> (Inl e, fs1) | (Inr _, fs1) \<Rightarrow> (Inr p, fs1))
      else (Inr p, fs))"

definition audit_emit :: "path \<Rightarrow> audit_event \<Rightarrow> (fs, unit) py" where
  "audit_emit p ev fs =
     (case sanitize_audit_event ev of
        Inl e \<Rightarrow> (Inl e, fs)
      | Inr kvs \<Rightarrow>
          (case jsonl_append p (dumps_sorted (JObj kvs)) fs of
             (Inr _, fs1) \<Rightarrow> (Inr (), fs1)
           | (Inl e, fs1) \<Rightarrow>
               (Inl (AuditWriteError
                  (''Cannot write audit event to '' @ path_str p @ '': '' @ exn_str e)), fs1)))"

definition audit_read_events :: "path \<Rightarrow> fs \<Rightarrow> exn + json list" where
  "audit_read_events p = jsonl_read AuditSerializationError p"

definition jsonl_sink :: "path \<Rightarrow> unit audit_sink" where
  "jsonl_sink p =
     \<lparr>as_emit = (\<lambda>ev (u, fs). case audit_emit p ev fs of (r, fs1) \<Rightarrow> (r, (u, fs1))),
      as_in_memory = (\<lambda>_. None)\<rparr>"

subsection \<open>The JSONL sink keeps its records\<close>

definition stored_event :: "audit_event \<Rightarrow> json" where
  "stored_event ev = sort_keys (JObj (audit_record ev))"

lemma sanitize_audit_event_total [simp]: "sanitize_audit_event ev = Inr (audit_record ev)"
  by (simp add: sanitize_audit_event_def audit_record_def ALLOWED_FIELDS_def)

lemma wf_audit_record: "wf_json (JObj (audit_record ev)) \<longleftrightarrow> wf_json (ae_error ev)"
  by (simp add: audit_record_def)

interpretation audit_file:
  jsonl_log "audit_emit p" "audit_read_events p" stored_event "\<lambda>ev. wf_json (ae_error ev)" "jsonl_clean p"
proof unfold_locales
  fix fs fs' :: fs and ev
  assume h: "jsonl_clean p fs" "wf_json (ae_error ev)" "audit_emit p ev fs = (Inr (), fs')"
  have app: "jsonl_append p (dumps_sorted (JObj (audit_record ev))) fs = (Inr (), fs')"
    using h(3) by (auto simp: audit_emit_def split: prod.splits sum.splits)
  from wf_audit_record h(2) have wf: "wf_json (JObj (audit_record ev))" ..
  show "jsonl_clean p fs' \<and>
      audit_read_events p fs' =
        (case audit_read_events p fs of Inl e \<Rightarrow> Inl e | Inr vs \<Rightarrow> Inr (vs @ [stored_event ev]))"
    unfolding audit_read_events_def stored_event_def by (rule jsonl_append_json [OF h(1) wf refl app])
qed

subsection \<open>The contract of a sink\<close>

text \<open>\<open>holds s es\<close>: the sink with its file system has exactly the events \<open>es\<close>.\<close>

locale audit_log =
  fixes emit :: "audit_event \<Rightarrow> ('k \<times> fs, unit) py"
    and holds :: "'k \<times> fs \<Rightarrow> audit_event list \<Rightarrow> bool"
  assumes emit_holds: "holds s es \<Longrightarrow> wf_json (ae_error ev) \<Longrightarrow> emit ev s = (Inr (), s') \<Longrightarrow>
      holds s' (es @ [ev])"

definition in_memory_holds :: "audit_event list \<times> fs \<Rightarrow> audit_event list \<Rightarrow> bool" where
  "in_memory_holds s es \<longleftrightarrow> fst s = es"

definition jsonl_holds :: "path \<Rightarrow> json list \<Rightarrow> unit \<times> fs \<Rightarrow> audit_event list \<Rightarrow> bool" where
  "jsonl_holds p vs s es \<longleftrightarrow>
     jsonl_clean p (snd s) \<and> audit_read_events p (snd s) = Inr (vs @ map stored_event es)"

interpretation in_memory: audit_log "as_emit in_memory_sink" in_memory_holds
  by unfold_locales (auto simp: in_memory_sink_def in_memory_holds_def split: prod.splits)

interpretation audit_jsonl: audit_log "as_emit (jsonl_sink p)" "jsonl_holds p vs"
proof unfold_locales
  fix s :: "unit \<times> fs" and es :: "audit_event list" and ev :: audit_event and s'
  assume h: "jsonl_holds p vs s es" "wf_json (ae_error ev)" "as_emit (jsonl_sink p) ev s = (Inr (), s')"
  then have "audit_emit p ev (snd s) = (Inr (), snd s')"
    by (auto simp: jsonl_sink_def split: prod.splits)
  with h audit_file.put_reads [of p "snd s" ev "snd s'"] show "jsonl_holds p vs s' (es @ [ev])"
    by (auto simp: jsonl_holds_def split: sum.splits)
qed

end
