(* ===== verification/ServiceProps.thy ===== *)
theory ServiceProps
  imports ServiceRuntime Fixtures
begin

text \<open>
  What \<open>ServiceRuntime\<close> promises: every request that returns has left exactly one audit event,
  which agrees with the result, in memory and on disk; what is on disk reads back; and what
  the chokepoint backend does with the binary's answers.
\<close>

subsection \<open>One event per result\<close>

definition event_matches :: "sr_result \<Rightarrow> audit_event \<Rightarrow> bool" where
  "event_matches r ev \<longleftrightarrow>
     ae_request_id ev = ss_request_id r \<and> ae_allowed ev = ss_allowed r \<and> ae_reason ev = ss_reason r \<and>
     ae_error ev = ss_error r \<and> (ae_event_type ev = ''allow'' \<longleftrightarrow> ss_allowed r) \<and>
     (ae_event_type ev = ''error'' \<longleftrightarrow> truth (ss_error r)) \<and>
     (ss_allowed r \<longrightarrow> ss_error r = JNull)"

text \<open>The event of a request: what it copies from the request and the backend it names.\<close>

definition event_of_request :: "sr_request \<Rightarrow> audit_event \<Rightarrow> bool" where
  "event_of_request q ev \<longleftrightarrow>
     ae_tool_name ev = sq_tool_name q \<and> ae_workspace ev = sq_workspace q \<and> wf_json (ae_error ev)"

text \<open>A backend whose errors are values that JSON can hold.\<close>

definition sound_backend :: "execution_backend \<Rightarrow> bool" where
  "sound_backend be \<longleftrightarrow> (\<forall>q fs r fs1. be_execute be q fs = (Inr r, fs1) \<longrightarrow> wf_json (br_error r))"

definition keeps_log :: "('k \<times> fs \<Rightarrow> audit_event list \<Rightarrow> bool) \<Rightarrow> execution_backend \<Rightarrow> bool" where
  "keeps_log holds be \<longleftrightarrow>
     (\<forall>k es q fs r fs1. be_execute be q fs = (r, fs1) \<longrightarrow> holds (k, fs) es \<longrightarrow> holds (k, fs1) es)"

lemma sound_python: "sound_backend python_backend"
  by (simp add: sound_backend_def python_backend_def python_execute_def)

lemma keeps_python: "keeps_log holds python_backend"
  by (simp add: keeps_log_def python_backend_def python_execute_def)

lemma wf_members_get: "wf_members d \<Longrightarrow> wf_json (dget d k)"
  by (auto simp: dget_def wf_members_iff split: option.split dest!: map_of_SomeD)

lemma sound_rust: "sound_backend (rust_chokepoint_backend spawn b)"
proof -
  have "wf_json (br_error r)" if h: "rust_execute spawn b q fs = (Inr r, fs1)" for q fs r fs1
  proof (cases "map_of CHOKEPOINT_OPERATION_MAP (bq_tool_name q) = None \<or> rust_client b = None")
    case True
    with h show ?thesis by (auto simp: rust_execute_def split: option.splits)
  next
    case False
    then obtain op binary where "map_of CHOKEPOINT_OPERATION_MAP (bq_tool_name q) = Some op"
      "rust_client b = Some binary" by auto
    from rust_asked [OF this, of spawn fs] h show ?thesis
      by (auto simp: as_dict_iff chokepoint_from_dict_def wf_members_get
          split: prod.splits spawn_outcome.splits sum.splits if_splits dest!: loads_wf)
  qed
  then show ?thesis by (simp add: sound_backend_def rust_chokepoint_backend_def)
qed

text \<open>A client that makes its requests in order, until one raises.\<close>

fun service_run ::
  "py_env \<Rightarrow> 'k service_runtime \<Rightarrow> sr_request list \<Rightarrow> ('k sr_world, sr_result list) py" where
  "service_run E rt [] w = (Inr [], w)"
| "service_run E rt (q # qs) w =
     (case service_execute E rt q w of
        (Inl e, w1) \<Rightarrow> (Inl e, w1)
      | (Inr r, w1) \<Rightarrow>
          (case service_run E rt qs w1 of (Inl e, w2) \<Rightarrow> (Inl e, w2) | (Inr rs, w2) \<Rightarrow> (Inr (r # rs), w2)))"

text \<open>What \<open>execute\<close> does to a sink, once for all sinks.\<close>

context audit_log
begin

lemma emit_matches:
  assumes "as_emit (sr_event_sink rt) = emit" "holds (sr_sink w, sr_fs w) es"
    "sr_emit rt ev r w = (Inr r', w')" "wf_json (ae_error ev)"
  shows "r' = r \<and> holds (sr_sink w', sr_fs w') (es @ [ev])"
proof -
  obtain k fs where "emit ev (sr_sink w, sr_fs w) = (Inr (), (k, fs))"
    and w': "w' = w\<lparr>sr_sink := k, sr_fs := fs\<rparr>" and "r' = r"
    using assms(1,3) by (auto simp: sr_emit_def split: prod.splits sum.splits)
  with emit_holds [OF assms(2,4)] show ?thesis by simp
qed

lemma execute_logs:
  assumes rt: "as_emit (sr_event_sink rt) = emit" and be: "sound_backend (sr_backend rt)"
    "keeps_log holds (sr_backend rt)" and s: "holds (sr_sink w, sr_fs w) es"
    and run: "service_execute E rt q w = (Inr r, w')"
  shows "\<exists>ev. holds (sr_sink w', sr_fs w') (es @ [ev]) \<and> event_matches r ev \<and> event_of_request q ev"
proof -
  let ?w0 = "w\<lparr>sr_tick := Suc (sr_tick w)\<rparr>"
  obtain d where d: "rb_evaluate_tool (sr_boundary rt) (sq_tool_name q) = Inr d"
    using run by (auto simp: service_execute_def Let_def split: sum.splits)
  show ?thesis
  proof (cases "rb_allowed d")
    case False
    with run d have "sr_emit rt (sr_event E (sr_tick w) q ''deny'' False (rb_reason d) JNull ''not_invoked'')
        \<lparr>ss_allowed = False, ss_reason = rb_reason d, ss_result = JNull, ss_error = JNull,
         ss_request_id = sr_id E (sr_tick w) q\<rparr> ?w0 = (Inr r, w')"
      by (simp add: service_execute_def Let_def)
    from emit_matches [OF rt _ this, of es] s show ?thesis
      by (auto simp: sr_event_def event_matches_def event_of_request_def)
  next
    case True
    let ?bq = "\<lparr>bq_request_id = sr_id E (sr_tick w) q, bq_tool_name = sq_tool_name q,
                bq_arguments = sq_arguments q, bq_workspace = sq_workspace q\<rparr>"
    obtain br fs1 where b: "be_execute (sr_backend rt) ?bq (sr_fs w) = (Inr br, fs1)"
      using run d True by (auto simp: service_execute_def Let_def split: prod.splits sum.splits)
    have s1: "holds (sr_sink (?w0\<lparr>sr_fs := fs1\<rparr>), sr_fs (?w0\<lparr>sr_fs := fs1\<rparr>)) es"
      using be(2) b s by (auto simp: keeps_log_def)
    have wf: "wf_json (br_error br)" using be(1) b unfolding sound_backend_def by blast
    show ?thesis
    proof (cases "truth (br_error br) \<and> \<not> br_allowed br")
      case err: True
      with run d True b have "sr_emit rt (sr_event E (sr_tick w) q ''error'' (br_allowed br)
            (rb_reason d) (br_error br) (br_backend_name br))
          \<lparr>ss_allowed = br_allowed br, ss_reason = rb_reason d, ss_result = JNull,
           ss_error = br_error br, ss_request_id = sr_id E (sr_tick w) q\<rparr>
          (?w0\<lparr>sr_fs := fs1\<rparr>) = (Inr r, w')"
        by (simp add: service_execute_def Let_def)
      from emit_matches [OF rt s1 this] wf err show ?thesis
        by (auto simp: sr_event_def event_matches_def event_of_request_def)
    next
      case False
      with run d True b have "sr_emit rt (sr_event E (sr_tick w) q
            (if br_allowed br then ''allow'' else ''deny'') (br_allowed br) (rb_reason d) JNull
            (br_backend_name br))
          \<lparr>ss_allowed = br_allowed br, ss_reason = rb_reason d, ss_result = br_result br,
           ss_error = JNull, ss_request_id = sr_id E (sr_tick w) q\<rparr>
          (?w0\<lparr>sr_fs := fs1\<rparr>) = (Inr r, w')"
        by (auto simp: service_execute_def Let_def)
      from emit_matches [OF rt s1 this] show ?thesis
        by (cases "br_allowed br")
          (auto simp: sr_event_def event_matches_def event_of_request_def intro!: exI)
    qed
  qed
qed

lemma run_logs:
  assumes rt: "as_emit (sr_event_sink rt) = emit" and be: "sound_backend (sr_backend rt)"
    "keeps_log holds (sr_backend rt)"
  shows "holds (sr_sink w, sr_fs w) es \<Longrightarrow> service_run E rt qs w = (Inr rs, w') \<Longrightarrow>
    \<exists>evs. holds (sr_sink w', sr_fs w') (es @ evs) \<and>
          list_all2 event_matches rs evs \<and> list_all2 event_of_request qs evs"
proof (induction qs arbitrary: w es rs)
  case Nil
  then show ?case by (auto intro!: exI [of _ "[]"])
next
  case (Cons q qs)
  from Cons.prems(2) obtain r w1 rs' where q: "service_execute E rt q w = (Inr r, w1)"
    and qs: "service_run E rt qs w1 = (Inr rs', w')" and rs: "rs = r # rs'"
    by (auto split: prod.splits sum.splits)
  from execute_logs [OF rt be Cons.prems(1) q] obtain ev
    where ev: "holds (sr_sink w1, sr_fs w1) (es @ [ev])" "event_matches r ev" "event_of_request q ev"
    by blast
  from Cons.IH [OF ev(1) qs] obtain evs where
    "holds (sr_sink w', sr_fs w') ((es @ [ev]) @ evs)"
    "list_all2 event_matches rs' evs" "list_all2 event_of_request qs evs" by blast
  with ev rs show ?case by (intro exI [of _ "ev # evs"]) simp
qed

end

subsection \<open>The two sinks agree\<close>

text \<open>A backend that leaves the files alone, such as the one in Python.\<close>

definition pure_backend :: "execution_backend \<Rightarrow> (backend_request \<Rightarrow> exn + backend_result) \<Rightarrow> bool" where
  "pure_backend be f \<longleftrightarrow> (\<forall>q fs. be_execute be q fs = (f q, fs))"

definition twins :: "path \<Rightarrow> audit_event list service_runtime \<Rightarrow> unit service_runtime \<Rightarrow> bool" where
  "twins p rm rj \<longleftrightarrow>
     sr_event_sink rm = in_memory_sink \<and> sr_event_sink rj = jsonl_sink p \<and>
     sr_boundary rm = sr_boundary rj \<and> sr_backend rm = sr_backend rj"

definition in_step :: "json list \<Rightarrow> path \<Rightarrow> audit_event list sr_world \<Rightarrow> unit sr_world \<Rightarrow> bool" where
  "in_step vs p wm wj \<longleftrightarrow>
     sr_tick wm = sr_tick wj \<and> list_all (\<lambda>ev. wf_json (ae_error ev)) (sr_sink wm) \<and>
     jsonl_holds p vs ((), sr_fs wj) (sr_sink wm)"

lemma sr_event_error [simp]: "ae_error (sr_event E i q ty a reason err b) = err"
  by (simp add: sr_event_def)

lemma emit_twins:
  assumes "twins p rm rj" "in_step vs p wm wj" "wf_json (ae_error ev)" "sr_emit rj ev r wj = (Inr r', wj')"
  shows "\<exists>wm'. sr_emit rm ev r wm = (Inr r', wm') \<and> in_step vs p wm' wj'"
proof -
  obtain fs1 where emit: "as_emit (jsonl_sink p) ev ((), sr_fs wj) = (Inr (), ((), fs1))"
    and wj': "wj' = wj\<lparr>sr_fs := fs1\<rparr>" and r': "r' = r"
    using assms(1,4) by (auto simp: sr_emit_def twins_def split: prod.splits sum.splits)
  have "jsonl_holds p vs ((), fs1) (sr_sink wm @ [ev])"
    using audit_jsonl.emit_holds [OF _ assms(3) emit] assms(2) by (simp add: in_step_def)
  then show ?thesis
    using assms(1-3) wj' r' by (simp add: sr_emit_def twins_def in_memory_sink_def in_step_def)
qed

lemma execute_twins:
  assumes t: "twins p rm rj" and pure: "pure_backend (sr_backend rj) f" "sound_backend (sr_backend rj)"
    and s: "in_step vs p wm wj" and run: "service_execute E rj q wj = (Inr r, wj')"
  shows "\<exists>wm'. service_execute E rm q wm = (Inr r, wm') \<and> in_step vs p wm' wj'"
proof -
  let ?t = "\<lambda>w. w\<lparr>sr_tick := Suc (sr_tick w)\<rparr>"
  have s0: "in_step vs p (?t wm) (?t wj)" and tick: "sr_tick wm = sr_tick wj"
    using s by (simp_all add: in_step_def)
  have be: "\<And>q fs. be_execute (sr_backend rj) q fs = (f q, fs)"
    using pure(1) by (simp add: pure_backend_def)
  have same: "sr_boundary rm = sr_boundary rj" "sr_backend rm = sr_backend rj"
    using t by (simp_all add: twins_def)
  have wf: "wf_json (br_error br)" if "f bq = Inr br" for bq br
    using pure(2) that be unfolding sound_backend_def by (metis prod.inject)
  note emit = emit_twins [OF t s0, unfolded tick]
  show ?thesis
    using run
    by (auto simp: service_execute_def Let_def same be tick wf
        split: sum.splits if_splits intro!: emit)
qed

lemma run_twins:
  assumes "twins p rm rj" "pure_backend (sr_backend rj) f" "sound_backend (sr_backend rj)"
  shows "in_step vs p wm wj \<Longrightarrow> service_run E rj qs wj = (Inr rs, wj') \<Longrightarrow>
    \<exists>wm'. service_run E rm qs wm = (Inr rs, wm') \<and> in_step vs p wm' wj'"
proof (induction qs arbitrary: wm wj rs)
  case Nil
  then show ?case by simp
next
  case (Cons q qs)
  from Cons.prems(2) obtain r w1 rs' where q: "service_execute E rj q wj = (Inr r, w1)"
    and qs: "service_run E rj qs w1 = (Inr rs', wj')" and rs: "rs = r # rs'"
    by (auto split: prod.splits sum.splits)
  from execute_twins [OF assms Cons.prems(1) q] obtain wm1
    where wm1: "service_execute E rm q wm = (Inr r, wm1)" "in_step vs p wm1 w1" by blast
  from Cons.IH [OF wm1(2) qs] wm1(1) rs show ?case by auto
qed

lemma pure_python:
  "pure_backend python_backend (\<lambda>q. Inr \<lparr>br_request_id = bq_request_id q, br_backend_name = ''python'',
     br_allowed = True, br_result = JObj [(''status'', JStr ''executed''), (''tool'', JStr (bq_tool_name q))],
     br_error = JNull, br_stdout = None, br_stderr = None, br_exit_code = JNull\<rparr>)"
  by (simp add: pure_backend_def python_backend_def python_execute_def)

subsection \<open>A torn line\<close>

lemma loads_two_objects:
  assumes "wf_json (JObj kvs)"
  shows "loads (dumps (JObj kvs) @ CHR ''{'' # s) = Inl (JSONDecodeError (dumps (JObj kvs) @ CHR ''{'' # s))"
proof -
  let ?t = "dumps (JObj kvs) @ CHR ''{'' # s"
  have "stops (CHR ''{'' # s)" by (simp add: stops_def num_char_def is_digit_def)
  then have "parse_value (2 * length ?t + 2) ?t = Some (JObj kvs, CHR ''{'' # s)"
    using assms by (intro parse_dumps(1)) auto
  moreover have "skip_ws ?t = ?t" "skip_ws (CHR ''{'' # s) \<noteq> []"
    by (simp_all add: skip_ws_def is_ws_def)
  ultimately show ?thesis unfolding loads_def by simp
qed

lemma torn_lines:
  assumes "b = [] \<or> last b = CHR 0x0A" "no_breaks l" "no_breaks l'" "strip (l @ l') = l @ l'" "l \<noteq> []"
    "loads (l @ l') = Inl e"
  shows "\<exists>e'. read_lines C 1 (split_on (CHR 0x0A) (universal_newlines (b @ l @ l' @ [CHR 0x0A]))) = Inl e'"
proof (cases "b = []")
  case True
  with assms lines_of_line [of "l @ l'"] show ?thesis by simp
next
  case False
  with assms(1) obtain b' where b: "b = b' @ [CHR 0x0A]" by (metis append_butlast_last_id)
  obtain w where w: "universal_newlines (b' @ [CHR 0x0A]) = w @ [CHR 0x0A]"
    using universal_newlines_end by blast
  have "universal_newlines (b @ l @ l' @ [CHR 0x0A]) = w @ CHR 0x0A # (l @ l') @ [CHR 0x0A]"
    using assms(2,3) universal_newlines_app [of b' "(l @ l') @ [CHR 0x0A]"]
    by (simp add: b w no_breaks_def universal_newlines_plain)
  then have "split_on (CHR 0x0A) (universal_newlines (b @ l @ l' @ [CHR 0x0A])) =
      split_on (CHR 0x0A) w @ [l @ l', []]"
    using assms(2,3) split_on_append_sep [of "CHR 0x0A" "l @ l'" "[]"]
    by (simp add: split_on_append no_breaks_def)
  then show ?thesis
    using assms(4-6) by (simp add: read_lines_append split: sum.splits)
qed

lemma jsonl_append_torn:
  assumes "fs_faults fs = IoPartial n m # fl" "jsonl_append p l fs = (r, fs1)" "jsonl_clean p fs"
    "os_walk fs [] p = Inr q" "node_at fs q \<noteq> Some Dir"
  shows "(\<exists>e. r = Inl e) \<and> fs_unreadable fs1 = fs_unreadable fs \<and> os_walk fs1 [] p = Inr q \<and>
         (\<exists>b. (b = [] \<or> last b = CHR 0x0A) \<and> node_at fs1 q = Some (File (b @ take n (l @ [CHR 0x0A]))))"
proof -
  let ?fs0 = "snd (next_io fs)"
  let ?b = "case node_at fs q of Some (File b) \<Rightarrow> b | _ \<Rightarrow> []"
  have io: "fst (next_io fs) = IoPartial n m" using assms(1) by (simp add: next_io_def)
  have nd: "node_at ?fs0 q \<noteq> Some Dir" using assms(5) by simp
  have r: "r = Inl (OSError m)" and fs1: "fs1 = set_node q (File (?b @ take n (l @ [CHR 0x0A]))) ?fs0"
    using assms(2,4,5) io by (auto simp: jsonl_append_def Let_def case_prod_unfold)
  have "os_walk fs1 [] p = Inr q"
    unfolding fs1 using os_walk_set [OF _ nd] assms(4) by simp
  moreover have "?b = [] \<or> last ?b = CHR 0x0A"
    using assms(3,4) by (auto simp: jsonl_clean_def split: option.split node.split)
  ultimately show ?thesis
    using r nd by (auto simp: fs1 node_at_set node_dir_ne intro!: exI [of _ ?b])
qed

lemma audit_emit_append:
  "audit_emit p ev fs = (Inr (), fs1) \<Longrightarrow>
     jsonl_append p (dumps_sorted (JObj (audit_record ev))) fs = (Inr (), fs1)"
  by (auto simp: audit_emit_def split: prod.splits sum.splits)

lemma dumps_record_brace: "\<exists>s. dumps_sorted (JObj kvs) = CHR ''{'' # s @ ''}''"
  using dumps_members_end [of "sort_key fst (map (\<lambda>(k, v). (k, sort_keys v)) kvs)"]
  by (auto simp: dumps_sorted_def)

lemma torn_then_written:
  assumes walk: "os_walk fs1 [] p = Inr q" and q: "q \<notin> set (fs_unreadable fs1)"
    and b: "b = [] \<or> last b = CHR 0x0A"
    and node: "node_at fs1 q = Some (File (b @ dumps_sorted (JObj (audit_record ev))))"
    and wf: "wf_json (ae_error ev)" "wf_json (ae_error ev')"
    and emit: "audit_emit p ev' fs1 = (Inr (), fs2)"
  shows "jsonl_clean p fs2 \<and> (\<exists>e. audit_read_events p fs2 = Inl e)"
proof -
  let ?l = "dumps_sorted (JObj (audit_record ev))" and ?l' = "dumps_sorted (JObj (audit_record ev'))"
  have wfl: "wf_json (JObj (audit_record ev))" and wfl': "wf_json (JObj (audit_record ev'))"
    using wf by (simp_all only: wf_audit_record)
  obtain s where s: "?l = CHR ''{'' # s @ ''}''" using dumps_record_brace by blast
  obtain s' where s': "?l' = CHR ''{'' # s' @ ''}''" using dumps_record_brace by blast
  have strip: "strip (?l @ ?l') = ?l @ ?l'"
    using strip_braces [of "s @ ''}'' @ CHR ''{'' # s'"] s s' by simp
  have loads: "\<exists>e. loads (?l @ ?l') = Inl e"
  proof -
    obtain kvs where kvs: "sort_keys (JObj (audit_record ev)) = JObj kvs" by simp
    then have l: "?l = dumps (JObj kvs)" by (simp only: dumps_sorted_def)
    have "wf_json (JObj kvs)" using wf_json_sort_keys [OF wfl] kvs by simp
    from loads_two_objects [OF this, of "s' @ ''}''"] show ?thesis
      unfolding l s' by auto
  qed
  let ?fs0 = "snd (next_io fs1)"
  have fs2: "fs2 = set_node q (File (b @ ?l @ ?l' @ [CHR 0x0A])) ?fs0"
    using audit_emit_append [OF emit] walk node
    by (auto simp: jsonl_append_def Let_def case_prod_unfold split: io_fault.splits)
  have walk2: "os_walk fs2 [] p = Inr q"
    unfolding fs2 using walk node by (intro os_walk_set) auto
  have node2: "node_at fs2 q = Some (File (b @ ?l @ ?l' @ [CHR 0x0A]))"
    unfolding fs2 by (subst node_at_set) (use node in auto)
  have q2: "q \<notin> set (fs_unreadable fs2)" using q by (simp add: fs2)
  have "jsonl_clean p fs2" using walk2 node2 q2 by (simp add: jsonl_clean_def)
  moreover obtain e where "loads (?l @ ?l') = Inl e" using loads by blast
  from torn_lines [OF b no_breaks_dumps_sorted [OF wfl] no_breaks_dumps_sorted [OF wfl'] strip _ this]
  have "\<exists>e. audit_read_events p fs2 = Inl e"
    using walk2 node2 q2 s by (simp add: audit_read_events_def jsonl_read_def)
  ultimately show ?thesis by blast
qed

subsection \<open>The properties\<close>

text \<open>C15: the persistent audit log is complete: when a client's requests have returned, reading the
  file gives what was there before and then exactly one record per request, in order, which
  agrees with the result the client got, denials and backend errors included.\<close>

theorem service_log_persistent:
  assumes "sr_event_sink rt = jsonl_sink p" "sound_backend (sr_backend rt)"
    "keeps_log (jsonl_holds p vs) (sr_backend rt)"
    "jsonl_clean p (sr_fs w)" "audit_read_events p (sr_fs w) = Inr vs"
    "service_run E rt qs w = (Inr rs, w')"
  shows "\<exists>evs. audit_read_events p (sr_fs w') = Inr (vs @ map stored_event evs) \<and>
      list_all2 event_matches rs evs \<and> list_all2 event_of_request qs evs"
proof -
  have "jsonl_holds p vs (sr_sink w, sr_fs w) []" using assms(4,5) by (simp add: jsonl_holds_def)
  from audit_jsonl.run_logs [OF _ assms(2,3) this assms(6)] assms(1) obtain evs where
    "jsonl_holds p vs (sr_sink w', sr_fs w') evs" "list_all2 event_matches rs evs"
    "list_all2 event_of_request qs evs" by auto
  then show ?thesis by (auto simp: jsonl_holds_def)
qed

definition audit_path :: path where
  "audit_path = [''ws'', ''audit.jsonl'']"

definition demo_request :: "string \<Rightarrow> sr_request" where
  "demo_request tool =
     \<lparr>sq_tool_name = tool, sq_arguments = [(''content'', JStr ''secret'')], sq_workspace = ''/ws'',
      sq_env = None, sq_request_id = Some ''r1''\<rparr>"

definition demo_service :: "'k audit_sink \<Rightarrow> 'k service_runtime" where
  "demo_service sink =
     service_init E0 0 (default_runtime_boundary (boundary_init None None None)) sink None"

definition demo_sr_world :: "'k \<Rightarrow> 'k sr_world" where
  "demo_sr_world k = \<lparr>sr_sink = k, sr_fs = fs_ws [], sr_tick = 1\<rparr>"

lemma demo_service_fields [simp]:
  "sr_event_sink (demo_service sink) = sink" "sr_backend (demo_service sink) = python_backend"
  "sr_boundary (demo_service sink) = sr_boundary (demo_service sink')"
  by (simp_all add: demo_service_def service_init_def)

lemma demo_fresh:
  "jsonl_clean audit_path (sr_fs (demo_sr_world k))"
  "audit_read_events audit_path (sr_fs (demo_sr_world k)) = Inr []"
  by (simp_all add: demo_sr_world_def audit_path_def fs_ws_def jsonl_clean_def audit_read_events_def
      jsonl_read_def node_at_def)

definition demo_requests :: "sr_request list" where
  "demo_requests = [demo_request ''filesystem.write'', demo_request ''shell.execute'']"

lemma demo_served:
  "\<exists>rs w'. service_run E0 (demo_service (jsonl_sink audit_path)) demo_requests (demo_sr_world ()) = (Inr rs, w') \<and>
     map ss_allowed rs = [True, False]"
proof -
  have "case service_run E0 (demo_service (jsonl_sink audit_path)) demo_requests (demo_sr_world ()) of
      (Inr rs, w') \<Rightarrow> map ss_allowed rs = [True, False] | _ \<Rightarrow> False"
    by code_simp
  then show ?thesis by (auto split: prod.splits sum.splits)
qed

theorem service_log_persistent_witness:
  "\<exists>rs w' evs. service_run E0 (demo_service (jsonl_sink audit_path)) demo_requests (demo_sr_world ()) = (Inr rs, w') \<and>
     audit_read_events audit_path (sr_fs w') = Inr (map stored_event evs) \<and>
     list_all2 event_matches rs evs \<and> map ss_allowed rs = [True, False]"
proof -
  obtain rs w' where run:
    "service_run E0 (demo_service (jsonl_sink audit_path)) demo_requests (demo_sr_world ()) = (Inr rs, w')"
    and rs: "map ss_allowed rs = [True, False]"
    using demo_served by auto
  from service_log_persistent [OF _ _ _ demo_fresh run] sound_python keeps_python rs run
  show ?thesis by auto
qed

text \<open>C26: the two sinks agree: whatever a run with the JSONL sink returned, the same run with the sink
  in memory returns too, and the lines added to the file are the records of the events in
  memory, for every backend that leaves the files alone, such as the default one.\<close>

theorem service_sinks_agree:
  assumes "twins p rm rj" "pure_backend (sr_backend rj) f" "sound_backend (sr_backend rj)"
    "sr_tick wm = sr_tick wj" "sr_sink wm = []"
    "jsonl_clean p (sr_fs wj)" "audit_read_events p (sr_fs wj) = Inr vs"
    "service_run E rj qs wj = (Inr rs, wj')"
  shows "\<exists>wm'. service_run E rm qs wm = (Inr rs, wm') \<and>
      audit_read_events p (sr_fs wj') = Inr (vs @ map stored_event (sr_sink wm'))"
proof -
  have "in_step vs p wm wj" using assms(4-7) by (simp add: in_step_def jsonl_holds_def)
  from run_twins [OF assms(1-3) this assms(8)] show ?thesis
    by (auto simp: in_step_def jsonl_holds_def)
qed

lemma demo_twins: "twins p (demo_service in_memory_sink) (demo_service (jsonl_sink p))"
  by (simp add: twins_def demo_service_def service_init_def)

theorem service_sinks_agree_witness:
  "\<exists>rs wj' wm'. service_run E0 (demo_service (jsonl_sink audit_path)) demo_requests (demo_sr_world ()) = (Inr rs, wj') \<and>
     service_run E0 (demo_service in_memory_sink) demo_requests (demo_sr_world []) = (Inr rs, wm') \<and>
     audit_read_events audit_path (sr_fs wj') = Inr (map stored_event (sr_sink wm')) \<and>
     map ss_allowed rs = [True, False]"
proof -
  obtain rs w' where run:
    "service_run E0 (demo_service (jsonl_sink audit_path)) demo_requests (demo_sr_world ()) = (Inr rs, w')"
    and rs: "map ss_allowed rs = [True, False]"
    using demo_served by auto
  have "sr_tick (demo_sr_world []) = sr_tick (demo_sr_world ())" "sr_sink (demo_sr_world []) = []"
    by (simp_all add: demo_sr_world_def)
  from service_sinks_agree [OF demo_twins _ _ this demo_fresh run] pure_python sound_python rs run
  show ?thesis by auto
qed

text \<open>C27: a torn line costs the whole log: after a write of an audit record that lost its newline, and the
  next one that succeeds, the file cannot be read any more, however many events are
  added, although all but that line are intact.\<close>

theorem torn_line_blocks_reading:
  assumes "jsonl_clean p fs" "os_walk fs [] p = Inr q" "node_at fs q \<noteq> Some Dir"
    "fs_faults fs = IoPartial (length (dumps_sorted (JObj (audit_record ev)))) m # fl"
    "list_all (\<lambda>e. wf_json (ae_error e)) (ev # ev' # evs)"
    "audit_emit p ev fs = (r, fs1)" "audit_emit p ev' fs1 = (Inr (), fs2)"
    "put_all (audit_emit p) evs fs2 = (Inr (), fs3)"
  shows "(\<exists>e. r = Inl e) \<and> (\<exists>e. audit_read_events p fs3 = Inl e)"
proof -
  let ?l = "dumps_sorted (JObj (audit_record ev))"
  obtain r0 where app: "jsonl_append p ?l fs = (r0, fs1)" and r: "(\<exists>e. r0 = Inl e) \<longrightarrow> (\<exists>e. r = Inl e)"
    using assms(6) by (auto simp: audit_emit_def split: prod.splits sum.splits)
  from jsonl_append_torn [OF assms(4) app assms(1-3)] obtain b where
    torn: "\<exists>e. r0 = Inl e" "fs_unreadable fs1 = fs_unreadable fs" "os_walk fs1 [] p = Inr q"
    "b = [] \<or> last b = CHR 0x0A" "node_at fs1 q = Some (File (b @ ?l))"
    by auto
  have "q \<notin> set (fs_unreadable fs1)"
    using assms(1,2) torn(2) by (simp add: jsonl_clean_def)
  from torn_then_written [OF torn(3) this torn(4,5) _ _ assms(7)] assms(5) obtain e
    where e: "jsonl_clean p fs2" "audit_read_events p fs2 = Inl e" by auto
  have "list_all (\<lambda>e. wf_json (ae_error e)) evs" using assms(5) by simp
  from audit_file.put_all_reads [OF e(1) this assms(8)] e(2) r torn(1) show ?thesis by simp
qed

definition demo_event :: audit_event where
  "demo_event = sr_event E0 0 (demo_request ''filesystem.write'') ''allow'' True ''ok'' JNull ''python''"

definition torn_fs :: fs where
  "torn_fs = fs_ws [IoPartial (length (dumps_sorted (JObj (audit_record demo_event)))) ''full'']"

theorem torn_line_blocks_reading_witness:
  "\<exists>r fs1 fs2 fs3. audit_emit audit_path demo_event torn_fs = (r, fs1) \<and>
     audit_emit audit_path demo_event fs1 = (Inr (), fs2) \<and>
     put_all (audit_emit audit_path) [demo_event] fs2 = (Inr (), fs3) \<and>
     (\<exists>e. audit_read_events audit_path fs3 = Inl e)"
proof -
  have "case audit_emit audit_path demo_event torn_fs of (r, fs1) \<Rightarrow>
      (case audit_emit audit_path demo_event fs1 of
         (Inr _, fs2) \<Rightarrow> fst (put_all (audit_emit audit_path) [demo_event] fs2) = Inr ()
       | _ \<Rightarrow> False)"
    by code_simp
  then obtain r fs1 fs2 fs3 where run: "audit_emit audit_path demo_event torn_fs = (r, fs1)"
    "audit_emit audit_path demo_event fs1 = (Inr (), fs2)"
    "put_all (audit_emit audit_path) [demo_event] fs2 = (Inr (), fs3)"
    by (auto split: prod.splits sum.splits simp: prod_eq_iff)
  have fs: "jsonl_clean audit_path torn_fs" "os_walk torn_fs [] audit_path = Inr audit_path"
    "node_at torn_fs audit_path \<noteq> Some Dir"
    "fs_faults torn_fs = IoPartial (length (dumps_sorted (JObj (audit_record demo_event)))) ''full'' # []"
    by (simp_all add: torn_fs_def fs_ws_def audit_path_def jsonl_clean_def node_at_def)
  have "list_all (\<lambda>e. wf_json (ae_error e)) [demo_event, demo_event, demo_event]"
    by (simp add: demo_event_def)
  from torn_line_blocks_reading [OF fs this run] run show ?thesis by blast
qed

text \<open>A binary that answers any request with one of the given texts, by its content.\<close>

definition demo_spawn :: spawn where
  "demo_spawn binary payload timeout fs =
     (Finished (if str_in ''list'' payload then ''[1]''
      else dumps (JObj [(''request_id'', JStr ''r1''), (''allowed'', JBool True), (''stdout'', JStr ''done'')])) [] 0, fs)"

definition demo_rust :: rust_backend where
  "demo_rust = rust_init [''ws'', ''a.txt''] (fs_ws [])"

definition demo_backend_request :: "string \<Rightarrow> backend_request" where
  "demo_backend_request c =
     \<lparr>bq_request_id = ''r1'', bq_tool_name = ''filesystem.write'',
      bq_arguments = [(''path'', JStr ''f''), (''content'', JStr c)], bq_workspace = ''/ws''\<rparr>"

text \<open>The request that the binary is sent loses nothing: decoding it gives back every field, whatever
  strings they hold, so two requests that are sent as the same text are the same request.\<close>

theorem chokepoint_request_decodes:
  "loads (dumps (chokepoint_request operation workspace p content request_id)) =
     Inr (chokepoint_request operation workspace p content request_id)"
  by (simp add: loads_dumps)

text \<open>C31: the chokepoint backend allows exactly what the binary allowed: an allowed result means that the tool is
  supported, the binary was there at the start, it was asked, ended with return code 0 and
  answered with an object whose \<open>allowed\<close> is true; and whenever it does so, the result is
  allowed.\<close>

theorem rust_allowed_iff:
  assumes "rust_execute spawn b q fs = (Inr r, fs1)"
  shows "br_allowed r \<longleftrightarrow>
    (\<exists>operation binary out err d.
       map_of CHOKEPOINT_OPERATION_MAP (bq_tool_name q) = Some operation \<and> rust_client b = Some binary \<and>
       spawned spawn binary operation q fs = (Finished out err 0, fs1) \<and>
       loads out = Inr (JObj d) \<and> truth (dget_or d ''allowed'' (JBool False)))"
proof (cases "map_of CHOKEPOINT_OPERATION_MAP (bq_tool_name q) = None \<or> rust_client b = None")
  case True
  with assms show ?thesis by (auto simp: rust_execute_def split: option.splits)
next
  case False
  then obtain op binary where "map_of CHOKEPOINT_OPERATION_MAP (bq_tool_name q) = Some op"
    "rust_client b = Some binary" by auto
  with rust_asked [OF this, of spawn fs] assms show ?thesis
    by (auto simp: as_dict_iff chokepoint_from_dict_def
        split: prod.splits spawn_outcome.splits sum.splits if_splits)
qed

theorem rust_allowed_iff_witness:
  "\<exists>r. rust_execute demo_spawn demo_rust (demo_backend_request ''c'') (fs_ws []) = (Inr r, fs_ws []) \<and> br_allowed r \<and>
     (\<exists>out err d. spawned demo_spawn [''ws'', ''a.txt''] ''write_text'' (demo_backend_request ''c'') (fs_ws []) = (Finished out err 0, fs_ws []) \<and>
        loads out = Inr (JObj d) \<and> truth (dget_or d ''allowed'' (JBool False)))"
proof -
  let ?x = "rust_execute demo_spawn demo_rust (demo_backend_request ''c'') (fs_ws [])"
  have "(case fst ?x of Inr r \<Rightarrow> br_allowed r | Inl _ \<Rightarrow> False)" "snd ?x = fs_ws []" by code_simp+
  then obtain r where r: "?x = (Inr r, fs_ws [])" "br_allowed r"
    by (cases "fst ?x") (auto simp: prod_eq_iff)
  have "map_of CHOKEPOINT_OPERATION_MAP (bq_tool_name (demo_backend_request ''c'')) = Some ''write_text''"
    "rust_client demo_rust = Some [''ws'', ''a.txt'']" by code_simp+
  with rust_allowed_iff [OF r(1)] r show ?thesis by auto
qed

text \<open>Errors of the chokepoint are values: the backend raises only what \<open>subprocess.run\<close> raised
  outside the cases the client handles, or \<open>AttributeError\<close> for an answer that is JSON but not an
  object; a missing binary, a timeout, a return code and a text that is not JSON all become a
  refusal with the error in it.\<close>

theorem rust_exceptions:
  assumes "rust_execute spawn b q fs = (Inl e, fs1)"
  shows "\<not> chokepoint_error e \<and>
    (\<exists>operation binary.
       map_of CHOKEPOINT_OPERATION_MAP (bq_tool_name q) = Some operation \<and> rust_client b = Some binary \<and>
       (spawned spawn binary operation q fs = (SpawnRaises e, fs1) \<or>
        (\<exists>out err v. spawned spawn binary operation q fs = (Finished out err 0, fs1) \<and>
           loads out = Inr v \<and> as_dict v = Inl e)))"
proof (cases "map_of CHOKEPOINT_OPERATION_MAP (bq_tool_name q) = None \<or> rust_client b = None")
  case True
  with assms show ?thesis by (auto simp: rust_execute_def split: option.splits)
next
  case False
  then obtain op binary where "map_of CHOKEPOINT_OPERATION_MAP (bq_tool_name q) = Some op"
    "rust_client b = Some binary" by auto
  with rust_asked [OF this, of spawn fs] assms show ?thesis
    by (auto split: prod.splits spawn_outcome.splits sum.splits if_splits dest: as_dict_error)
qed

theorem rust_exceptions_witness:
  "\<exists>e. rust_execute demo_spawn demo_rust (demo_backend_request ''list'') (fs_ws []) = (Inl e, fs_ws []) \<and>
     \<not> chokepoint_error e"
proof -
  let ?x = "rust_execute demo_spawn demo_rust (demo_backend_request ''list'') (fs_ws [])"
  have "(case fst ?x of Inl _ \<Rightarrow> True | Inr _ \<Rightarrow> False)" "snd ?x = fs_ws []" by code_simp+
  then obtain e where e: "?x = (Inl e, fs_ws [])"
    by (cases "fst ?x") (auto simp: prod_eq_iff)
  with rust_exceptions [OF e] show ?thesis by blast
qed

text \<open>An exception of the backend leaves no audit event, although the binary may have acted.\<close>

lemma backend_exception_not_logged:
  assumes "rb_evaluate_tool (sr_boundary rt) (sq_tool_name q) = Inr d" "rb_allowed d"
    "be_execute (sr_backend rt) \<lparr>bq_request_id = sr_id E (sr_tick w) q, bq_tool_name = sq_tool_name q,
       bq_arguments = sq_arguments q, bq_workspace = sq_workspace q\<rparr> (sr_fs w) = (Inl e, fs1)"
  shows "\<exists>w'. service_execute E rt q w = (Inl e, w') \<and> sr_sink w' = sr_sink w \<and> sr_fs w' = fs1"
  using assms by (simp add: service_execute_def Let_def)

text \<open>A request that the boundary denies never reaches the backend: the result and every effect are
  the same for all backends.\<close>

theorem service_denied_not_executed:
  assumes "rb_evaluate_tool (sr_boundary rt) (sq_tool_name q) = Inr d" "\<not> rb_allowed d"
  shows "service_execute E (rt\<lparr>sr_backend := be\<rparr>) q w = service_execute E rt q w \<and>
    (\<forall>r w'. service_execute E rt q w = (Inr r, w') \<longrightarrow> \<not> ss_allowed r \<and> ss_reason r = rb_reason d)"
  using assms
  by (auto simp: service_execute_def Let_def sr_emit_def split: prod.splits sum.splits)

theorem service_denied_not_executed_witness:
  "service_execute E0 (demo_service in_memory_sink\<lparr>sr_backend := rust_chokepoint_backend demo_spawn demo_rust\<rparr>)
     (demo_request ''shell.execute'') (demo_sr_world []) =
   service_execute E0 (demo_service in_memory_sink) (demo_request ''shell.execute'') (demo_sr_world [])"
proof -
  have "rb_evaluate_tool (sr_boundary (demo_service in_memory_sink)) (sq_tool_name (demo_request ''shell.execute'')) =
      Inr (evaluate_tool (boundary_init None None None) ''shell.execute'')"
    by (simp add: demo_service_def service_init_def default_runtime_boundary_def demo_request_def)
  moreover have "\<not> rb_allowed (evaluate_tool (boundary_init None None None) ''shell.execute'')"
    by code_simp
  ultimately show ?thesis using service_denied_not_executed by blast
qed

end
