(* ===== verification/Scheduler.thy ===== *)
theory Scheduler
  imports Jsonl
begin

text \<open>
  \<open>koguchi/reconciliation_scheduler.py\<close> and \<open>koguchi/reconciliation_store.py\<close>: jobs planned
  from audit events, the schema-level check that settles them, and the JSONL file of their
  results. An audit event is the JSON value that was read, of any shape; a request id is
  compared as a dictionary key, where \<open>True\<close> is \<open>1\<close> (floats by their text).
\<close>

subsection \<open>Jobs and results\<close>

datatype reconciliation_status = PENDING | RUNNING | PASSED | FAILED | SKIPPED

fun status_value :: "reconciliation_status \<Rightarrow> string" where
  "status_value PENDING = ''pending''"
| "status_value RUNNING = ''running''"
| "status_value PASSED = ''passed''"
| "status_value FAILED = ''failed''"
| "status_value SKIPPED = ''skipped''"

record reconciliation_job =
  j_job_id :: string
  j_request_id :: json
  j_tool_name :: string
  j_source_event :: "(string \<times> json) list"
  j_status :: reconciliation_status
  j_reason :: "string option"

record reconciliation_result =
  rs_job_id :: string
  rs_request_id :: json
  rs_status :: reconciliation_status
  rs_message :: "string option"
  rs_error :: "string option"

type_synonym job_store = "(string \<times> reconciliation_job) list"

definition job_add :: "reconciliation_job \<Rightarrow> job_store \<Rightarrow> job_store" where
  "job_add job jobs = dict_set (j_job_id job) job jobs"

definition job_get :: "string \<Rightarrow> job_store \<Rightarrow> exn + reconciliation_job" where
  "job_get job_id jobs =
     (case map_of jobs job_id of None \<Rightarrow> Inl (KeyError job_id) | Some job \<Rightarrow> Inr job)"

definition job_list :: "job_store \<Rightarrow> reconciliation_job list" where
  "job_list jobs = map snd jobs"

definition job_update :: "reconciliation_job \<Rightarrow> job_store \<Rightarrow> job_store" where
  "job_update job jobs = dict_set (j_job_id job) job jobs"

subsection \<open>The result store\<close>

definition reconciliation_record ::
  "py_env \<Rightarrow> nat \<Rightarrow> reconciliation_result \<Rightarrow> json \<Rightarrow> (string \<times> json) list" where
  "reconciliation_record E i r backend =
     [(''schema_version'', JInt 1), (''result_id'', JStr (''result:'' @ rs_job_id r)),
      (''job_id'', JStr (rs_job_id r)), (''request_id'', rs_request_id r),
      (''status'', JStr (status_value (rs_status r))),
      (''message'', case rs_message r of None \<Rightarrow> JNull | Some m \<Rightarrow> JStr m),
      (''error'', case rs_error r of None \<Rightarrow> JNull | Some m \<Rightarrow> JStr m),
      (''checked_at'', JStr (isoformat (now E i))), (''source_event_backend'', backend)]"

definition result_store_init :: "path \<Rightarrow> bool \<Rightarrow> (fs, path) py" where
  "result_store_init p create_parent fs =
     (if create_parent
      then (case path_mkdir (parent p) fs of (Inl e, fs1) \<Rightarrow> (Inl e, fs1) | (Inr _, fs1) \<Rightarrow> (Inr p, fs1))
      else (Inr p, fs))"

definition result_append ::
  "py_env \<Rightarrow> path \<Rightarrow> nat \<times> reconciliation_result \<times> json \<Rightarrow> (fs, unit) py" where
  "result_append E p x fs =
     (case x of (i, r, backend) \<Rightarrow>
        (case jsonl_append p (dumps_sorted (JObj (reconciliation_record E i r backend))) fs of
           (Inr _, fs1) \<Rightarrow> (Inr (), fs1)
         | (Inl e, fs1) \<Rightarrow>
             (Inl (ReconciliationWriteError
                (''Cannot write result to '' @ path_str p @ '': '' @ exn_str e)), fs1)))"

definition read_results :: "path \<Rightarrow> fs \<Rightarrow> exn + json list" where
  "read_results p = jsonl_read ReconciliationSerializationError p"

subsection \<open>The scheduler\<close>

record scheduler =
  sd_events :: "json list"
  sd_result_store :: "path option"

record sched =
  sc_jobs :: job_store
  sc_fs :: fs
  sc_tick :: nat

text \<open>A value as a key of a set; lists and dictionaries cannot be one.\<close>

definition hash_key :: "json \<Rightarrow> exn + json" where
  "hash_key v =
     (case v of
        JBool b \<Rightarrow> Inr (JInt (if b then 1 else 0))
      | JArr _ \<Rightarrow> Inl (TypeError (''unhashable type: '' @ [CHR 0x27] @ ''list'' @ [CHR 0x27]))
      | JObj _ \<Rightarrow> Inl (TypeError (''unhashable type: '' @ [CHR 0x27] @ ''dict'' @ [CHR 0x27]))
      | _ \<Rightarrow> Inr v)"

definition em_dash :: string where
  "em_dash = [CHR 0xE2, CHR 0x80, CHR 0x94]"

definition planned_job :: "json \<Rightarrow> (string \<times> json) list \<Rightarrow> reconciliation_job" where
  "planned_job rid event =
     \<lparr>j_job_id = ''reconcile:'' @ py_str rid, j_request_id = rid,
      j_tool_name = py_str (dget_or event ''tool_name'' (JStr ''unknown'')), j_source_event = event,
      j_status = (if dget event ''allowed'' = JBool True \<and> dget event ''error'' = JNull
                  then PENDING else SKIPPED),
      j_reason = (if dget event ''allowed'' = JBool True \<and> dget event ''error'' = JNull then None
                  else if dget event ''error'' \<noteq> JNull
                  then Some (''error event '' @ em_dash @ '' not reconcilable'')
                  else Some (''denied event '' @ em_dash @ '' not reconcilable''))\<rparr>"

text \<open>One turn of the loop: \<open>Inr None\<close> is \<open>continue\<close>.\<close>

definition plan_event :: "json set \<Rightarrow> json \<Rightarrow> exn + reconciliation_job option" where
  "plan_event existing v =
     (case as_dict v of
        Inl e \<Rightarrow> Inl e
      | Inr event \<Rightarrow>
          (let rid = dget_or event ''request_id'' (JStr [])
           in if \<not> truth rid then Inr None
              else (case hash_key rid of
                      Inl e \<Rightarrow> Inl e
                    | Inr key \<Rightarrow>
                        if key \<in> existing then Inr None else Inr (Some (planned_job rid event)))))"

text \<open>\<open>{j.request_id for j in self._store.list()}\<close>\<close>

definition existing_ids :: "job_store \<Rightarrow> exn + json set" where
  "existing_ids jobs =
     (case traverse (\<lambda>j. hash_key (j_request_id j)) (job_list jobs) of
        Inl e \<Rightarrow> Inl e | Inr keys \<Rightarrow> Inr (set keys))"

definition plan :: "scheduler \<Rightarrow> (sched, reconciliation_job list) py" where
  "plan sd s =
     (case existing_ids (sc_jobs s) of
        Inl e \<Rightarrow> (Inl e, s)
      | Inr existing \<Rightarrow>
          (case traverse (plan_event existing) (sd_events sd) of
             Inl e \<Rightarrow> (Inl e, s)
           | Inr planned \<Rightarrow>
               (let jobs = map the (filter (\<lambda>j. j \<noteq> None) planned)
                in (Inr jobs, s\<lparr>sc_jobs := foldl (\<lambda>js j. job_add j js) (sc_jobs s) jobs\<rparr>))))"

definition verify :: "reconciliation_job \<Rightarrow> bool" where
  "verify job =
     (truth (dget (j_source_event job) ''request_id'') \<and>
      truth (dget (j_source_event job) ''tool_name'') \<and>
      dget (j_source_event job) ''allowed'' = JBool True)"

definition append_result ::
  "py_env \<Rightarrow> scheduler \<Rightarrow> reconciliation_result \<Rightarrow> reconciliation_job \<Rightarrow> (sched, unit) py" where
  "append_result E sd result job s =
     (case sd_result_store sd of
        None \<Rightarrow> (Inr (), s)
      | Some p \<Rightarrow>
          (case result_append E p (sc_tick s, result, dget (j_source_event job) ''execution_backend'')
                  (sc_fs s) of
             (r, fs1) \<Rightarrow> (r, s\<lparr>sc_fs := fs1, sc_tick := Suc (sc_tick s)\<rparr>)))"

definition verdict :: "reconciliation_job \<Rightarrow> reconciliation_status" where
  "verdict job = (if verify job then PASSED else FAILED)"

definition job_result :: "reconciliation_job \<Rightarrow> reconciliation_result" where
  "job_result job =
     \<lparr>rs_job_id = j_job_id job, rs_request_id = j_request_id job, rs_status = verdict job,
      rs_message = Some (if verify job then ''Schema-level verification passed''
                         else ''Schema-level verification failed''),
      rs_error = None\<rparr>"

definition run_job :: "py_env \<Rightarrow> scheduler \<Rightarrow> string \<Rightarrow> (sched, reconciliation_result) py" where
  "run_job E sd job_id s =
     (case job_get job_id (sc_jobs s) of
        Inl _ \<Rightarrow>
          (Inr \<lparr>rs_job_id = job_id, rs_request_id = JStr [], rs_status = FAILED, rs_message = None,
                rs_error = Some (''Job not found: '' @ job_id)\<rparr>, s)
      | Inr job \<Rightarrow>
          if j_status job \<noteq> PENDING
          then (Inr \<lparr>rs_job_id = j_job_id job, rs_request_id = j_request_id job,
                     rs_status = j_status job, rs_message = Some ''Already completed'',
                     rs_error = None\<rparr>, s)
          else (let running = job\<lparr>j_status := RUNNING\<rparr>;
                    s1 = s\<lparr>sc_jobs := job_update running (sc_jobs s)\<rparr>;
                    settled = running\<lparr>j_status := verdict running\<rparr>;
                    s2 = s1\<lparr>sc_jobs := job_update settled (sc_jobs s1)\<rparr>
                in (case append_result E sd (job_result running) settled s2 of
                      (Inl e, s3) \<Rightarrow> (Inl e, s3)
                    | (Inr _, s3) \<Rightarrow> (Inr (job_result running), s3))))"

text \<open>The loop over the jobs, whose objects carry their current status.\<close>

fun run_loop :: "py_env \<Rightarrow> scheduler \<Rightarrow> string list \<Rightarrow> (sched, reconciliation_result list) py" where
  "run_loop E sd [] s = (Inr [], s)"
| "run_loop E sd (i # ids) s =
     (case job_get i (sc_jobs s) of
        Inl e \<Rightarrow> (Inl e, s)
      | Inr job \<Rightarrow>
          if j_status job = PENDING
          then (case run_job E sd (j_job_id job) s of
                  (Inl e, s1) \<Rightarrow> (Inl e, s1)
                | (Inr r, s1) \<Rightarrow>
                    (case run_loop E sd ids s1 of
                       (Inl e, s2) \<Rightarrow> (Inl e, s2) | (Inr rs, s2) \<Rightarrow> (Inr (r # rs), s2)))
          else run_loop E sd ids s)"

definition run_pending :: "py_env \<Rightarrow> scheduler \<Rightarrow> (sched, reconciliation_result list) py" where
  "run_pending E sd s = run_loop E sd (map fst (sc_jobs s)) s"

fun persist_loop :: "py_env \<Rightarrow> path \<Rightarrow> reconciliation_result list \<Rightarrow> (sched, unit) py" where
  "persist_loop E p [] s = (Inr (), s)"
| "persist_loop E p (r # rs) s =
     (let backend = (case job_get (rs_job_id r) (sc_jobs s) of
                       Inl _ \<Rightarrow> JNull | Inr job \<Rightarrow> dget (j_source_event job) ''execution_backend'')
      in (case result_append E p (sc_tick s, r, backend) (sc_fs s) of
            (Inl e, fs1) \<Rightarrow> (Inl e, s\<lparr>sc_fs := fs1, sc_tick := Suc (sc_tick s)\<rparr>)
          | (Inr _, fs1) \<Rightarrow> persist_loop E p rs (s\<lparr>sc_fs := fs1, sc_tick := Suc (sc_tick s)\<rparr>)))"

definition persist_results :: "py_env \<Rightarrow> scheduler \<Rightarrow> reconciliation_result list \<Rightarrow> (sched, unit) py" where
  "persist_results E sd rs s =
     (case sd_result_store sd of None \<Rightarrow> (Inr (), s) | Some p \<Rightarrow> persist_loop E p rs s)"

definition summary :: "sched \<Rightarrow> (string \<times> nat) list" where
  "summary s =
     (let counts = foldl (\<lambda>c job.
            dict_set (status_value (j_status job))
              ((case map_of c (status_value (j_status job)) of None \<Rightarrow> 0 | Some n \<Rightarrow> n) + 1) c)
            [] (job_list (sc_jobs s))
      in (''planned'', sum_list (map snd counts)) # counts)"

subsection \<open>The result file keeps its records\<close>

definition stored_result :: "py_env \<Rightarrow> nat \<times> reconciliation_result \<times> json \<Rightarrow> json" where
  "stored_result E x = sort_keys (JObj (reconciliation_record E (fst x) (fst (snd x)) (snd (snd x))))"

definition wf_result :: "nat \<times> reconciliation_result \<times> json \<Rightarrow> bool" where
  "wf_result x \<longleftrightarrow> wf_json (rs_request_id (fst (snd x))) \<and> wf_json (snd (snd x))"

lemma wf_reconciliation_record:
  "wf_json (JObj (reconciliation_record E i r b)) \<longleftrightarrow> wf_json (rs_request_id r) \<and> wf_json b"
  by (simp add: reconciliation_record_def split: option.split)

interpretation result_file:
  jsonl_log "result_append E p" "read_results p" "stored_result E" wf_result "jsonl_clean p"
proof unfold_locales
  fix fs fs' :: fs and x
  assume h: "jsonl_clean p fs" "wf_result x" "result_append E p x fs = (Inr (), fs')"
  obtain i r b where x: "x = (i, r, b)" by (cases x)
  have app: "jsonl_append p (dumps_sorted (JObj (reconciliation_record E i r b))) fs = (Inr (), fs')"
    using h(3) by (auto simp: result_append_def x split: prod.splits sum.splits)
  have wf: "wf_json (JObj (reconciliation_record E i r b))"
    using h(2) by (simp only: wf_reconciliation_record wf_result_def x fst_conv snd_conv)
  show "jsonl_clean p fs' \<and>
      read_results p fs' =
        (case read_results p fs of Inl e \<Rightarrow> Inl e | Inr vs \<Rightarrow> Inr (vs @ [stored_result E x]))"
    unfolding read_results_def stored_result_def x fst_conv snd_conv
    by (rule jsonl_append_json [OF h(1) wf refl app])
qed

end
