(* ===== verification/SchedulerProps.thy ===== *)
theory SchedulerProps
  imports Scheduler Fixtures
begin

text \<open>
  The life of a reconciliation job: planned once per request id, settled once by its own event,
  and final from then on; \<open>run_pending\<close> settles every pending job and its results are what
  the result file is given; a result whose write fails is lost.
\<close>

subsection \<open>The job store\<close>

lemma dict_set_map:
  "distinct (map fst al) \<Longrightarrow> k \<in> fst ` set al \<Longrightarrow>
     dict_set k v al = map (\<lambda>(k', w). (k', if k' = k then v else w)) al"
proof (induction al)
  case (Cons kw al)
  obtain k' w where kw: "kw = (k', w)" by (cases kw)
  have "map (\<lambda>(k', w). (k', if k' = k then v else w)) al = al" if "k \<notin> fst ` set al"
    using that by (intro map_idI) force
  with Cons kw show ?case by auto
qed simp

text \<open>Every job is under its own id, which is made of its request id, a string; no job is left running.\<close>

definition job_ok :: "string \<times> reconciliation_job \<Rightarrow> bool" where
  "job_ok kj \<longleftrightarrow>
     fst kj = j_job_id (snd kj) \<and> j_status (snd kj) \<noteq> RUNNING \<and>
     (\<exists>s. j_request_id (snd kj) = JStr s \<and> j_job_id (snd kj) = ''reconcile:'' @ s)"

definition sched_inv :: "sched \<Rightarrow> bool" where
  "sched_inv s \<longleftrightarrow> distinct (map fst (sc_jobs s)) \<and> list_all job_ok (sc_jobs s)"

text \<open>The event of one turn: a dictionary whose request id, if any, is a string.\<close>

definition string_event :: "json \<Rightarrow> bool" where
  "string_event v \<longleftrightarrow> (\<forall>event. v = JObj event \<longrightarrow> (\<exists>s. dget_or event ''request_id'' (JStr []) = JStr s))"

definition settle :: "reconciliation_job \<Rightarrow> reconciliation_job" where
  "settle j = (if j_status j = PENDING then j\<lparr>j_status := verdict j\<rparr> else j)"

lemma verdict_update [simp]: "verdict (j\<lparr>j_status := st\<rparr>) = verdict j"
  by (simp add: verdict_def verify_def)

lemma verdict_settled [simp]: "verdict j \<noteq> PENDING" "verdict j \<noteq> RUNNING"
  by (simp_all add: verdict_def)

lemma job_result_update [simp]: "job_result (j\<lparr>j_status := st\<rparr>) = job_result j"
  by (simp add: job_result_def verify_def)

lemma settle_fields [simp]:
  "j_job_id (settle j) = j_job_id j" "j_request_id (settle j) = j_request_id j"
  "j_status (settle j) \<noteq> PENDING" "settle (settle j) = settle j"
  by (simp_all add: settle_def)

lemma settle_ok: "job_ok (k, j) \<Longrightarrow> job_ok (k, settle j)"
  by (auto simp: job_ok_def settle_def)

lemma inv_lookup: "sched_inv s \<Longrightarrow> map_of (sc_jobs s) i = Some j \<Longrightarrow> job_ok (i, j)"
  by (auto simp: sched_inv_def list_all_iff dest: map_of_SomeD)

lemma map_of_map_snd:
  "map_of (map (\<lambda>(k, j). (k, f k j)) al) i = map_option (f i) (map_of al i)"
  by (induction al) auto

subsection \<open>Running\<close>

definition settle_id :: "string \<Rightarrow> job_store \<Rightarrow> job_store" where
  "settle_id i jobs = map (\<lambda>(k, j). (k, if k = i then settle j else j)) jobs"

lemma append_result_jobs [simp]: "sc_jobs (snd (append_result E sd r j s)) = sc_jobs s"
  by (auto simp: append_result_def split: option.splits prod.splits)

lemma job_update_pending:
  assumes "sched_inv s" "map_of (sc_jobs s) i = Some j" "j_status j = PENDING"
  shows "job_update (j\<lparr>j_status := verdict j\<rparr>) (job_update (j\<lparr>j_status := RUNNING\<rparr>) (sc_jobs s)) =
           settle_id i (sc_jobs s)"
proof -
  have i: "j_job_id j = i" using inv_lookup [OF assms(1,2)] by (simp add: job_ok_def)
  have "i \<in> fst ` set (sc_jobs s)" using assms(2) by (force dest: map_of_SomeD)
  then have "dict_set i (j\<lparr>j_status := verdict j\<rparr>) (sc_jobs s) =
      map (\<lambda>(k, w). (k, if k = i then j\<lparr>j_status := verdict j\<rparr> else w)) (sc_jobs s)"
    using assms(1) by (intro dict_set_map) (simp_all add: sched_inv_def)
  also have "\<dots> = settle_id i (sc_jobs s)"
    unfolding settle_id_def
  proof (rule map_cong)
    fix kw assume kw: "kw \<in> set (sc_jobs s)"
    obtain k w where k: "kw = (k, w)" by (cases kw)
    have "w = j" if "k = i"
    proof -
      have "map_of (sc_jobs s) k = Some w"
        using assms(1) kw k by (simp add: sched_inv_def)
      with assms(2) that show ?thesis by simp
    qed
    then show "(\<lambda>(k, w). (k, if k = i then j\<lparr>j_status := verdict j\<rparr> else w)) kw =
        (\<lambda>(k, j). (k, if k = i then settle j else j)) kw"
      using assms(3) by (simp add: k settle_def)
  qed simp
  finally show ?thesis by (simp add: job_update_def i)
qed

lemma settle_id_lookup: "map_of (settle_id i jobs) k = map_option (if k = i then settle else id) (map_of jobs k)"
  using map_of_map_snd [of "\<lambda>k j. if k = i then settle j else j" jobs k]
  by (auto simp: settle_id_def cong: map_option_cong)

lemma settle_id_inv: "sched_inv s \<Longrightarrow> sc_jobs s' = settle_id i (sc_jobs s) \<Longrightarrow> sched_inv s'"
  by (auto simp: sched_inv_def settle_id_def case_prod_unfold comp_def list_all_iff
      intro: settle_ok)

lemma run_job_pending:
  assumes "sched_inv s" "map_of (sc_jobs s) i = Some j" "j_status j = PENDING" "run_job E sd i s = (r, s')"
  shows "sc_jobs s' = settle_id i (sc_jobs s) \<and> (\<forall>x. r = Inr x \<longrightarrow> x = job_result j) \<and>
    (sd_result_store sd = None \<longrightarrow> r = Inr (job_result j)) \<and>
    (\<forall>p. sd_result_store sd = Some p \<longrightarrow> (\<forall>x. r = Inr x \<longrightarrow>
       result_append E p (sc_tick s, job_result j, dget (j_source_event j) ''execution_backend'') (sc_fs s) = (Inr (), sc_fs s')))"
proof -
  let ?s2 = "s\<lparr>sc_jobs := settle_id i (sc_jobs s)\<rparr>"
  have "run_job E sd i s =
      (case append_result E sd (job_result j) (j\<lparr>j_status := verdict j\<rparr>) ?s2 of
         (Inl e, s3) \<Rightarrow> (Inl e, s3) | (Inr _, s3) \<Rightarrow> (Inr (job_result j), s3))"
    using assms(2,3) job_update_pending [OF assms(1-3)]
    by (simp add: run_job_def job_get_def Let_def split: prod.split sum.split)
  then have run: "(case append_result E sd (job_result j) (j\<lparr>j_status := verdict j\<rparr>) ?s2 of
         (Inl e, s3) \<Rightarrow> (Inl e, s3) | (Inr _, s3) \<Rightarrow> (Inr (job_result j), s3)) = (r, s')"
    using assms(4) by simp
  have "sc_jobs (snd (append_result E sd (job_result j) (j\<lparr>j_status := verdict j\<rparr>) ?s2)) = settle_id i (sc_jobs s)"
    by simp
  with run show ?thesis
    by (auto simp: append_result_def split: prod.splits sum.splits option.splits)
qed

lemma run_job_other:
  "map_of (sc_jobs s) i = None \<or> (\<exists>j. map_of (sc_jobs s) i = Some j \<and> j_status j \<noteq> PENDING) \<Longrightarrow>
     \<exists>x. run_job E sd i s = (Inr x, s)"
  by (auto simp: run_job_def job_get_def)

text \<open>All the jobs of a list of ids.\<close>

definition settle_ids :: "string set \<Rightarrow> job_store \<Rightarrow> job_store" where
  "settle_ids I jobs = map (\<lambda>(k, j). (k, if k \<in> I then settle j else j)) jobs"

definition pending_results :: "job_store \<Rightarrow> string list \<Rightarrow> (reconciliation_result \<times> json) list" where
  "pending_results jobs ids =
     map (\<lambda>j. (job_result j, dget (j_source_event j) ''execution_backend''))
       (filter (\<lambda>j. j_status j = PENDING) (map (\<lambda>i. the (map_of jobs i)) ids))"

lemma settle_ids_step:
  "i \<notin> I \<Longrightarrow> settle_ids I (settle_id i jobs) = settle_ids (insert i I) jobs"
  by (auto simp: settle_ids_def settle_id_def)

lemma settle_ids_skip:
  assumes "distinct (map fst jobs)" "map_of jobs i = Some j" "j_status j \<noteq> PENDING"
  shows "settle_ids (insert i I) jobs = settle_ids I jobs"
proof -
  have "settle w = w" if "(i, w) \<in> set jobs" for w
    using assms that by (auto simp: settle_def)
  then show ?thesis by (auto simp: settle_ids_def)
qed

lemma settle_ids_empty [simp]: "settle_ids {} jobs = jobs"
  by (simp add: settle_ids_def)

lemma pending_results_cong:
  "(\<And>i. i \<in> set ids \<Longrightarrow> map_of jobs i = map_of jobs' i) \<Longrightarrow>
     pending_results jobs ids = pending_results jobs' ids"
  by (simp add: pending_results_def cong: map_cong)

text \<open>What a run that returned has done, the writes to the result file included.\<close>

lemma run_loop_returns:
  assumes "run_loop E sd ids s = (Inr rs, s')" "sched_inv s" "distinct ids" "set ids \<subseteq> fst ` set (sc_jobs s)"
  shows "sc_jobs s' = settle_ids (set ids) (sc_jobs s) \<and>
    rs = map fst (pending_results (sc_jobs s) ids) \<and>
    (\<forall>p. sd_result_store sd = Some p \<longrightarrow>
       (\<exists>xs. map snd xs = pending_results (sc_jobs s) ids \<and>
             put_all (result_append E p) xs (sc_fs s) = (Inr (), sc_fs s')))"
  using assms
proof (induction ids arbitrary: s rs)
  case Nil
  then show ?case by (simp add: pending_results_def)
next
  case (Cons i ids)
  from Cons.prems(4) obtain j where j: "map_of (sc_jobs s) i = Some j"
    by (metis insert_subset list.set(2) map_of_eq_None_iff not_None_eq)
  have id: "j_job_id j = i" using inv_lookup [OF Cons.prems(2) j] by (simp add: job_ok_def)
  show ?case
  proof (cases "j_status j = PENDING")
    case False
    with Cons.prems(1) j have "run_loop E sd ids s = (Inr rs, s')" by (simp add: job_get_def)
    from Cons.IH [OF this] Cons.prems False j settle_ids_skip [OF _ j False, of "set ids"] show ?thesis
      by (simp add: pending_results_def sched_inv_def)
  next
    case True
    with Cons.prems(1) j id obtain r s1 rs' where r: "run_job E sd i s = (Inr r, s1)"
      and rest: "run_loop E sd ids s1 = (Inr rs', s')" and rs: "rs = r # rs'"
      by (auto simp: job_get_def split: prod.splits sum.splits)
    from run_job_pending [OF Cons.prems(2) j True r]
    have jobs1: "sc_jobs s1 = settle_id i (sc_jobs s)" and r': "r = job_result j"
      and app: "\<And>p. sd_result_store sd = Some p \<Longrightarrow>
        result_append E p (sc_tick s, job_result j, dget (j_source_event j) ''execution_backend'') (sc_fs s) = (Inr (), sc_fs s1)"
      by auto
    have "set ids \<subseteq> fst ` set (sc_jobs s1)"
      using Cons.prems(4) by (auto simp: jobs1 settle_id_def image_image case_prod_unfold)
    from Cons.IH [OF rest settle_id_inv [OF Cons.prems(2) jobs1] _ this] Cons.prems(3)
    have IH: "sc_jobs s' = settle_ids (set ids) (sc_jobs s1)" "rs' = map fst (pending_results (sc_jobs s1) ids)"
      "\<And>p. sd_result_store sd = Some p \<Longrightarrow>
        \<exists>xs. map snd xs = pending_results (sc_jobs s1) ids \<and>
          put_all (result_append E p) xs (sc_fs s1) = (Inr (), sc_fs s')"
      by auto
    have same: "pending_results (sc_jobs s1) ids = pending_results (sc_jobs s) ids"
      using Cons.prems(3) by (intro pending_results_cong) (auto simp: jobs1 settle_id_lookup option.map_id)
    have first: "pending_results (sc_jobs s) (i # ids) =
        (job_result j, dget (j_source_event j) ''execution_backend'') # pending_results (sc_jobs s) ids"
      using j True by (simp add: pending_results_def)
    have "\<exists>xs. map snd xs = pending_results (sc_jobs s) (i # ids) \<and>
        put_all (result_append E p) xs (sc_fs s) = (Inr (), sc_fs s')" if p: "sd_result_store sd = Some p" for p
    proof -
      from IH(3) [OF p] obtain xs where "map snd xs = pending_results (sc_jobs s) ids"
        "put_all (result_append E p) xs (sc_fs s1) = (Inr (), sc_fs s')" by (auto simp: same)
      with app [OF p] first show ?thesis
        by (intro exI [of _ "(sc_tick s, job_result j, dget (j_source_event j) ''execution_backend'') # xs"]) simp
    qed
    moreover have "sc_jobs s' = settle_ids (set (i # ids)) (sc_jobs s)"
      using IH(1) settle_ids_step [of i "set ids" "sc_jobs s"] Cons.prems(3) by (simp add: jobs1)
    ultimately show ?thesis using IH(2) rs r' same first by simp
  qed
qed

subsection \<open>Planning\<close>

definition request_ids :: "job_store \<Rightarrow> json set" where
  "request_ids jobs = j_request_id ` snd ` set jobs"

lemma existing_ids_inv: "sched_inv s \<Longrightarrow> existing_ids (sc_jobs s) = Inr (request_ids (sc_jobs s))"
proof -
  assume "sched_inv s"
  then have "traverse (\<lambda>j. hash_key (j_request_id j)) (job_list (sc_jobs s)) =
      Inr (map j_request_id (job_list (sc_jobs s)))"
    by (intro traverse_Inr_map)
      (auto simp: sched_inv_def job_list_def list_all_iff job_ok_def hash_key_def)
  then show ?thesis by (simp add: existing_ids_def request_ids_def job_list_def image_image)
qed

text \<open>What one event is planned as.\<close>

lemma plan_event_string:
  assumes "plan_event existing v = Inr x" "string_event v"
  shows "(\<exists>event s. v = JObj event \<and> dget_or event ''request_id'' (JStr []) = JStr s \<and>
       x = (if s = [] \<or> JStr s \<in> existing then None else Some (planned_job (JStr s) event)))"
proof -
  from assms(1) obtain event where v: "v = JObj event"
    by (auto simp: plan_event_def as_dict_iff split: sum.splits)
  with assms(2) obtain s where "dget_or event ''request_id'' (JStr []) = JStr s"
    by (auto simp: string_event_def)
  with assms(1) v show ?thesis
    by (auto simp: plan_event_def json_simps Let_def hash_key_def split: if_splits)
qed

lemma planned_job_ok: "job_ok (j_job_id (planned_job (JStr s) event), planned_job (JStr s) event)"
  by (simp add: job_ok_def planned_job_def)

definition add_jobs :: "reconciliation_job list \<Rightarrow> job_store \<Rightarrow> job_store" where
  "add_jobs js jobs = foldl (\<lambda>jobs j. job_add j jobs) jobs js"

lemma add_jobs_props:
  "distinct (map fst jobs) \<Longrightarrow> list_all job_ok jobs \<Longrightarrow> list_all (\<lambda>j. job_ok (j_job_id j, j)) js \<Longrightarrow>
     distinct (map fst (add_jobs js jobs)) \<and> list_all job_ok (add_jobs js jobs) \<and>
     (\<forall>i. i \<notin> j_job_id ` set js \<longrightarrow> map_of (add_jobs js jobs) i = map_of jobs i) \<and>
     fst ` set (add_jobs js jobs) = fst ` set jobs \<union> j_job_id ` set js"
proof (induction js arbitrary: jobs)
  case Nil
  then show ?case by (simp add: add_jobs_def)
next
  case (Cons j js)
  let ?jobs = "job_add j jobs"
  have "set ?jobs \<subseteq> insert (j_job_id j, j) (set jobs)"
    unfolding job_add_def by (induction jobs) auto
  then have ok: "list_all job_ok ?jobs" using Cons.prems by (auto simp: list_all_iff)
  have d: "distinct (map fst ?jobs)" using Cons.prems by (simp add: job_add_def distinct_update)
  have keys: "fst ` set ?jobs = insert (j_job_id j) (fst ` set jobs)"
    by (simp add: job_add_def dom_map_of_conv_image_fst [symmetric] update_conv')
  have "map_of ?jobs i = map_of jobs i" if "i \<noteq> j_job_id j" for i
    using that by (simp add: job_add_def update_conv')
  with Cons.IH [OF d ok] Cons.prems keys show ?case
    by (auto simp: add_jobs_def)
qed

lemma job_request_of_key:
  "list_all job_ok jobs \<Longrightarrow> ''reconcile:'' @ s \<in> fst ` set jobs \<longleftrightarrow> JStr s \<in> request_ids jobs"
  by (force simp: request_ids_def list_all_iff job_ok_def)

lemma traverse_Inr_iff: "traverse f xs = Inr ys \<longleftrightarrow> list_all2 (\<lambda>x y. f x = Inr y) xs ys"
proof (induction xs arbitrary: ys)
  case Nil
  then show ?case by auto
next
  case (Cons x xs)
  show ?case
    by (cases ys) (auto simp: Cons.IH [symmetric] split: sum.splits)
qed

lemma plan_returns:
  assumes "plan sd s = (Inr jobs, s')" "sched_inv s" "list_all string_event (sd_events sd)"
  shows "sc_jobs s' = add_jobs jobs (sc_jobs s) \<and> sc_fs s' = sc_fs s \<and>
    (\<forall>j \<in> set jobs. \<exists>t event. JObj event \<in> set (sd_events sd) \<and> JStr t \<notin> request_ids (sc_jobs s) \<and>
       dget_or event ''request_id'' (JStr []) = JStr t \<and> t \<noteq> [] \<and> j = planned_job (JStr t) event) \<and>
    (\<forall>v \<in> set (sd_events sd). \<exists>event t. v = JObj event \<and> dget_or event ''request_id'' (JStr []) = JStr t \<and>
       (t = [] \<or> JStr t \<in> request_ids (sc_jobs s) \<or> planned_job (JStr t) event \<in> set jobs))"
proof -
  let ?ex = "request_ids (sc_jobs s)"
  obtain xs where xs: "traverse (plan_event ?ex) (sd_events sd) = Inr xs"
    and jobs: "jobs = map the (filter (\<lambda>j. j \<noteq> None) xs)"
    and s': "s' = s\<lparr>sc_jobs := add_jobs jobs (sc_jobs s)\<rparr>"
    using assms(1) existing_ids_inv [OF assms(2)]
    by (auto simp: plan_def Let_def add_jobs_def split: sum.splits)
  from xs have len: "length xs = length (sd_events sd)"
    and ev: "\<And>n. n < length xs \<Longrightarrow> plan_event ?ex (sd_events sd ! n) = Inr (xs ! n)"
    by (auto simp: traverse_Inr_iff list_all2_conv_all_nth)
  have one: "\<exists>event t. sd_events sd ! n = JObj event \<and> dget_or event ''request_id'' (JStr []) = JStr t \<and>
      xs ! n = (if t = [] \<or> JStr t \<in> ?ex then None else Some (planned_job (JStr t) event))"
    if "n < length xs" for n
    using plan_event_string [OF ev [OF that]] assms(3) that len by (auto simp: list_all_length)
  have in_jobs: "j \<in> set jobs \<longleftrightarrow> Some j \<in> set xs" for j
    by (force simp: jobs)
  have "\<exists>t event. JObj event \<in> set (sd_events sd) \<and> JStr t \<notin> ?ex \<and>
       dget_or event ''request_id'' (JStr []) = JStr t \<and> t \<noteq> [] \<and> j = planned_job (JStr t) event"
    if j: "j \<in> set jobs" for j
  proof -
    from j have "Some j \<in> set xs" by (simp only: in_jobs)
    then obtain n where n: "n < length xs" "xs ! n = Some j" by (metis in_set_conv_nth)
    from one [OF n(1)] obtain event t where
      e: "sd_events sd ! n = JObj event" "dget_or event ''request_id'' (JStr []) = JStr t"
      "xs ! n = (if t = [] \<or> JStr t \<in> ?ex then None else Some (planned_job (JStr t) event))"
      by blast
    have "t \<noteq> [] \<and> JStr t \<notin> ?ex \<and> j = planned_job (JStr t) event"
      using e(3) n(2) by (cases "t = [] \<or> JStr t \<in> ?ex") simp_all
    moreover have "JObj event \<in> set (sd_events sd)"
      using n(1) len nth_mem [of n "sd_events sd"] e(1) by simp
    ultimately show ?thesis using e(2) by blast
  qed
  moreover have "\<exists>event t. v = JObj event \<and> dget_or event ''request_id'' (JStr []) = JStr t \<and>
       (t = [] \<or> JStr t \<in> ?ex \<or> planned_job (JStr t) event \<in> set jobs)"
    if v: "v \<in> set (sd_events sd)" for v
  proof -
    from v len obtain n where n: "n < length xs" "v = sd_events sd ! n" by (auto simp: in_set_conv_nth)
    from one [OF n(1)] obtain event t where
      e: "v = JObj event" "dget_or event ''request_id'' (JStr []) = JStr t"
      "xs ! n = (if t = [] \<or> JStr t \<in> ?ex then None else Some (planned_job (JStr t) event))"
      using n(2) by blast
    have "xs ! n \<in> set xs" using n(1) by simp
    then have "t = [] \<or> JStr t \<in> ?ex \<or> planned_job (JStr t) event \<in> set jobs"
      using e(3) by (metis in_jobs)
    with e(1,2) show ?thesis by blast
  qed
  ultimately show ?thesis using s' by simp
qed

lemma plan_keeps:
  assumes "plan sd s = (r, s')" "sched_inv s" "list_all string_event (sd_events sd)"
  shows "sched_inv s' \<and> sc_fs s' = sc_fs s \<and>
    (\<forall>i j. map_of (sc_jobs s) i = Some j \<longrightarrow> map_of (sc_jobs s') i = Some j)"
proof (cases r)
  case (Inl e)
  with assms show ?thesis
    by (auto simp: plan_def Let_def split: sum.splits)
next
  case (Inr jobs)
  from plan_returns [OF assms(1) [unfolded Inr] assms(2,3)]
  have s': "sc_jobs s' = add_jobs jobs (sc_jobs s)" "sc_fs s' = sc_fs s"
    and jobs: "\<And>j. j \<in> set jobs \<Longrightarrow> \<exists>t event. JStr t \<notin> request_ids (sc_jobs s) \<and> j = planned_job (JStr t) event"
    by blast+
  have ok: "list_all (\<lambda>j. job_ok (j_job_id j, j)) jobs"
    using jobs planned_job_ok by (fastforce simp: list_all_iff)
  from add_jobs_props [OF _ _ ok, of "sc_jobs s"] assms(2)
  have props: "distinct (map fst (add_jobs jobs (sc_jobs s)))" "list_all job_ok (add_jobs jobs (sc_jobs s))"
    "\<And>i. i \<notin> j_job_id ` set jobs \<Longrightarrow> map_of (add_jobs jobs (sc_jobs s)) i = map_of (sc_jobs s) i"
    by (auto simp: sched_inv_def)
  have "i \<notin> j_job_id ` set jobs" if i: "map_of (sc_jobs s) i = Some j" for i j
  proof
    assume "i \<in> j_job_id ` set jobs"
    then obtain t event where t: "JStr t \<notin> request_ids (sc_jobs s)" "i = j_job_id (planned_job (JStr t) event)"
      using jobs by blast
    have "i \<in> fst ` set (sc_jobs s)" using i by (force dest: map_of_SomeD)
    with t job_request_of_key [of "sc_jobs s" t] assms(2) show False
      by (simp add: sched_inv_def planned_job_def)
  qed
  with props s' show ?thesis by (simp add: sched_inv_def)
qed

subsection \<open>The life of a job\<close>

text \<open>
  What happens to a scheduler's state: planning from any audit events that hold (\<open>sd\<close> varies),
  running one job or all, and any change of the file system by others. Exceptions included: a
  step takes the state an operation leaves, whatever it returns.
\<close>

inductive sched_step :: "py_env \<Rightarrow> sched \<Rightarrow> sched \<Rightarrow> bool" for E where
  step_plan: "list_all string_event (sd_events sd) \<Longrightarrow> sched_step E s (snd (plan sd s))"
| step_job: "sched_step E s (snd (run_job E sd i s))"
| step_pending: "sched_step E s (snd (run_pending E sd s))"
| step_disk: "sched_step E s (s\<lparr>sc_fs := fs\<rparr>)"

text \<open>What may become of a job: nothing, or the verdict of its own event if it was pending.\<close>

definition advances :: "sched \<Rightarrow> sched \<Rightarrow> bool" where
  "advances s s' \<longleftrightarrow>
     sched_inv s' \<and>
     (\<forall>i j. map_of (sc_jobs s) i = Some j \<longrightarrow>
        map_of (sc_jobs s') i = Some j \<or> map_of (sc_jobs s') i = Some (settle j))"

lemma advances_trans: "advances s s1 \<Longrightarrow> advances s1 s2 \<Longrightarrow> advances s s2"
  unfolding advances_def by (metis settle_fields(4))

lemma run_job_advances:
  assumes "sched_inv s"
  shows "advances s (snd (run_job E sd i s))"
proof (cases "\<exists>j. map_of (sc_jobs s) i = Some j \<and> j_status j = PENDING")
  case True
  then obtain j where j: "map_of (sc_jobs s) i = Some j" "j_status j = PENDING" by blast
  obtain r s' where r: "run_job E sd i s = (r, s')" by (cases "run_job E sd i s")
  have "sc_jobs s' = settle_id i (sc_jobs s)" using run_job_pending [OF assms j r] by simp
  with settle_id_inv [OF assms this] r show ?thesis
    by (simp add: advances_def settle_id_lookup)
next
  case False
  with run_job_other [of s i E sd] assms show ?thesis
    by (cases "map_of (sc_jobs s) i") (auto simp: advances_def)
qed

lemma run_loop_advances: "sched_inv s \<Longrightarrow> advances s (snd (run_loop E sd ids s))"
proof (induction ids arbitrary: s)
  case Nil
  then show ?case by (simp add: advances_def)
next
  case (Cons i ids)
  show ?case
  proof (cases "\<exists>j. job_get i (sc_jobs s) = Inr j \<and> j_status j = PENDING")
    case True
    then obtain j where j: "job_get i (sc_jobs s) = Inr j" "j_status j = PENDING" by blast
    obtain r s1 where r: "run_job E sd (j_job_id j) s = (r, s1)" by (cases "run_job E sd (j_job_id j) s")
    have 1: "advances s s1" using run_job_advances [OF Cons.prems, of E sd "j_job_id j"] r by simp
    then have "advances s1 (snd (run_loop E sd ids s1))" by (intro Cons.IH) (simp add: advances_def)
    with advances_trans [OF 1] 1 j r show ?thesis
      by (auto split: sum.split prod.split)
  next
    case False
    with Cons show ?thesis
      by (auto simp: advances_def split: sum.split)
  qed
qed

lemma step_advances: "sched_step E s s' \<Longrightarrow> sched_inv s \<Longrightarrow> advances s s'"
proof (induction rule: sched_step.induct)
  case (step_plan sd s)
  then show ?case
    using plan_keeps [of sd s "fst (plan sd s)" "snd (plan sd s)"] by (simp add: advances_def)
next
  case (step_job s sd i)
  then show ?case by (rule run_job_advances)
next
  case (step_pending s sd)
  then show ?case by (simp add: run_pending_def run_loop_advances)
next
  case (step_disk s fs)
  then show ?case by (simp add: advances_def sched_inv_def)
qed

definition new_sched :: "fs \<Rightarrow> sched" where
  "new_sched fs = \<lparr>sc_jobs = [], sc_fs = fs, sc_tick = 0\<rparr>"

lemma new_sched_inv: "sched_inv (new_sched fs)"
  by (simp add: sched_inv_def new_sched_def)

lemma steps_inv: "(sched_step E)\<^sup>*\<^sup>* s s' \<Longrightarrow> sched_inv s \<Longrightarrow> sched_inv s'"
  by (induction rule: rtranclp_induct) (auto dest: step_advances simp: advances_def)

lemma steps_advance: "(sched_step E)\<^sup>*\<^sup>* s s' \<Longrightarrow> sched_inv s \<Longrightarrow> advances s s'"
proof (induction rule: rtranclp_induct)
  case base
  then show ?case by (simp add: advances_def)
next
  case (step y z)
  then have a: "advances s y" by simp
  then have "advances y z" using step by (intro step_advances) (simp_all add: advances_def)
  with a show ?case by (rule advances_trans)
qed

subsection \<open>The properties\<close>

definition demo_audit :: "string \<Rightarrow> json" where
  "demo_audit rid =
     JObj [(''request_id'', JStr rid), (''tool_name'', JStr ''filesystem.write''), (''allowed'', JBool True),
           (''error'', JNull)]"

definition demo_sched :: "path option \<Rightarrow> scheduler" where
  "demo_sched p = \<lparr>sd_events = [demo_audit ''r1'', demo_audit ''r2''], sd_result_store = p\<rparr>"

definition planned_sched :: "io_fault list \<Rightarrow> sched" where
  "planned_sched faults = snd (plan (demo_sched None) (new_sched (fs_ws faults)))"

lemma demo_events_ok [simp]: "list_all string_event (sd_events (demo_sched p))"
  by (simp add: demo_sched_def string_event_def demo_audit_def json_simps)

lemma planned_sched_inv: "sched_inv (planned_sched faults)"
  using plan_keeps [of "demo_sched None" "new_sched (fs_ws faults)"] new_sched_inv
  by (simp add: planned_sched_def prod_eq_iff)

lemma planned_sched_job:
  "\<exists>j. map_of (sc_jobs (planned_sched faults)) ''reconcile:r1'' = Some j \<and> j_status j = PENDING"
proof -
  have "sc_jobs (planned_sched faults) = sc_jobs (planned_sched [])"
    by (simp add: planned_sched_def plan_def new_sched_def Let_def split: sum.split)
  moreover have "case map_of (sc_jobs (planned_sched [])) ''reconcile:r1'' of
      Some j \<Rightarrow> j_status j = PENDING | None \<Rightarrow> False"
    by code_simp
  ultimately show ?thesis by (auto split: option.splits)
qed

text \<open>C13: the life of a job, over any history from an empty scheduler of planning (from audit events whose request
  ids are strings), running and failing writes: a job is never removed or replaced, a pending
  job may become the verdict of its own event and nothing else, and a job that is settled
  or skipped stays as it is for ever.\<close>

theorem job_lifecycle:
  assumes "(sched_step E)\<^sup>*\<^sup>* (new_sched fs0) s" "(sched_step E)\<^sup>*\<^sup>* s s'" "map_of (sc_jobs s) i = Some j"
  shows "\<exists>j'. map_of (sc_jobs s') i = Some j' \<and>
    (j_status j \<noteq> PENDING \<longrightarrow> j' = j) \<and> (j' = j \<or> j' = j\<lparr>j_status := if verify j then PASSED else FAILED\<rparr>)"
proof -
  have "map_of (sc_jobs s') i = Some j \<or> map_of (sc_jobs s') i = Some (settle j)"
    using steps_advance [OF assms(2) steps_inv [OF assms(1) new_sched_inv]] assms(3)
    by (simp add: advances_def)
  then show ?thesis by (auto simp: settle_def verdict_def)
qed

theorem job_lifecycle_witness:
  "\<exists>j j'. map_of (sc_jobs (planned_sched [])) ''reconcile:r1'' = Some j \<and> j_status j = PENDING \<and>
     map_of (sc_jobs (snd (run_pending E0 (demo_sched None) (planned_sched [])))) ''reconcile:r1'' = Some j' \<and>
     (j' = j \<or> j' = j\<lparr>j_status := if verify j then PASSED else FAILED\<rparr>)"
proof -
  obtain j where j: "map_of (sc_jobs (planned_sched [])) ''reconcile:r1'' = Some j" "j_status j = PENDING"
    using planned_sched_job by blast
  have 1: "(sched_step E0)\<^sup>*\<^sup>* (new_sched (fs_ws [])) (planned_sched [])"
    unfolding planned_sched_def by (intro r_into_rtranclp step_plan demo_events_ok)
  have 2: "(sched_step E0)\<^sup>*\<^sup>* (planned_sched []) (snd (run_pending E0 (demo_sched None) (planned_sched [])))"
    by (intro r_into_rtranclp step_pending)
  from job_lifecycle [OF 1 2 j(1)] j show ?thesis by (elim exE conjE) (intro exI conjI; assumption)
qed

lemma pending_all:
  assumes "sched_inv s"
  shows "pending_results (sc_jobs s) (map fst (sc_jobs s)) =
    map (\<lambda>j. (job_result j, dget (j_source_event j) ''execution_backend''))
      (filter (\<lambda>j. j_status j = PENDING) (job_list (sc_jobs s)))"
proof -
  have "map (\<lambda>i. the (map_of (sc_jobs s) i)) (map fst (sc_jobs s)) = job_list (sc_jobs s)"
    using assms by (auto simp: job_list_def sched_inv_def)
  then show ?thesis by (simp only: pending_results_def)
qed

lemma run_pending_jobs:
  assumes "sched_inv s" "run_pending E sd s = (Inr rs, s')"
  shows "sc_jobs s' = map (\<lambda>(k, j). (k, settle j)) (sc_jobs s) \<and>
    rs = map job_result (filter (\<lambda>j. j_status j = PENDING) (job_list (sc_jobs s))) \<and>
    (\<forall>p. sd_result_store sd = Some p \<longrightarrow>
       (\<exists>xs. map snd xs = pending_results (sc_jobs s) (map fst (sc_jobs s)) \<and>
             put_all (result_append E p) xs (sc_fs s) = (Inr (), sc_fs s')))"
proof -
  have d: "distinct (map fst (sc_jobs s))" using assms(1) by (simp add: sched_inv_def)
  have all: "settle_ids (set (map fst (sc_jobs s))) (sc_jobs s) = map (\<lambda>(k, j). (k, settle j)) (sc_jobs s)"
    by (force simp: settle_ids_def)
  have rs: "map fst (pending_results (sc_jobs s) (map fst (sc_jobs s))) =
      map job_result (filter (\<lambda>j. j_status j = PENDING) (job_list (sc_jobs s)))"
    by (simp add: pending_all [OF assms(1)])
  from run_loop_returns [OF assms(2) [unfolded run_pending_def] assms(1) d] all rs
  show ?thesis by simp
qed

lemma run_loop_total:
  "sd_result_store sd = None \<Longrightarrow> sched_inv s \<Longrightarrow> set ids \<subseteq> fst ` set (sc_jobs s) \<Longrightarrow>
     \<exists>rs s'. run_loop E sd ids s = (Inr rs, s')"
proof (induction ids arbitrary: s)
  case Nil
  then show ?case by simp
next
  case (Cons i ids)
  from Cons.prems(3) obtain j where j: "map_of (sc_jobs s) i = Some j"
    by (metis insert_subset list.set(2) map_of_eq_None_iff not_None_eq)
  show ?case
  proof (cases "j_status j = PENDING")
    case True
    have id: "j_job_id j = i" using inv_lookup [OF Cons.prems(2) j] by (simp add: job_ok_def)
    obtain r s1 where r: "run_job E sd i s = (r, s1)" by (cases "run_job E sd i s")
    from run_job_pending [OF Cons.prems(2) j True r]
    have s1: "sc_jobs s1 = settle_id i (sc_jobs s)" "r = Inr (job_result j)"
      using Cons.prems(1) by blast+
    have "set ids \<subseteq> fst ` set (sc_jobs s1)"
      using Cons.prems(3) by (auto simp: s1 settle_id_def image_image case_prod_unfold)
    from Cons.IH [OF Cons.prems(1) settle_id_inv [OF Cons.prems(2) s1(1)] this] obtain rs s2
      where "run_loop E sd ids s1 = (Inr rs, s2)" by blast
    with j True id r s1 show ?thesis by (simp add: job_get_def)
  next
    case False
    with Cons.IH [OF Cons.prems(1,2)] Cons.prems(3) j show ?thesis by (simp add: job_get_def)
  qed
qed

text \<open>C14: \<open>run_pending\<close>, where it returns, has settled every job, each pending one by its own event, its
  results are those verdicts in the order of the jobs, and with a result store the file has
  one new record per result, in the same order, after what it held.\<close>

theorem run_pending_settles:
  assumes "(sched_step E)\<^sup>*\<^sup>* (new_sched fs0) s" "run_pending E sd s = (Inr rs, s')"
    "sd_result_store sd = Some p" "jsonl_clean p (sc_fs s)" "read_results p (sc_fs s) = Inr vs"
    "list_all (\<lambda>j. wf_json (JObj (j_source_event j))) (job_list (sc_jobs s))"
  shows "sc_jobs s' = map (\<lambda>(k, j). (k, settle j)) (sc_jobs s) \<and>
    rs = map job_result (filter (\<lambda>j. j_status j = PENDING) (job_list (sc_jobs s))) \<and>
    (\<exists>xs. map (\<lambda>x. fst (snd x)) xs = rs \<and> read_results p (sc_fs s') = Inr (vs @ map (stored_result E) xs))"
proof -
  have inv: "sched_inv s" by (rule steps_inv [OF assms(1) new_sched_inv])
  from run_pending_jobs [OF inv assms(2)] assms(3) obtain xs where
    jobs: "sc_jobs s' = map (\<lambda>(k, j). (k, settle j)) (sc_jobs s)"
    and rs: "rs = map job_result (filter (\<lambda>j. j_status j = PENDING) (job_list (sc_jobs s)))"
    and xs: "map snd xs = pending_results (sc_jobs s) (map fst (sc_jobs s))"
      "put_all (result_append E p) xs (sc_fs s) = (Inr (), sc_fs s')" by blast
  have "wf_json (j_request_id j) \<and> wf_json (dget (j_source_event j) k)"
    if "j \<in> set (job_list (sc_jobs s))" for j k
    using that assms(6) inv
    by (auto simp: list_all_iff sched_inv_def job_list_def job_ok_def json_simps wf_members_iff
        split: option.split dest!: map_of_SomeD)
  then have "\<forall>y \<in> set (map snd xs). wf_json (rs_request_id (fst y)) \<and> wf_json (snd y)"
    unfolding xs(1) pending_all [OF inv] by (auto simp: job_result_def)
  then have "list_all wf_result xs" by (auto simp: list_all_iff wf_result_def)
  from result_file.put_all_reads [OF assms(4) this xs(2)] assms(5)
  have "read_results p (sc_fs s') = Inr (vs @ map (stored_result E) xs)" by simp
  moreover have "map (\<lambda>x. fst (snd x)) xs = rs"
    using arg_cong [OF xs(1), of "map fst"] by (simp add: pending_all [OF inv] rs comp_def)
  ultimately show ?thesis using jobs rs by blast
qed

definition results_path :: path where
  "results_path = [''ws'', ''results.jsonl'']"

lemma planned_reachable: "(sched_step E)\<^sup>*\<^sup>* (new_sched (fs_ws faults)) (planned_sched faults)"
  unfolding planned_sched_def by (intro r_into_rtranclp step_plan demo_events_ok)

lemma planned_fs: "sc_fs (planned_sched faults) = fs_ws faults"
  using plan_keeps [of "demo_sched None" "new_sched (fs_ws faults)"] new_sched_inv
  by (simp add: planned_sched_def prod_eq_iff) (simp add: new_sched_def)

lemma results_fresh:
  "jsonl_clean results_path (sc_fs (planned_sched []))" "read_results results_path (sc_fs (planned_sched [])) = Inr []"
  unfolding planned_fs
  by (simp_all add: results_path_def fs_ws_def jsonl_clean_def read_results_def jsonl_read_def node_at_def)

theorem run_pending_settles_witness:
  "\<exists>rs s' xs. run_pending E0 (demo_sched (Some results_path)) (planned_sched []) = (Inr rs, s') \<and> length rs = 2 \<and>
     map (\<lambda>x. fst (snd x)) xs = rs \<and> read_results results_path (sc_fs s') = Inr (map (stored_result E0) xs)"
proof -
  have "case run_pending E0 (demo_sched (Some results_path)) (planned_sched []) of
      (Inr rs, s') \<Rightarrow> length rs = 2 | _ \<Rightarrow> False"
    by code_simp
  then obtain rs s' where run: "run_pending E0 (demo_sched (Some results_path)) (planned_sched []) = (Inr rs, s')"
    and rs: "length rs = 2"
    by (auto split: prod.splits sum.splits)
  have "list_all (\<lambda>j. wf_json (JObj (j_source_event j))) (job_list (sc_jobs (planned_sched [])))"
    by code_simp
  from run_pending_settles [OF planned_reachable run _ results_fresh this] run rs show ?thesis
    by (auto simp: demo_sched_def)
qed

text \<open>C29: without a result store \<open>run_pending\<close> always returns, and a second run at once has nothing to do.\<close>

theorem run_pending_returns:
  assumes "(sched_step E)\<^sup>*\<^sup>* (new_sched fs0) s" "sd_result_store sd = None"
  shows "\<exists>rs s'. run_pending E sd s = (Inr rs, s') \<and> run_pending E sd s' = (Inr [], s')"
proof -
  have inv: "sched_inv s" by (rule steps_inv [OF assms(1) new_sched_inv])
  from run_loop_total [OF assms(2) inv, of "map fst (sc_jobs s)" E] obtain rs s'
    where run: "run_pending E sd s = (Inr rs, s')" by (auto simp: run_pending_def)
  have "sched_step E s s'" using step_pending [of E s sd] run by simp
  then have inv': "sched_inv s'" using step_advances [OF _ inv] by (simp add: advances_def)
  from run_loop_total [OF assms(2) inv', of "map fst (sc_jobs s')" E] obtain rs2 s2
    where run2: "run_pending E sd s' = (Inr rs2, s2)" by (auto simp: run_pending_def)
  have settled: "j_status j \<noteq> PENDING" if "(k, j) \<in> set (sc_jobs s')" for k j
    using that run_pending_jobs [OF inv run] by auto
  have "run_loop E sd ids s' = (Inr [], s')" if "set ids \<subseteq> fst ` set (sc_jobs s')" for ids
    using that
  proof (induction ids)
    case (Cons i ids)
    then obtain j where "map_of (sc_jobs s') i = Some j"
      by (metis insert_subset list.set(2) map_of_eq_None_iff not_None_eq)
    with Cons settled show ?case by (auto simp: job_get_def dest: map_of_SomeD)
  qed simp
  with run show ?thesis by (auto simp: run_pending_def)
qed

theorem run_pending_returns_witness:
  "\<exists>rs s'. run_pending E0 (demo_sched None) (planned_sched []) = (Inr rs, s') \<and>
     run_pending E0 (demo_sched None) s' = (Inr [], s')"
  by (rule run_pending_returns [OF planned_reachable]) (simp add: demo_sched_def)

text \<open>C28: planning is idempotent: planning again from the same events, or any of them, makes no job.\<close>

theorem plan_idempotent:
  assumes "(sched_step E)\<^sup>*\<^sup>* (new_sched fs0) s" "list_all string_event (sd_events sd)"
    "plan sd s = (Inr jobs, s')" "set (sd_events sd') \<subseteq> set (sd_events sd)"
  shows "plan sd' s' = (Inr [], s')"
proof -
  have inv: "sched_inv s" by (rule steps_inv [OF assms(1) new_sched_inv])
  have inv': "sched_inv s'" using plan_keeps [OF assms(3) inv assms(2)] by simp
  from plan_returns [OF assms(3) inv assms(2)]
  have s': "sc_jobs s' = add_jobs jobs (sc_jobs s)"
    and jobs: "\<And>j. j \<in> set jobs \<Longrightarrow> \<exists>t event. j = planned_job (JStr t) event"
    and ev: "\<And>v. v \<in> set (sd_events sd) \<Longrightarrow> \<exists>event t. v = JObj event \<and>
       dget_or event ''request_id'' (JStr []) = JStr t \<and>
       (t = [] \<or> JStr t \<in> request_ids (sc_jobs s) \<or> planned_job (JStr t) event \<in> set jobs)"
    by blast+
  have ok: "list_all (\<lambda>j. job_ok (j_job_id j, j)) jobs"
    using jobs planned_job_ok by (fastforce simp: list_all_iff)
  have keys: "fst ` set (sc_jobs s') = fst ` set (sc_jobs s) \<union> j_job_id ` set jobs"
    using add_jobs_props [OF _ _ ok, of "sc_jobs s"] inv by (simp add: s' sched_inv_def)
  have known: "JStr t \<in> request_ids (sc_jobs s')"
    if "JStr t \<in> request_ids (sc_jobs s) \<or> planned_job (JStr t) event \<in> set jobs" for t event
  proof -
    have "''reconcile:'' @ t \<in> fst ` set (sc_jobs s')"
      unfolding keys using that job_request_of_key [of "sc_jobs s" t] inv
      by (force simp: sched_inv_def planned_job_def)
    then show ?thesis using job_request_of_key [of "sc_jobs s'" t] inv' by (simp add: sched_inv_def)
  qed
  have "plan_event (request_ids (sc_jobs s')) v = Inr None" if "v \<in> set (sd_events sd')" for v
  proof -
    from that assms(4) ev obtain event t where "v = JObj event"
      "dget_or event ''request_id'' (JStr []) = JStr t"
      "t = [] \<or> JStr t \<in> request_ids (sc_jobs s) \<or> planned_job (JStr t) event \<in> set jobs" by blast
    moreover from this(3) known have "t = [] \<or> JStr t \<in> request_ids (sc_jobs s')" by blast
    ultimately show ?thesis by (auto simp: plan_event_def json_simps hash_key_def Let_def)
  qed
  then have "traverse (plan_event (request_ids (sc_jobs s'))) (sd_events sd') =
      Inr (map (\<lambda>_. None) (sd_events sd'))"
    by (intro traverse_Inr_map) simp
  then show ?thesis by (simp add: plan_def existing_ids_inv [OF inv'])
qed

theorem plan_idempotent_witness:
  "plan (demo_sched None) (planned_sched []) = (Inr [], planned_sched []) \<and> length (sc_jobs (planned_sched [])) = 2"
proof -
  have "case fst (plan (demo_sched None) (new_sched (fs_ws []))) of Inr jobs \<Rightarrow> True | Inl _ \<Rightarrow> False"
    by code_simp
  then obtain jobs where "plan (demo_sched None) (new_sched (fs_ws [])) = (Inr jobs, planned_sched [])"
    by (cases "fst (plan (demo_sched None) (new_sched (fs_ws [])))") (auto simp: planned_sched_def prod_eq_iff)
  from plan_idempotent [OF rtranclp.rtrancl_refl demo_events_ok this, of "demo_sched None"]
  have "plan (demo_sched None) (planned_sched []) = (Inr [], planned_sched [])" by simp
  moreover have "length (sc_jobs (planned_sched [])) = 2" by code_simp
  ultimately show ?thesis ..
qed

text \<open>C30: a result whose write fails is lost for good: the job is settled before the write is tried, so after
  the exception no later \<open>run_pending\<close>, in any history that follows, has a result for it.\<close>

theorem result_lost:
  assumes "(sched_step E)\<^sup>*\<^sup>* (new_sched fs0) s" "map_of (sc_jobs s) i = Some j" "j_status j = PENDING"
    "run_job E sd i s = (Inl e, s')" "(sched_step E)\<^sup>*\<^sup>* s' s2" "run_pending E sd' s2 = (Inr rs, s3)"
  shows "map_of (sc_jobs s') i = Some (j\<lparr>j_status := verdict j\<rparr>) \<and> i \<notin> rs_job_id ` set rs"
proof -
  have inv: "sched_inv s" by (rule steps_inv [OF assms(1) new_sched_inv])
  have s': "map_of (sc_jobs s') i = Some (settle j)"
    using run_job_pending [OF inv assms(2-4)] assms(2) by (simp add: settle_id_lookup)
  have "sched_step E s s'" using step_job [of E s sd i] assms(4) by simp
  then have inv': "sched_inv s'" using step_advances [OF _ inv] by (simp add: advances_def)
  have s2: "map_of (sc_jobs s2) i = Some (settle j)" and inv2: "sched_inv s2"
    using steps_advance [OF assms(5) inv'] s' unfolding advances_def by (metis settle_fields(4), blast)
  have "j_status j2 \<noteq> PENDING" if "j2 \<in> set (job_list (sc_jobs s2))" "j_job_id j2 = i" for j2
  proof -
    from that(1) obtain k where k: "(k, j2) \<in> set (sc_jobs s2)" by (auto simp: job_list_def)
    then have k2: "map_of (sc_jobs s2) k = Some j2" using inv2 by (simp add: sched_inv_def)
    moreover have "k = i" using inv_lookup [OF inv2 k2] that(2) by (simp add: job_ok_def)
    ultimately show ?thesis using s2 by auto
  qed
  then have "i \<notin> rs_job_id ` set rs"
    using run_pending_jobs [OF inv2 assms(6)] by (auto simp: job_result_def)
  with s' assms(3) show ?thesis by (simp add: settle_def)
qed

theorem result_lost_witness:
  "\<exists>j e s' rs s3. map_of (sc_jobs (planned_sched [IoFails ''full''])) ''reconcile:r1'' = Some j \<and> j_status j = PENDING \<and>
     run_job E0 (demo_sched (Some results_path)) ''reconcile:r1'' (planned_sched [IoFails ''full'']) = (Inl e, s') \<and>
     run_pending E0 (demo_sched (Some results_path)) s' = (Inr rs, s3) \<and> ''reconcile:r1'' \<notin> rs_job_id ` set rs"
proof -
  let ?sd = "demo_sched (Some results_path)"
  have "case run_job E0 ?sd ''reconcile:r1'' (planned_sched [IoFails ''full'']) of
      (Inl e, s') \<Rightarrow> (case fst (run_pending E0 ?sd s') of Inr rs \<Rightarrow> True | Inl _ \<Rightarrow> False) | _ \<Rightarrow> False"
    by code_simp
  then obtain e s' where run: "run_job E0 ?sd ''reconcile:r1'' (planned_sched [IoFails ''full'']) = (Inl e, s')"
    and "case fst (run_pending E0 ?sd s') of Inr rs \<Rightarrow> True | Inl _ \<Rightarrow> False"
    by (auto split: prod.splits sum.splits)
  then obtain rs s3 where run2: "run_pending E0 ?sd s' = (Inr rs, s3)"
    by (cases "run_pending E0 ?sd s'") (auto split: sum.splits)
  obtain j where j: "map_of (sc_jobs (planned_sched [IoFails ''full''])) ''reconcile:r1'' = Some j" "j_status j = PENDING"
    using planned_sched_job by blast
  from result_lost [OF planned_reachable j run rtranclp.rtrancl_refl run2] j run run2 show ?thesis by blast
qed

end
