(* ===== verification/FsDiff.thy ===== *)
theory FsDiff
  imports FileSystem
begin

text \<open>
  \<open>koguchi/reconciliation/filesystem_diff.py\<close>, \<open>toolproxy/reconciliation.py\<close> and
  \<open>scheduler/reconciliation.py\<close>: the comparison of expected artifacts with a directory, and the
  two layers that pass a request on to it. All of it only reads the file system.
\<close>

subsection \<open>Requests and reports\<close>

datatype diff_kind = ADDED | REMOVED | MODIFIED | UNCHANGED | IGNORED | UNKNOWN

datatype diff_status =
    MATCHED
  | MISMATCH_OBSERVED
  | MISSING_EXPECTED_ARTIFACT
  | MISSING_OBSERVED_ARTIFACT
  | STALE_OBSERVATION
  | AUDIT_GAP
  | INCONCLUSIVE

record expected_artifact =
  ea_path :: string
  ea_sha256 :: "string option"

record diff_input =
  fi_backend_id :: string
  fi_execution_id :: string
  fi_expected_artifacts :: "expected_artifact list"
  fi_observed_root :: path
  fi_ignored_paths :: "string list"
  fi_audit_event_refs :: "string list"
  fi_result_store_refs :: "string list"

record fs_difference =
  fd_path :: string
  fd_kind :: diff_kind
  fd_expected :: "string option"
  fd_observed :: "string option"

record diff_output =
  fo_status :: diff_status
  fo_summary :: string
  fo_differences :: "fs_difference list"
  fo_missing :: "string list"
  fo_stale :: "string list"
  fo_audit_gaps :: "string list"
  fo_review_focus :: "string list"

subsection \<open>The comparison\<close>

text \<open>A path that the operating system walks, and what is there.\<close>

definition walked_node :: "fs \<Rightarrow> path \<Rightarrow> node option" where
  "walked_node fs p = (case os_walk fs [] p of Inl _ \<Rightarrow> None | Inr q \<Rightarrow> node_at fs q)"

definition compute_sha256 :: "py_env \<Rightarrow> fs \<Rightarrow> path \<Rightarrow> string option" where
  "compute_sha256 E fs p =
     (case os_walk fs [] p of
        Inl _ \<Rightarrow> None
      | Inr q \<Rightarrow> map_option (sha256 E) (read_bytes fs q))"

fun matches_ignore :: "string \<Rightarrow> string list \<Rightarrow> bool" where
  "matches_ignore p [] = False"
| "matches_ignore p (pat # pats) =
     (if starts_with pat ''*'' then ends_with p (drop 1 pat) \<or> matches_ignore p pats
      else pat = p \<or> starts_with p pat \<or> matches_ignore p pats)"

text \<open>\<open>observed_root / artifact.path\<close>\<close>

definition observed_path :: "path \<Rightarrow> string \<Rightarrow> path" where
  "observed_path root s = (if starts_with s ''/'' then path_parts s else root @ path_parts s)"

definition difference :: "string \<Rightarrow> diff_kind \<Rightarrow> string option \<Rightarrow> string option \<Rightarrow> fs_difference" where
  "difference p k e obs = \<lparr>fd_path = p, fd_kind = k, fd_expected = e, fd_observed = obs\<rparr>"

definition sha_given :: "string option \<Rightarrow> bool" where
  "sha_given h \<longleftrightarrow> h \<noteq> None \<and> h \<noteq> Some []"

text \<open>One turn of the first loop: the difference, and what it adds to \<open>missing_expected\<close> and
  \<open>review_focus\<close>.\<close>

definition check_artifact ::
  "py_env \<Rightarrow> diff_input \<Rightarrow> fs \<Rightarrow> expected_artifact \<Rightarrow> fs_difference \<times> string list \<times> string list" where
  "check_artifact E i fs a =
     (let p = ea_path a; h = ea_sha256 a; observed = observed_path (fi_observed_root i) p
      in if matches_ignore p (fi_ignored_paths i) then (difference p IGNORED h None, [], [])
         else if walked_node fs observed = None
         then (difference p REMOVED h None, [p],
               [''Review missing '' @ p @ '' before regenerating artifacts.''])
         else (case compute_sha256 E fs observed of
                 None \<Rightarrow>
                   (difference p UNKNOWN h None, [],
                    [''Could not read '' @ p @ '' for hash comparison. Check file permissions.''])
               | Some d \<Rightarrow>
                   if sha_given h \<and> h \<noteq> Some d
                   then (difference p MODIFIED h (Some d), [],
                         [''Review modified '' @ p @ '' before treating this run as complete.''])
                   else (difference p UNCHANGED h (Some d), [], [])))"

text \<open>One turn of the second loop.\<close>

definition relative_to :: "path \<Rightarrow> path \<Rightarrow> string" where
  "relative_to root p = join ''/'' (drop (length root) p)"

definition extra_file :: "diff_input \<Rightarrow> fs \<Rightarrow> path \<Rightarrow> bool" where
  "extra_file i fs p \<longleftrightarrow>
     is_file fs p \<and>
     relative_to (fi_observed_root i) p \<notin> set (map ea_path (fi_expected_artifacts i)) \<and>
     \<not> matches_ignore (relative_to (fi_observed_root i) p) (fi_ignored_paths i)"

definition added_files :: "diff_input \<Rightarrow> fs \<Rightarrow> string list" where
  "added_files i fs =
     map (relative_to (fi_observed_root i)) (filter (extra_file i fs) (rglob (fi_observed_root i) fs))"

definition diff_status_of :: "fs_difference list \<Rightarrow> diff_status \<times> string" where
  "diff_status_of ds =
     (let has_differences = (\<exists>d \<in> set ds. fd_kind d \<in> {ADDED, REMOVED, MODIFIED, UNKNOWN});
          has_inconclusive = (\<exists>d \<in> set ds. fd_kind d = UNKNOWN)
      in if has_differences \<and> \<not> has_inconclusive
         then (MISMATCH_OBSERVED,
               ''Differences were observed between expected and observed filesystem artifacts.'')
         else if has_inconclusive
         then (INCONCLUSIVE, ''Some artifacts could not be observed conclusively.'')
         else (MATCHED,
               ''No differences were observed between expected and observed filesystem artifacts.''))"

definition reconcile_filesystem_diff :: "py_env \<Rightarrow> diff_input \<Rightarrow> fs \<Rightarrow> exn + diff_output" where
  "reconcile_filesystem_diff E i fs =
     (if fi_backend_id i = [] \<or> fi_execution_id i = []
      then Inl (ValueError ''backend_id and execution_id are required'')
      else if walked_node fs (fi_observed_root i) = None
      then Inr \<lparr>fo_status = INCONCLUSIVE,
                fo_summary = ''Observed root does not exist or is not accessible.'',
                fo_differences = [], fo_missing = [], fo_stale = [], fo_audit_gaps = [],
                fo_review_focus = []\<rparr>
      else (let checked = map (check_artifact E i fs) (fi_expected_artifacts i);
                added = added_files i fs;
                ds = map fst checked @ map (\<lambda>p. difference p ADDED None None) added;
                (status, summary) = diff_status_of ds
            in Inr \<lparr>fo_status = status, fo_summary = summary, fo_differences = ds,
                    fo_missing = concat (map (\<lambda>c. fst (snd c)) checked), fo_stale = [],
                    fo_audit_gaps = [],
                    fo_review_focus =
                      concat (map (\<lambda>c. snd (snd c)) checked)
                      @ map (\<lambda>p. ''Review added '' @ p @ '' before adopting it as expected output.'') added\<rparr>))"

subsection \<open>The tool proxy and scheduler layers\<close>

record tp_request =
  tr_request_id :: string
  tr_kind :: string
  tr_backend_id :: string
  tr_execution_id :: string
  tr_expected_artifacts :: "expected_artifact list"
  tr_observed_root :: path
  tr_ignored_paths :: "string list"
  tr_audit_event_refs :: "string list"
  tr_result_store_refs :: "string list"
  tr_mode :: string

record tp_response =
  tq_request_id :: string
  tq_status :: diff_status
  tq_result :: diff_output
  tq_review_focus :: "string list"
  tq_boundary :: "(string \<times> bool) list"

definition tp_diff_input :: "tp_request \<Rightarrow> diff_input" where
  "tp_diff_input r =
     \<lparr>fi_backend_id = tr_backend_id r, fi_execution_id = tr_execution_id r,
      fi_expected_artifacts = tr_expected_artifacts r, fi_observed_root = tr_observed_root r,
      fi_ignored_paths = tr_ignored_paths r, fi_audit_event_refs = tr_audit_event_refs r,
      fi_result_store_refs = tr_result_store_refs r\<rparr>"

definition handle_tp_request :: "py_env \<Rightarrow> tp_request \<Rightarrow> fs \<Rightarrow> exn + tp_response" where
  "handle_tp_request E r fs =
     (if tr_mode r \<noteq> ''read_only''
      then Inl (ValueError (''Only read_only mode is supported, got: '' @ tr_mode r))
      else if tr_kind r \<noteq> ''filesystem_diff_reconciliation''
      then Inl (ValueError (''Only filesystem_diff_reconciliation is supported, got: '' @ tr_kind r))
      else (case reconcile_filesystem_diff E (tp_diff_input r) fs of
              Inl e \<Rightarrow> Inl e
            | Inr out \<Rightarrow>
                Inr \<lparr>tq_request_id = tr_request_id r, tq_status = fo_status out, tq_result = out,
                     tq_review_focus = fo_review_focus out,
                     tq_boundary = [(''read_only'', True), (''no_repair'', True),
                                    (''no_control_decision'', True)]\<rparr>))"

record sched_request =
  sg_request_id :: string
  sg_trigger_kind :: string
  sg_trigger_reason :: string
  sg_reconciliation_request :: tp_request

record sched_response =
  sp_request_id :: string
  sp_routed_via :: string
  sp_status :: diff_status
  sp_review_focus :: "string list"
  sp_action :: "(string \<times> bool) list"

definition request_via_toolproxy :: "py_env \<Rightarrow> sched_request \<Rightarrow> fs \<Rightarrow> exn + sched_response" where
  "request_via_toolproxy E r fs =
     (case handle_tp_request E (sg_reconciliation_request r) fs of
        Inl e \<Rightarrow> Inl e
      | Inr resp \<Rightarrow>
          Inr \<lparr>sp_request_id = sg_request_id r, sp_routed_via = ''ToolProxy'',
               sp_status = tq_status resp, sp_review_focus = tq_review_focus resp,
               sp_action = [(''retry'', False), (''repair'', False), (''deploy'', False),
                            (''commit'', False), (''correctness_decision'', False)]\<rparr>)"

subsection \<open>One artifact\<close>

text \<open>What it means that an artifact is as expected.\<close>

definition intact :: "py_env \<Rightarrow> diff_input \<Rightarrow> fs \<Rightarrow> expected_artifact \<Rightarrow> bool" where
  "intact E i fs a \<longleftrightarrow>
     (\<exists>q b. os_walk fs [] (observed_path (fi_observed_root i) (ea_path a)) = Inr q \<and>
        node_at fs q = Some (File b) \<and> q \<notin> set (fs_unreadable fs) \<and>
        (sha_given (ea_sha256 a) \<longrightarrow> ea_sha256 a = Some (sha256 E b)))"

lemma compute_sha256_Some:
  "compute_sha256 E fs p = Some d \<longleftrightarrow>
     (\<exists>q b. os_walk fs [] p = Inr q \<and> node_at fs q = Some (File b) \<and> q \<notin> set (fs_unreadable fs) \<and>
        d = sha256 E b)"
  by (auto simp: compute_sha256_def read_bytes_def split: sum.split option.split node.split)

lemma check_artifact_kind:
  "fd_kind (fst (check_artifact E i fs a)) \<in> {IGNORED, UNCHANGED} \<longleftrightarrow>
     matches_ignore (ea_path a) (fi_ignored_paths i) \<or> intact E i fs a"
proof -
  let ?p = "observed_path (fi_observed_root i) (ea_path a)"
  have "walked_node fs ?p \<noteq> None" if "compute_sha256 E fs ?p = Some d" for d
    using that by (auto simp: compute_sha256_Some walked_node_def)
  moreover have "intact E i fs a \<longleftrightarrow>
      (\<exists>d. compute_sha256 E fs ?p = Some d \<and> (sha_given (ea_sha256 a) \<longrightarrow> ea_sha256 a = Some d))"
    unfolding intact_def compute_sha256_Some by auto
  ultimately show ?thesis
    by (auto simp: check_artifact_def Let_def difference_def split: option.split)
qed

lemma check_artifact_unknown:
  "fd_kind (fst (check_artifact E i fs a)) = UNKNOWN \<longleftrightarrow>
     \<not> matches_ignore (ea_path a) (fi_ignored_paths i) \<and>
     walked_node fs (observed_path (fi_observed_root i) (ea_path a)) \<noteq> None \<and>
     compute_sha256 E fs (observed_path (fi_observed_root i) (ea_path a)) = None"
  by (auto simp: check_artifact_def Let_def difference_def split: option.split)

lemma check_artifact_not_added [simp]: "fd_kind (fst (check_artifact E i fs a)) \<noteq> ADDED"
  by (auto simp: check_artifact_def Let_def difference_def split: option.split)

lemma check_artifact_path [simp]: "fd_path (fst (check_artifact E i fs a)) = ea_path a"
  by (auto simp: check_artifact_def Let_def difference_def split: option.split)

lemma check_artifact_removed:
  "fst (snd (check_artifact E i fs a)) =
     (if fd_kind (fst (check_artifact E i fs a)) = REMOVED then [ea_path a] else [])"
  by (auto simp: check_artifact_def Let_def difference_def split: option.split)

lemma check_artifact_focus:
  "length (snd (snd (check_artifact E i fs a))) =
     (if fd_kind (fst (check_artifact E i fs a)) \<in> {IGNORED, UNCHANGED} then 0 else 1)"
  by (auto simp: check_artifact_def Let_def difference_def split: option.split)

lemma diff_kind_cases: "k \<in> {ADDED, REMOVED, MODIFIED, UNKNOWN} \<longleftrightarrow> k \<notin> {IGNORED, UNCHANGED}"
  by (cases k) auto

lemma added_iff: "added_files i fs = [] \<longleftrightarrow> (\<forall>p \<in> set (rglob (fi_observed_root i) fs). \<not> extra_file i fs p)"
  by (auto simp: added_files_def filter_empty_conv)

end
