(* ===== verification/FsDiffProps.thy ===== *)
theory FsDiffProps
  imports FsDiff Fixtures
begin

text \<open>
  What a filesystem diff report means: when it says \<open>MATCHED\<close>, what its differences are, and that
  the two layers above hand it on without a change.
\<close>

definition compared :: "diff_input \<Rightarrow> fs \<Rightarrow> bool" where
  "compared i fs \<longleftrightarrow>
     fi_backend_id i \<noteq> [] \<and> fi_execution_id i \<noteq> [] \<and> walked_node fs (fi_observed_root i) \<noteq> None"

lemma reconcile_compared:
  assumes "reconcile_filesystem_diff E i fs = Inr out" "compared i fs"
  shows "fo_differences out =
      map (\<lambda>a. fst (check_artifact E i fs a)) (fi_expected_artifacts i) @
      map (\<lambda>p. difference p ADDED None None) (added_files i fs)"
    and "fo_status out = fst (diff_status_of (fo_differences out))"
    and "fo_missing out = concat (map (\<lambda>a. fst (snd (check_artifact E i fs a))) (fi_expected_artifacts i))"
    and "fo_review_focus out =
      concat (map (\<lambda>a. snd (snd (check_artifact E i fs a))) (fi_expected_artifacts i)) @
      map (\<lambda>p. ''Review added '' @ p @ '' before adopting it as expected output.'') (added_files i fs)"
  using assms
  by (auto simp: reconcile_filesystem_diff_def compared_def Let_def comp_def split: prod.splits)

lemma status_matched:
  "fst (diff_status_of ds) = MATCHED \<longleftrightarrow> (\<forall>d \<in> set ds. fd_kind d \<in> {IGNORED, UNCHANGED})"
  unfolding diff_status_of_def Let_def diff_kind_cases by (auto, force)

lemma difference_fields [simp]:
  "fd_kind (difference p k e obs) = k" "fd_path (difference p k e obs) = p"
  by (simp_all add: difference_def)

definition demo_diff :: "string option \<Rightarrow> diff_input" where
  "demo_diff h =
     \<lparr>fi_backend_id = ''b'', fi_execution_id = ''x'',
      fi_expected_artifacts = [\<lparr>ea_path = ''a.txt'', ea_sha256 = h\<rparr>], fi_observed_root = [''ws''],
      fi_ignored_paths = [''*.log''], fi_audit_event_refs = [], fi_result_store_refs = []\<rparr>"

lemma demo_compared: "compared (demo_diff h) (fs_ws [])"
  by (simp add: compared_def demo_diff_def walked_node_def fs_ws_def node_at_def)

lemma demo_diff_runs: "\<exists>out. reconcile_filesystem_diff E0 (demo_diff h) (fs_ws []) = Inr out"
  using demo_compared [of h]
  by (auto simp: reconcile_filesystem_diff_def compared_def Let_def split: prod.splits)





text \<open>The scheduler's request is the filesystem diff and nothing else: where it returns, the mode was
  read-only, the status and the review items are those of the diff of the same artifacts, and every action flag
  is off, whatever the status; and it returns for every read-only request the diff answers.\<close>

theorem scheduler_request_is_diff:
  "request_via_toolproxy E r fs = Inr resp \<longleftrightarrow>
    (\<exists>out. tr_mode (sg_reconciliation_request r) = ''read_only'' \<and>
       tr_kind (sg_reconciliation_request r) = ''filesystem_diff_reconciliation'' \<and>
       reconcile_filesystem_diff E (tp_diff_input (sg_reconciliation_request r)) fs = Inr out \<and>
       resp = \<lparr>sp_request_id = sg_request_id r, sp_routed_via = ''ToolProxy'', sp_status = fo_status out,
               sp_review_focus = fo_review_focus out,
               sp_action = map (\<lambda>k. (k, False))
                 [''retry'', ''repair'', ''deploy'', ''commit'', ''correctness_decision'']\<rparr>)"
  by (auto simp: request_via_toolproxy_def handle_tp_request_def split: sum.splits)

end
