(* ===== verification/Inspect.thy ===== *)
theory Inspect
  imports FsDiff PyRepr
begin

text \<open>
  \<open>koguchi/persistence/reconciliation_records.py\<close> and \<open>koguchi/cli/reconciliation.py\<close>: the two
  in-memory stores of records that are written once, with the interface \<open>write_once\<close> that both
  meet, and the command line that shows them.
\<close>

subsection \<open>Records and stores\<close>

record recon_audit_record =
  ra_audit_id :: string
  ra_request_id :: string
  ra_route :: "string list"
  ra_backend_id :: string
  ra_execution_id :: string
  ra_kind :: string
  ra_mode :: string
  ra_result_ref :: "string option"
  ra_boundary :: "(string \<times> bool) list"

record recon_result_record =
  rc_result_id :: string
  rc_request_id :: string
  rc_status :: diff_status
  rc_summary :: string
  rc_differences :: "fs_difference list"
  rc_missing :: "string list"
  rc_stale :: "string list"
  rc_audit_gaps :: "string list"
  rc_review_focus :: "string list"
  rc_boundary :: "(string \<times> bool) list"

definition default_audit_boundary :: "(string \<times> bool) list" where
  "default_audit_boundary =
     [(''read_only'', True), (''no_repair'', True), (''no_retry'', True), (''no_control_decision'', True)]"

definition default_result_boundary :: "(string \<times> bool) list" where
  "default_result_boundary =
     [(''review_focus_only'', True), (''correctness_decision'', False), (''enforcement'', False),
      (''approval'', False), (''rejection'', False)]"

fun diff_status_value :: "diff_status \<Rightarrow> string" where
  "diff_status_value MATCHED = ''matched''"
| "diff_status_value MISMATCH_OBSERVED = ''mismatch_observed''"
| "diff_status_value MISSING_EXPECTED_ARTIFACT = ''missing_expected_artifact''"
| "diff_status_value MISSING_OBSERVED_ARTIFACT = ''missing_observed_artifact''"
| "diff_status_value STALE_OBSERVATION = ''stale_observation''"
| "diff_status_value AUDIT_GAP = ''audit_gap''"
| "diff_status_value INCONCLUSIVE = ''inconclusive''"

type_synonym recon_audit_store = "(string \<times> recon_audit_record) list"
type_synonym recon_result_store = "(string \<times> recon_result_record) list"

definition recon_audit_append :: "recon_audit_record \<Rightarrow> (recon_audit_store, unit) py" where
  "recon_audit_append r s =
     (if map_of s (ra_audit_id r) \<noteq> None
      then (Inl (ValueError (''Duplicate audit_id: '' @ ra_audit_id r)), s)
      else (Inr (), dict_set (ra_audit_id r) r s))"

definition recon_audit_get :: "string \<Rightarrow> recon_audit_store \<Rightarrow> recon_audit_record option" where
  "recon_audit_get i s = map_of s i"

definition recon_audit_list :: "recon_audit_store \<Rightarrow> recon_audit_record list" where
  "recon_audit_list s = map snd s"

definition recon_result_put :: "recon_result_record \<Rightarrow> (recon_result_store, unit) py" where
  "recon_result_put r s =
     (if map_of s (rc_result_id r) \<noteq> None
      then (Inl (ValueError (''Duplicate result_id: '' @ rc_result_id r)), s)
      else (Inr (), dict_set (rc_result_id r) r s))"

definition recon_result_get :: "string \<Rightarrow> recon_result_store \<Rightarrow> recon_result_record option" where
  "recon_result_get i s = map_of s i"

definition recon_result_list :: "recon_result_store \<Rightarrow> recon_result_record list" where
  "recon_result_list s = map snd s"

subsection \<open>The command line\<close>

record cli_result =
  cli_exit_code :: int
  cli_output :: string

definition ALLOWED_COMMANDS :: "string list" where
  "ALLOWED_COMMANDS = [''list'', ''show'', ''audit'']"

definition FORBIDDEN_COMMANDS :: "string list" where
  "FORBIDDEN_COMMANDS =
     [''retry'', ''repair'', ''approve'', ''reject'', ''deploy'', ''commit'', ''rollback'', ''delete'', ''enforce'']"

definition cli :: "int \<Rightarrow> string \<Rightarrow> cli_result" where
  "cli code out = \<lparr>cli_exit_code = code, cli_output = out\<rparr>"

definition boundary_repr :: "(string \<times> bool) list \<Rightarrow> string" where
  "boundary_repr b = dict_repr (map (\<lambda>(k, v). (k, bool_repr v)) b)"

definition handle_list :: "recon_result_store \<Rightarrow> cli_result" where
  "handle_list s =
     (if recon_result_list s = [] then cli 0 ''No reconciliation results.''
      else cli 0 (lines (''Reconciliation results:'' #
             map (\<lambda>r. ''  '' @ rc_result_id r @ '': '' @ show_nat (length (rc_review_focus r))
                        @ '' review focus item(s)'')
               (filter (\<lambda>r. rc_review_focus r \<noteq> []) (recon_result_list s)))))"

definition show_text :: "recon_result_record \<Rightarrow> string" where
  "show_text r =
     lines ([''result_id: '' @ rc_result_id r, ''status: '' @ diff_status_value (rc_status r),
             ''summary: '' @ rc_summary r]
            @ (if rc_review_focus r \<noteq> []
               then ''review_focus:'' # map (\<lambda>x. ''  - '' @ x) (rc_review_focus r) else [])
            @ [''boundary: '' @ boundary_repr (rc_boundary r)])"

definition handle_show :: "string list \<Rightarrow> recon_result_store \<Rightarrow> cli_result" where
  "handle_show args s =
     (if length args < 2 then cli 1 ''Usage: show <result_id>''
      else (case recon_result_get (args ! 1) s of
              None \<Rightarrow> cli 1 (''Result not found: '' @ args ! 1)
            | Some r \<Rightarrow> cli 0 (show_text r)))"

definition audit_text :: "recon_audit_record \<Rightarrow> string" where
  "audit_text r =
     lines [''audit_id: '' @ ra_audit_id r, ''request_id: '' @ ra_request_id r,
            ''route: '' @ list_repr (map str_repr (ra_route r)), ''backend_id: '' @ ra_backend_id r,
            ''execution_id: '' @ ra_execution_id r, ''kind: '' @ ra_kind r, ''mode: '' @ ra_mode r,
            ''boundary: '' @ boundary_repr (ra_boundary r)]"

definition handle_audit :: "string list \<Rightarrow> recon_audit_store \<Rightarrow> cli_result" where
  "handle_audit args s =
     (if length args < 2 then cli 1 ''Usage: audit <audit_id>''
      else (case recon_audit_get (args ! 1) s of
              None \<Rightarrow> cli 1 (''Audit record not found: '' @ args ! 1)
            | Some r \<Rightarrow> cli 0 (audit_text r)))"

definition inspect_reconciliation_records ::
  "string list \<Rightarrow> recon_audit_store \<Rightarrow> recon_result_store \<Rightarrow> cli_result" where
  "inspect_reconciliation_records args audits results =
     (case args of
        [] \<Rightarrow> cli 1 ''Usage: koguchi reconciliation <list|show <id>|audit <id>>''
      | command # _ \<Rightarrow>
          if command \<in> set FORBIDDEN_COMMANDS
          then cli 1 (''Command '' @ [CHR 0x27] @ command @ [CHR 0x27]
                 @ '' is prohibited. Reconciliation CLI is read-only.'')
          else if command \<notin> set ALLOWED_COMMANDS
          then cli 1 (''Unknown command: '' @ command @ ''. Allowed: list, show <id>, audit <id>'')
          else if command = ''list'' then handle_list results
          else if command = ''show'' then handle_show args results
          else if command = ''audit'' then handle_audit args audits
          else cli 2 ''Internal error'')"

subsection \<open>Stores that are written once\<close>

text \<open>
  The contract: what \<open>find\<close> knows is never changed, \<open>insert\<close> raises and changes nothing
  where the key is known, and adds its record at the end otherwise.
\<close>

locale write_once =
  fixes insert_record :: "'r \<Rightarrow> ('s, unit) py"
    and find_record :: "string \<Rightarrow> 's \<Rightarrow> 'r option"
    and records :: "'s \<Rightarrow> 'r list"
    and key :: "'r \<Rightarrow> string"
  assumes insert_known: "find_record (key r) s \<noteq> None \<Longrightarrow> \<exists>e. insert_record r s = (Inl e, s)"
    and insert_new: "find_record (key r) s = None \<Longrightarrow>
      \<exists>s'. insert_record r s = (Inr (), s') \<and> records s' = records s @ [r] \<and>
        (\<forall>i. find_record i s' = (if i = key r then Some r else find_record i s))"
begin

text \<open>A client that inserts what it has, whether it was known or not.\<close>

definition insert_all :: "'r list \<Rightarrow> 's \<Rightarrow> 's" where
  "insert_all rs s = foldl (\<lambda>s r. snd (insert_record r s)) s rs"

lemma insert_keeps: "find_record i s = Some r \<Longrightarrow> find_record i (snd (insert_record r' s)) = Some r"
  by (cases "find_record (key r') s") (use insert_known [of r' s] insert_new [of r' s] in force)+

lemma insert_all_keeps: "find_record i s = Some r \<Longrightarrow> find_record i (insert_all rs s) = Some r"
  by (induction rs arbitrary: s) (simp_all add: insert_all_def insert_keeps)

lemma insert_records: "\<exists>rs'. records (snd (insert_record r s)) = records s @ rs' \<and> set rs' \<subseteq> {r}"
  using insert_known [of r s] insert_new [of r s] by (cases "find_record (key r) s") force+

lemma insert_all_grows: "\<exists>rs'. records (insert_all rs s) = records s @ rs' \<and> set rs' \<subseteq> set rs"
proof (induction rs arbitrary: s)
  case Nil
  then show ?case by (simp add: insert_all_def)
next
  case (Cons r rs)
  obtain r1 where r1: "records (snd (insert_record r s)) = records s @ r1" "set r1 \<subseteq> {r}"
    using insert_records by blast
  from Cons.IH [of "snd (insert_record r s)"] obtain rs' where
    "records (insert_all rs (snd (insert_record r s))) = (records s @ r1) @ rs'" "set rs' \<subseteq> set rs"
    using r1(1) by auto
  with r1(2) show ?case
    by (intro exI [of _ "r1 @ rs'"]) (auto simp: insert_all_def)
qed

lemma insert_then_kept:
  "insert_record r s = (Inr (), s') \<Longrightarrow> find_record (key r) (insert_all rs s') = Some r"
proof -
  assume "insert_record r s = (Inr (), s')"
  with insert_known [of r s] insert_new [of r s] have "find_record (key r) s' = Some r"
    by (cases "find_record (key r) s") auto
  then show ?thesis by (rule insert_all_keeps)
qed

end

lemma dict_set_new: "map_of s k = None \<Longrightarrow> map snd (dict_set k v s) = map snd s @ [v]"
  using dict_set_fresh [of k s v] by (simp add: map_of_eq_None_iff)

interpretation audits: write_once recon_audit_append recon_audit_get recon_audit_list ra_audit_id
  by unfold_locales
    (auto simp: recon_audit_append_def recon_audit_get_def recon_audit_list_def dict_set_new update_conv'
      split: option.splits)

interpretation results: write_once recon_result_put recon_result_get recon_result_list rc_result_id
  by unfold_locales
    (auto simp: recon_result_put_def recon_result_get_def recon_result_list_def dict_set_new update_conv'
      split: option.splits)

subsection \<open>The properties\<close>

lemma cli_fields [simp]: "cli_exit_code (cli c out) = c" "cli_output (cli c out) = out"
  by (simp_all add: cli_def)

text \<open>The records the client inserted, in the stores' own words.\<close>

definition put_results :: "recon_result_record list \<Rightarrow> recon_result_store \<Rightarrow> recon_result_store" where
  "put_results rs s = foldl (\<lambda>s r. snd (recon_result_put r s)) s rs"

lemma put_results_insert_all: "put_results rs s = results.insert_all rs s"
  by (simp add: put_results_def results.insert_all_def)

text \<open>C33: a result that was stored is what \<open>show\<close> prints ever after: whatever is put later, with the same id
  or others, the command line answers with exit code 0 and the text of that record, also when its status
  is a mismatch.\<close>

theorem shown_as_stored:
  assumes "recon_result_put r s = (Inr (), s')"
  shows "inspect_reconciliation_records (''show'' # rc_result_id r # rest) audits (put_results rs s') =
    \<lparr>cli_exit_code = 0, cli_output = show_text r\<rparr>"
proof -
  have "recon_result_get (rc_result_id r) (put_results rs s') = Some r"
    unfolding put_results_insert_all by (rule results.insert_then_kept [OF assms])
  then show ?thesis
    by (simp add: inspect_reconciliation_records_def handle_show_def FORBIDDEN_COMMANDS_def
        ALLOWED_COMMANDS_def cli_def)
qed

definition demo_result :: "string \<Rightarrow> recon_result_record" where
  "demo_result summary =
     \<lparr>rc_result_id = ''x'', rc_request_id = ''r'', rc_status = MISMATCH_OBSERVED, rc_summary = summary,
      rc_differences = [], rc_missing = [], rc_stale = [], rc_audit_gaps = [], rc_review_focus = [''look''],
      rc_boundary = default_result_boundary\<rparr>"

theorem shown_as_stored_witness:
  "inspect_reconciliation_records [''show'', ''x''] [] (put_results [demo_result ''other''] [(''x'', demo_result ''s'')]) =
    \<lparr>cli_exit_code = 0, cli_output = show_text (demo_result ''s'')\<rparr>"
proof -
  have "recon_result_put (demo_result ''s'') [] = (Inr (), [(''x'', demo_result ''s'')])"
    by (simp add: recon_result_put_def demo_result_def)
  from shown_as_stored [OF this, of "[]" "[]" "[demo_result ''other'']"] show ?thesis
    by (simp add: demo_result_def)
qed

text \<open>Exit codes: the command line ends with 0 exactly for \<open>list\<close> and for \<open>show\<close> and \<open>audit\<close> of an
  id that is stored, with 1 in every other case, and never with 2; a status is never an exit
  code.\<close>

theorem cli_exit_codes:
  "cli_exit_code (inspect_reconciliation_records args audits results) =
    (if (\<exists>rest. args = ''list'' # rest) \<or>
        (\<exists>i rest. args = ''show'' # i # rest \<and> recon_result_get i results \<noteq> None) \<or>
        (\<exists>i rest. args = ''audit'' # i # rest \<and> recon_audit_get i audits \<noteq> None)
     then 0 else 1)"
proof (cases args)
  case Nil
  then show ?thesis by (simp add: inspect_reconciliation_records_def)
next
  case (Cons command rest)
  consider "command = ''list''" | "command = ''show''" | "command = ''audit''"
    | "command \<notin> set ALLOWED_COMMANDS" by (auto simp: ALLOWED_COMMANDS_def)
  then show ?thesis
  proof cases
    case 1
    then show ?thesis
      by (simp add: Cons inspect_reconciliation_records_def FORBIDDEN_COMMANDS_def ALLOWED_COMMANDS_def
          handle_list_def)
  next
    case 2
    then show ?thesis
      by (cases rest)
        (auto simp: Cons inspect_reconciliation_records_def FORBIDDEN_COMMANDS_def ALLOWED_COMMANDS_def
          handle_show_def split: option.split)
  next
    case 3
    then show ?thesis
      by (cases rest)
        (auto simp: Cons inspect_reconciliation_records_def FORBIDDEN_COMMANDS_def ALLOWED_COMMANDS_def
          handle_audit_def split: option.split)
  next
    case 4
    then show ?thesis
      by (auto simp: Cons inspect_reconciliation_records_def ALLOWED_COMMANDS_def)
  qed
qed

end
