(* ===== verification/Dashboard.thy ===== *)
theory Dashboard
  imports Scheduler
begin

text \<open>
  \<open>koguchi/dashboard.py\<close>: the read-only snapshot of audit events, reconciliation jobs and the
  chokepoint binary, and its rendering as text. An audit event is any JSON value; what the
  loop body does before it raises stays counted, as in the code.
\<close>

subsection \<open>The snapshot\<close>

record audit_summary =
  as_total_events :: nat
  as_allowed_events :: nat
  as_denied_events :: nat
  as_error_events :: nat
  as_malformed_events :: nat
  as_tools :: "(string \<times> nat) list"
  as_recent_request_ids :: "string list"
  as_first_timestamp :: "string option"
  as_last_timestamp :: "string option"
  as_backend_counts :: "(json \<times> nat) list"

record reconciliation_summary =
  rn_total_jobs :: nat
  rn_pending :: nat
  rn_passed :: nat
  rn_failed :: nat
  rn_skipped :: nat

record chokepoint_summary =
  ck_configured :: bool
  ck_available :: bool
  ck_binary_path :: "string option"
  ck_note :: "string option"

record dashboard_snapshot =
  sn_schema_version :: nat
  sn_generated_at :: string
  sn_audit :: audit_summary
  sn_reconciliation :: reconciliation_summary
  sn_chokepoint :: chokepoint_summary

definition json_of_opt :: "string option \<Rightarrow> json" where
  "json_of_opt x = (case x of None \<Rightarrow> JNull | Some s \<Rightarrow> JStr s)"

definition audit_summary_dict :: "audit_summary \<Rightarrow> (string \<times> json) list" where
  "audit_summary_dict a =
     [(''total_events'', JInt (int (as_total_events a))),
      (''allowed_events'', JInt (int (as_allowed_events a))),
      (''denied_events'', JInt (int (as_denied_events a))),
      (''error_events'', JInt (int (as_error_events a))),
      (''malformed_events'', JInt (int (as_malformed_events a))),
      (''tools'', JObj (map (\<lambda>(k, n). (k, JInt (int n))) (as_tools a))),
      (''recent_request_ids'', JArr (map JStr (as_recent_request_ids a))),
      (''first_timestamp'', json_of_opt (as_first_timestamp a)),
      (''last_timestamp'', json_of_opt (as_last_timestamp a)),
      (''backend_counts'', JObj (map (\<lambda>(k, n). (py_str k, JInt (int n))) (as_backend_counts a)))]"

definition reconciliation_summary_dict :: "reconciliation_summary \<Rightarrow> (string \<times> json) list" where
  "reconciliation_summary_dict r =
     [(''total_jobs'', JInt (int (rn_total_jobs r))), (''pending'', JInt (int (rn_pending r))),
      (''passed'', JInt (int (rn_passed r))), (''failed'', JInt (int (rn_failed r))),
      (''skipped'', JInt (int (rn_skipped r)))]"

definition chokepoint_summary_dict :: "chokepoint_summary \<Rightarrow> (string \<times> json) list" where
  "chokepoint_summary_dict c =
     [(''configured'', JBool (ck_configured c)), (''available'', JBool (ck_available c)),
      (''binary_path'', json_of_opt (ck_binary_path c)), (''note'', json_of_opt (ck_note c))]"

definition snapshot_dict :: "dashboard_snapshot \<Rightarrow> (string \<times> json) list" where
  "snapshot_dict s =
     [(''schema_version'', JInt (int (sn_schema_version s))),
      (''generated_at'', JStr (sn_generated_at s)),
      (''audit'', JObj (audit_summary_dict (sn_audit s))),
      (''reconciliation'', JObj (reconciliation_summary_dict (sn_reconciliation s))),
      (''chokepoint'', JObj (chokepoint_summary_dict (sn_chokepoint s)))]"

subsection \<open>Building it\<close>

definition empty_audit_summary :: audit_summary where
  "empty_audit_summary =
     \<lparr>as_total_events = 0, as_allowed_events = 0, as_denied_events = 0, as_error_events = 0,
      as_malformed_events = 0, as_tools = [], as_recent_request_ids = [], as_first_timestamp = None,
      as_last_timestamp = None, as_backend_counts = []\<rparr>"

definition count_tool :: "string \<Rightarrow> (string \<times> nat) list \<Rightarrow> (string \<times> nat) list" where
  "count_tool k d = dict_set k ((case map_of d k of None \<Rightarrow> 0 | Some n \<Rightarrow> n) + 1) d"

text \<open>\<open>backend_counts[be] = backend_counts.get(be, 0) + 1\<close>: keys are compared as keys, and the first
  one stays.\<close>

fun count_key :: "json \<Rightarrow> (json \<times> nat) list \<Rightarrow> (json \<times> nat) list" where
  "count_key k [] = [(k, 1)]"
| "count_key k ((k', n) # d) =
     (if hash_key k' = hash_key k then (k', n + 1) # d else (k', n) # count_key k d)"

text \<open>The body of the loop on a dictionary; \<open>Inl\<close> where it raises, with what it has done by then.\<close>

definition count_event ::
  "(string \<times> json) list \<Rightarrow> audit_summary \<Rightarrow> (exn + unit) \<times> audit_summary" where
  "count_event event a =
     (let is_allowed = dget event ''allowed''; ts = dget event ''timestamp'';
          tool = py_str (dget_or event ''tool_name'' (JStr ''unknown''));
          a1 = (if is_allowed = JBool True then a\<lparr>as_allowed_events := as_allowed_events a + 1\<rparr>
                else if is_allowed = JBool False then a\<lparr>as_denied_events := as_denied_events a + 1\<rparr>
                else a);
          a2 = (if dget event ''error'' \<noteq> JNull
                then a1\<lparr>as_error_events := as_error_events a1 + 1\<rparr> else a1);
          a3 = a2\<lparr>as_tools := count_tool tool (as_tools a2)\<rparr>;
          rid = dget event ''request_id'';
          a4 = (if truth rid \<and> length (as_recent_request_ids a3) < 5
                then a3\<lparr>as_recent_request_ids := as_recent_request_ids a3 @ [py_str rid]\<rparr> else a3);
          a5 = (if truth ts
                then a4\<lparr>as_first_timestamp := (case as_first_timestamp a4 of
                            None \<Rightarrow> Some (py_str ts) | Some t0 \<Rightarrow> Some t0),
                        as_last_timestamp := Some (py_str ts)\<rparr>
                else a4);
          be = dget event ''execution_backend''
      in if truth be
         then (case hash_key be of
                 Inl e \<Rightarrow> (Inl e, a5)
               | Inr _ \<Rightarrow> (Inr (), a5\<lparr>as_backend_counts := count_key be (as_backend_counts a5)\<rparr>))
         else (Inr (), a5))"

definition audit_turn :: "audit_summary \<Rightarrow> json \<Rightarrow> audit_summary" where
  "audit_turn a v =
     (let a0 = a\<lparr>as_total_events := as_total_events a + 1\<rparr>
      in (case as_dict v of
            Inl _ \<Rightarrow> a0\<lparr>as_malformed_events := as_malformed_events a0 + 1\<rparr>
          | Inr event \<Rightarrow>
              (case count_event event a0 of
                 (Inl _, a1) \<Rightarrow> a1\<lparr>as_malformed_events := as_malformed_events a1 + 1\<rparr>
               | (Inr _, a1) \<Rightarrow> a1)))"

definition build_audit :: "json list \<Rightarrow> audit_summary" where
  "build_audit events = foldl audit_turn empty_audit_summary events"

definition build_reconciliation :: "reconciliation_job list \<Rightarrow> reconciliation_summary" where
  "build_reconciliation jobs =
     foldl (\<lambda>r job.
         let status = status_value (j_status job)
         in if status = ''pending'' then r\<lparr>rn_pending := rn_pending r + 1\<rparr>
            else if status = ''passed'' then r\<lparr>rn_passed := rn_passed r + 1\<rparr>
            else if status = ''failed'' then r\<lparr>rn_failed := rn_failed r + 1\<rparr>
            else if status = ''skipped'' then r\<lparr>rn_skipped := rn_skipped r + 1\<rparr>
            else r)
       \<lparr>rn_total_jobs = length jobs, rn_pending = 0, rn_passed = 0, rn_failed = 0, rn_skipped = 0\<rparr> jobs"

definition build_chokepoint :: "path option \<Rightarrow> fs \<Rightarrow> chokepoint_summary" where
  "build_chokepoint binary fs =
     (case binary of
        None \<Rightarrow> \<lparr>ck_configured = False, ck_available = False, ck_binary_path = None,
                 ck_note = Some ''chokepoint binary not configured''\<rparr>
      | Some p \<Rightarrow>
          if path_exists fs p
          then \<lparr>ck_configured = True, ck_available = True, ck_binary_path = Some (path_str p),
                ck_note = None\<rparr>
          else \<lparr>ck_configured = True, ck_available = False, ck_binary_path = Some (path_str p),
                ck_note = Some ''binary not found at path''\<rparr>)"

definition build_snapshot ::
  "py_env \<Rightarrow> nat \<Rightarrow> json list \<Rightarrow> reconciliation_job list \<Rightarrow> path option \<Rightarrow> fs \<Rightarrow> dashboard_snapshot" where
  "build_snapshot E i events jobs binary fs =
     \<lparr>sn_schema_version = 1, sn_generated_at = isoformat (now E i), sn_audit = build_audit events,
      sn_reconciliation = build_reconciliation jobs, sn_chokepoint = build_chokepoint binary fs\<rparr>"

definition opt_text :: "string option \<Rightarrow> bool" where
  "opt_text x \<longleftrightarrow> x \<noteq> None \<and> x \<noteq> Some []"

definition render_text :: "dashboard_snapshot \<Rightarrow> string" where
  "render_text s =
     (let a = sn_audit s; r = sn_reconciliation s; c = sn_chokepoint s
      in lines
        ([''=== Dashboard Snapshot ==='', ''generated_at: '' @ sn_generated_at s, [], ''Audit:'',
          ''  total_events: '' @ show_nat (as_total_events a),
          ''  allowed_events: '' @ show_nat (as_allowed_events a),
          ''  denied_events: '' @ show_nat (as_denied_events a),
          ''  error_events: '' @ show_nat (as_error_events a),
          ''  malformed_events: '' @ show_nat (as_malformed_events a)]
         @ (if as_tools a \<noteq> []
            then [''  tools: '' @ dict_repr (map (\<lambda>(k, n). (k, show_nat n)) (as_tools a))] else [])
         @ [[], ''Reconciliation:'', ''  total_jobs: '' @ show_nat (rn_total_jobs r),
            ''  pending: '' @ show_nat (rn_pending r), ''  passed: '' @ show_nat (rn_passed r),
            ''  failed: '' @ show_nat (rn_failed r), ''  skipped: '' @ show_nat (rn_skipped r), [],
            ''Chokepoint:'', ''  configured: '' @ bool_repr (ck_configured c),
            ''  available: '' @ bool_repr (ck_available c)]
         @ (if opt_text (ck_binary_path c) then [''  binary_path: '' @ the (ck_binary_path c)] else [])
         @ (if opt_text (ck_note c) then [''  note: '' @ the (ck_note c)] else [])))"

end
