(* ===== verification/ReportProps.thy ===== *)
theory ReportProps
  imports Report Fixtures
begin

text \<open>
  The report is safe to open: no string of the snapshot, the options or the results can change its
  markup.
\<close>

definition markup :: "char \<Rightarrow> bool" where
  "markup c \<longleftrightarrow> c \<in> {CHR ''<'', CHR ''>'', CHR 0x22, CHR 0x27}"

definition skel :: "string \<Rightarrow> string" where
  "skel s = filter markup s"

lemma skel_append [simp]: "skel (s @ u) = skel s @ skel u"
  by (simp add: skel_def)

lemma skel_Nil [simp]: "skel [] = []"
  by (simp add: skel_def)

lemma skel_Cons: "skel (c # s) = (if c \<in> {CHR ''<'', CHR ''>'', CHR 0x22, CHR 0x27} then [c] else []) @ skel s"
  by (simp add: skel_def markup_def)

lemma skel_concat [simp]: "skel (concat ss) = concat (map skel ss)"
  by (induction ss) simp_all

lemma skel_lines [simp]: "skel (lines ls) = concat (map skel ls)"
proof -
  have "skel (join [CHR 0x0A] ls) = concat (map skel ls)"
    by (induction ls rule: induct_list012) (simp_all add: skel_def markup_def)
  then show ?thesis by (simp add: lines_def)
qed

lemma skel_esc [simp]: "skel (esc s) = []"
  by (induction s) (simp_all add: esc_def escape_html_char_def skel_def markup_def)

lemma skel_show_nat [simp]: "skel (show_nat n) = []"
proof -
  have "\<not> markup c" if "is_digit c" for c using that by (auto simp: markup_def is_digit_def)
  then show ?thesis using show_nat_digits [of _ n] by (auto simp: skel_def filter_empty_conv)
qed

lemma skel_bool_repr [simp]: "skel (bool_repr b) = []"
  by (simp add: bool_repr_def skel_def markup_def)

lemma skel_row: "skel (row indent a b) = skel indent @ ''<><>'' @ skel a @ ''<><>'' @ skel b @ ''<><>''"
  by (simp add: row_def skel_Cons)

text \<open>Counted rows: their markup depends on their number only.\<close>

lemma skel_rows [simp]:
  "skel (tool_row x) = ''<><><><><><>''" "skel (request_row rid) = ''<><><><><><>''"
  "skel (result_row y) = ''<><><><><><>''" "skel (backend_row y) = ''<><><><><><>''"
  by (cases x; cases y;
      simp add: tool_row_def request_row_def result_row_def backend_row_def skel_row skel_Cons)+

definition rep :: "nat \<Rightarrow> string \<Rightarrow> string" where
  "rep n s = concat (replicate n s)"

lemma rows_rep: "concat (map (\<lambda>x. s) xs) = rep (length xs) s"
  by (simp add: rep_def map_replicate_const)

lemma sorted_items_length: "sorted_items d = Inr xs \<Longrightarrow> length xs = length d"
  by (auto simp: sorted_items_def split: if_splits)

text \<open>What the number of tags depends on.\<close>

definition shape :: "dashboard_snapshot \<Rightarrow> result_summary option \<Rightarrow> html_options option
    \<Rightarrow> nat \<times> nat \<times> nat \<times> (nat \<times> bool) option \<times> bool \<times> bool" where
  "shape s rr options =
     (let opts = (case options of None \<Rightarrow> default_options | Some x \<Rightarrow> x)
      in (length (as_tools (sn_audit s)), length (take 5 (as_recent_request_ids (sn_audit s))),
          length (as_backend_counts (sn_audit s)),
          map_option (\<lambda>x. (length (rm_backend_counts x), opt_text (rm_last_checked_at x))) rr,
          ho_include_generated_at opts, ho_include_limitations opts))"

lemma skel_audit:
  "\<exists>k1 k2. \<forall>a. skel (render_audit_summary a) =
     k1 @ rep (length (as_tools a)) ''<><><><><><>'' @
     rep (length (take 5 (as_recent_request_ids a))) ''<><><><><><>'' @ k2"
proof (intro exI allI)
  fix a
  show "skel (render_audit_summary a) =
      concat (map skel [''<h2>Audit Summary</h2>'', ''<table>'', row ''  '' ''Total events'' [],
        row ''  '' ''Allowed'' [], row ''  '' ''Denied'' [], row ''  '' ''Errors'' [],
        row ''  '' ''Malformed'' []]) @
      rep (length (as_tools a)) ''<><><><><><>'' @
      rep (length (take 5 (as_recent_request_ids a))) ''<><><><><><>'' @ ''<>''"
    unfolding render_audit_summary_def Let_def
    by (simp add: rows_rep skel_row skel_Cons comp_def del: length_take)
qed

lemma skel_backends:
  "\<exists>k1 k2. \<forall>a s. render_backend_counts a = Inr s \<longrightarrow>
     skel s = (if as_backend_counts a = [] then []
               else k1 @ rep (length (as_backend_counts a)) ''<><><><><><>'' @ k2)"
proof (intro exI allI impI)
  fix a s
  assume s: "render_backend_counts a = Inr s"
  then obtain items where items: "sorted_items (as_backend_counts a) = Inr items"
    by (auto simp: render_backend_counts_def split: sum.splits)
  have len: "length items = length (as_backend_counts a)" by (rule sorted_items_length [OF items])
  have "concat (map backend_row items) = [] \<longleftrightarrow> items = []"
    by (cases items) (auto simp: backend_row_def row_def)
  with s items len show "skel s = (if as_backend_counts a = [] then []
      else concat (map skel [''<h2>Execution Backends</h2>'', ''<table>'',
             ''  <tr><th>Backend</th><th>Count</th></tr>'']) @
           rep (length (as_backend_counts a)) ''<><><><><><>'' @ ''<>'')"
    by (auto simp: render_backend_counts_def Let_def rows_rep skel_Cons comp_def)
qed

lemma skel_results:
  "\<exists>k1 k2 k3. \<forall>x s. render_result_summary x = Inr s \<longrightarrow>
     skel s = k1 @ (if opt_text (rm_last_checked_at x) then k2 else []) @
       rep (length (rm_backend_counts x)) ''<><><><><><>'' @ k3"
proof (intro exI allI impI)
  fix x s
  assume "render_result_summary x = Inr s"
  then show "skel s = concat (map skel [''<h2>Reconciliation Results</h2>'',
        ''<p class='' @ [CHR 0x22] @ ''note'' @ [CHR 0x22] @ ''>Audit records describe what happened during execution.'',
        ''Reconciliation results describe how those executions were later checked.</p>'',
        ''<table>'', row ''  '' ''Total results'' [], row ''  '' ''Passed'' [], row ''  '' ''Failed'' [],
        row ''  '' ''Skipped'' []]) @
      (if opt_text (rm_last_checked_at x) then ''<><><><><><>'' else []) @
      rep (length (rm_backend_counts x)) ''<><><><><><>'' @ ''<>''"
    by (auto simp: render_result_summary_def Let_def rows_rep skel_row skel_Cons comp_def
        dest: sorted_items_length split: sum.splits)
qed

lemma skel_consts:
  "skel (render_header opts) = skel (render_header default_options)"
  "skel (render_generated_at s) = skel ''<p><strong></strong></p>''"
  "skel (render_reconciliation_summary r) = skel (render_reconciliation_summary r')"
  "skel (render_chokepoint c) = skel (render_chokepoint c')"
  "skel (page t0 body) = skel (lines [''<!DOCTYPE html>'',
     ''<html lang='' @ [CHR 0x22] @ ''en'' @ [CHR 0x22] @ ''>'', ''<head>'',
     ''<meta charset='' @ [CHR 0x22] @ ''UTF-8'' @ [CHR 0x22] @ ''>'', ''<title></title><style>'', page_style,
     ''</style></head><body>'']) @ skel body @ skel ''</body></html>''"
  by (simp_all add: render_header_def render_generated_at_def render_reconciliation_summary_def
      render_chokepoint_def page_def skel_row skel_Cons)

text \<open>The markup of a page as a function of its shape.\<close>

lemma report_skel:
  "\<exists>F. \<forall>s rr options out. render_html_report s rr options = Inr out \<longrightarrow>
     skel out = F (shape s rr options)"
proof -
  obtain ka1 ka2 where a: "\<And>a. skel (render_audit_summary a) =
      ka1 @ rep (length (as_tools a)) ''<><><><><><>'' @
      rep (length (take 5 (as_recent_request_ids a))) ''<><><><><><>'' @ ka2"
    using skel_audit by blast
  obtain kb1 kb2 where b: "\<And>a x. render_backend_counts a = Inr x \<Longrightarrow>
      skel x = (if as_backend_counts a = [] then []
                else kb1 @ rep (length (as_backend_counts a)) ''<><><><><><>'' @ kb2)"
    using skel_backends by blast
  obtain kr1 kr2 kr3 where r: "\<And>x u. render_result_summary x = Inr u \<Longrightarrow>
      skel u = kr1 @ (if opt_text (rm_last_checked_at x) then kr2 else []) @
        rep (length (rm_backend_counts x)) ''<><><><><><>'' @ kr3"
    using skel_results by blast
  let ?page = "skel (lines [''<!DOCTYPE html>'',
     ''<html lang='' @ [CHR 0x22] @ ''en'' @ [CHR 0x22] @ ''>'', ''<head>'',
     ''<meta charset='' @ [CHR 0x22] @ ''UTF-8'' @ [CHR 0x22] @ ''>'', ''<title></title><style>'', page_style,
     ''</style></head><body>''])"
  obtain r0 :: reconciliation_summary where True by blast
  obtain c0 :: chokepoint_summary where True by blast
  show ?thesis
  proof (intro exI allI impI)
    fix s rr options out
    let ?o = "case options of None \<Rightarrow> default_options | Some x \<Rightarrow> x"
    assume out: "render_html_report s rr options = Inr out"
    then obtain results backends where
      results: "(case rr of None \<Rightarrow> Inr [] | Some x \<Rightarrow> map_sum id (\<lambda>s. [s]) (render_result_summary x)) = Inr results"
      and backends: "render_backend_counts (sn_audit s) = Inr backends"
      and page: "out = page (ho_title ?o) (lines
           ([render_header ?o, render_status_scope]
            @ (if ho_include_generated_at ?o then [render_generated_at s] else [])
            @ [render_audit_summary (sn_audit s), render_reconciliation_summary (sn_reconciliation s)]
            @ results @ [backends, render_chokepoint (sn_chokepoint s)]
            @ (if ho_include_limitations ?o then [render_limitations] else [])))"
      by (auto simp: render_html_report_def Let_def split: sum.splits)
    have res: "concat (map skel results) = (case rr of None \<Rightarrow> []
        | Some x \<Rightarrow> kr1 @ (if opt_text (rm_last_checked_at x) then kr2 else []) @
            rep (length (rm_backend_counts x)) ''<><><><><><>'' @ kr3)"
      using results by (cases rr) (auto simp: map_sum_def dest: r split: sum.splits)
    show "skel out = (\<lambda>(nt, nr, nb, res, gen, lim).
        ?page @ skel (render_header default_options) @ skel render_status_scope @
        (if gen then skel ''<p><strong></strong></p>'' else []) @
        ka1 @ rep nt ''<><><><><><>'' @ rep nr ''<><><><><><>'' @ ka2 @
        skel (render_reconciliation_summary r0) @
        (case res of None \<Rightarrow> [] | Some (n, l) \<Rightarrow> kr1 @ (if l then kr2 else []) @ rep n ''<><><><><><>'' @ kr3) @
        (if nb = 0 then [] else kb1 @ rep nb ''<><><><><><>'' @ kb2) @ skel (render_chokepoint c0) @
        (if lim then skel render_limitations else []) @ skel ''</body></html>'') (shape s rr options)"
      unfolding page skel_consts(5)
      by (simp add: shape_def Let_def a b [OF backends] res skel_consts(1) [of ?o]
          skel_consts(2) skel_consts(3) [of "sn_reconciliation s" r0]
          skel_consts(4) [of "sn_chokepoint s" c0] split: option.split
          del: length_take)
  qed
qed

text \<open>C25: no markup comes from data: two reports of the same shape (numbers of tools, listed request ids and
  backends, and the sections asked for) have the same sequence of angle brackets and quotes,
  whatever the titles, tool names, request ids, backends, paths, notes and times are; so a
  string in the audit log cannot open, close or extend a tag.\<close>

theorem report_markup_from_shape:
  assumes "render_html_report s rr options = Inr page1" "render_html_report s' rr' options' = Inr page2"
    "shape s rr options = shape s' rr' options'"
  shows "filter markup page1 = filter markup page2"
proof -
  obtain F where F: "\<And>s rr options out. render_html_report s rr options = Inr out \<Longrightarrow>
      skel out = F (shape s rr options)"
    using report_skel by blast
  from F [OF assms(1)] F [OF assms(2)] assms(3) show ?thesis by (simp add: skel_def)
qed

definition demo_snapshot :: "string \<Rightarrow> dashboard_snapshot" where
  "demo_snapshot tool =
     build_snapshot E0 0 [JObj [(''tool_name'', JStr tool), (''allowed'', JBool True)]] [] None (fs_ws [])"

lemma demo_report: "\<exists>out. render_html_report (demo_snapshot tool) None None = Inr out"
proof -
  have "as_backend_counts (sn_audit (demo_snapshot tool)) = []"
    by (simp add: demo_snapshot_def build_snapshot_def build_audit_def audit_turn_def json_simps
        count_event_def Let_def empty_audit_summary_def)
  then have "render_backend_counts (sn_audit (demo_snapshot tool)) = Inr []"
    by (simp add: render_backend_counts_def sorted_items_def)
  then show ?thesis by (simp add: render_html_report_def)
qed

theorem report_markup_from_shape_witness:
  "\<exists>page1 page2. render_html_report (demo_snapshot ''<script>'') None None = Inr page1 \<and>
     render_html_report (demo_snapshot ''shell'') None None = Inr page2 \<and>
     filter markup page1 = filter markup page2"
proof -
  obtain page1 page2 where p: "render_html_report (demo_snapshot ''<script>'') None None = Inr page1"
    "render_html_report (demo_snapshot ''shell'') None None = Inr page2"
    using demo_report by blast
  have "shape (demo_snapshot ''<script>'') None None = shape (demo_snapshot ''shell'') None None"
    by (simp add: shape_def demo_snapshot_def build_snapshot_def build_audit_def audit_turn_def json_simps
        count_event_def Let_def empty_audit_summary_def count_tool_def)
  from report_markup_from_shape [OF p this] p show ?thesis by blast
qed

end
