(* ===== verification/DashboardProps.thy ===== *)
theory DashboardProps
  imports Dashboard SchedulerProps ServiceProps
begin

text \<open>
  The snapshot says what is in the events: every count of the dashboard as a function of the list
  of events, and the counts of a run of the service runtime as read from its audit file.
\<close>

subsection \<open>Counting\<close>

text \<open>The dictionaries among the events, and the unhashable backends among them.\<close>

fun dicts :: "json list \<Rightarrow> (string \<times> json) list list" where
  "dicts [] = []"
| "dicts (JObj d # vs) = d # dicts vs"
| "dicts (_ # vs) = dicts vs"

definition bad_backend :: "(string \<times> json) list \<Rightarrow> bool" where
  "bad_backend d \<longleftrightarrow>
     truth (dget d ''execution_backend'') \<and> (\<exists>e. hash_key (dget d ''execution_backend'') = Inl e)"

definition tool_of :: "(string \<times> json) list \<Rightarrow> string" where
  "tool_of d = py_str (dget_or d ''tool_name'' (JStr ''unknown''))"

definition found :: "('k \<times> nat) list \<Rightarrow> 'k \<Rightarrow> nat" where
  "found c k = (case map_of c k of None \<Rightarrow> 0 | Some n \<Rightarrow> n)"

lemma dicts_append [simp]: "dicts (vs @ ws) = dicts vs @ dicts ws"
  by (induction vs rule: dicts.induct) simp_all

lemma dicts_snoc: "dicts (vs @ [v]) = dicts vs @ (case v of JObj d \<Rightarrow> [d] | _ \<Rightarrow> [])"
  by (cases v) simp_all

definition request_texts :: "(string \<times> json) list list \<Rightarrow> string list" where
  "request_texts ds = map py_str (filter truth (map (\<lambda>d. dget d ''request_id'') ds))"

definition time_texts :: "(string \<times> json) list list \<Rightarrow> string list" where
  "time_texts ds = map py_str (filter truth (map (\<lambda>d. dget d ''timestamp'') ds))"

definition count_if :: "('a \<Rightarrow> bool) \<Rightarrow> 'a list \<Rightarrow> nat" where
  "count_if P xs = length (filter P xs)"

lemma count_if_simps [simp]:
  "count_if P [] = 0" "count_if P (xs @ ys) = count_if P xs + count_if P ys"
  "count_if P [x] = (if P x then 1 else 0)"
  by (simp_all add: count_if_def)

lemma build_audit_snoc: "build_audit (vs @ [v]) = audit_turn (build_audit vs) v"
  by (simp add: build_audit_def)

lemma found_count_tool: "found (count_tool k c) k' = found c k' + (if k' = k then 1 else 0)"
  by (auto simp: found_def count_tool_def update_conv')

lemma audit_turn_other:
  "as_dict v = Inl e \<Longrightarrow> audit_turn a v = a\<lparr>as_total_events := as_total_events a + 1,
     as_malformed_events := as_malformed_events a + 1\<rparr>"
  by (simp add: audit_turn_def)

text \<open>The turn of a dictionary, with its conditions inside the fields.\<close>

definition tally :: "(string \<times> json) list \<Rightarrow> audit_summary \<Rightarrow> audit_summary" where
  "tally d a =
     a\<lparr>as_allowed_events := as_allowed_events a + (if dget d ''allowed'' = JBool True then 1 else 0),
       as_denied_events := as_denied_events a + (if dget d ''allowed'' = JBool False then 1 else 0),
       as_error_events := as_error_events a + (if dget d ''error'' \<noteq> JNull then 1 else 0),
       as_tools := count_tool (tool_of d) (as_tools a),
       as_recent_request_ids :=
         (if truth (dget d ''request_id'') \<and> length (as_recent_request_ids a) < 5
          then as_recent_request_ids a @ [py_str (dget d ''request_id'')] else as_recent_request_ids a),
       as_first_timestamp :=
         (if truth (dget d ''timestamp'') \<and> as_first_timestamp a = None
          then Some (py_str (dget d ''timestamp'')) else as_first_timestamp a),
       as_last_timestamp :=
         (if truth (dget d ''timestamp'') then Some (py_str (dget d ''timestamp'')) else as_last_timestamp a)\<rparr>"

lemma if_update:
  fixes a :: audit_summary
  shows
  "(if c then a\<lparr>as_error_events := n\<rparr> else a) = a\<lparr>as_error_events := (if c then n else as_error_events a)\<rparr>"
  "(if c then a\<lparr>as_recent_request_ids := r\<rparr> else a) =
     a\<lparr>as_recent_request_ids := (if c then r else as_recent_request_ids a)\<rparr>"
  "(if c then a\<lparr>as_first_timestamp := t1, as_last_timestamp := t2\<rparr> else a) =
     a\<lparr>as_first_timestamp := (if c then t1 else as_first_timestamp a),
       as_last_timestamp := (if c then t2 else as_last_timestamp a)\<rparr>"
  "(if c then a\<lparr>as_allowed_events := n\<rparr> else if c' then a\<lparr>as_denied_events := m\<rparr> else a) =
     a\<lparr>as_allowed_events := (if c then n else as_allowed_events a),
       as_denied_events := (if \<not> c \<and> c' then m else as_denied_events a)\<rparr>"
  by simp_all

lemma count_event_tally:
  "\<exists>r c. count_event d a = (r, (tally d a)\<lparr>as_backend_counts := c\<rparr>) \<and> ((\<exists>e. r = Inl e) \<longleftrightarrow> bad_backend d)"
proof -
  have "count_event d a =
      (if truth (dget d ''execution_backend'')
       then (case hash_key (dget d ''execution_backend'') of
               Inl e \<Rightarrow> (Inl e, tally d a)
             | Inr _ \<Rightarrow> (Inr (), (tally d a)\<lparr>as_backend_counts :=
                 count_key (dget d ''execution_backend'') (as_backend_counts (tally d a))\<rparr>))
       else (Inr (), tally d a))"
    unfolding count_event_def Let_def if_update
    by (cases a, cases "as_first_timestamp a") (simp_all add: tally_def tool_of_def cong: if_cong sum.case_cong)
  moreover have keep: "\<exists>c. x = x\<lparr>as_backend_counts := c\<rparr>" for x :: audit_summary
    by (rule exI [of _ "as_backend_counts x"]) simp
  ultimately show ?thesis
    by (cases "hash_key (dget d ''execution_backend'')") (auto simp: bad_backend_def intro: keep)
qed

lemma audit_turn_dict:
  "as_total_events (audit_turn a (JObj d)) = as_total_events a + 1"
  "as_allowed_events (audit_turn a (JObj d)) =
     as_allowed_events a + (if dget d ''allowed'' = JBool True then 1 else 0)"
  "as_denied_events (audit_turn a (JObj d)) =
     as_denied_events a + (if dget d ''allowed'' = JBool False then 1 else 0)"
  "as_error_events (audit_turn a (JObj d)) =
     as_error_events a + (if dget d ''error'' \<noteq> JNull then 1 else 0)"
  "as_malformed_events (audit_turn a (JObj d)) =
     as_malformed_events a + (if bad_backend d then 1 else 0)"
  "as_tools (audit_turn a (JObj d)) = count_tool (tool_of d) (as_tools a)"
  "as_recent_request_ids (audit_turn a (JObj d)) =
     (if truth (dget d ''request_id'') \<and> length (as_recent_request_ids a) < 5
      then as_recent_request_ids a @ [py_str (dget d ''request_id'')] else as_recent_request_ids a)"
  "as_first_timestamp (audit_turn a (JObj d)) =
     (if truth (dget d ''timestamp'') \<and> as_first_timestamp a = None
      then Some (py_str (dget d ''timestamp'')) else as_first_timestamp a)"
  "as_last_timestamp (audit_turn a (JObj d)) =
     (if truth (dget d ''timestamp'') then Some (py_str (dget d ''timestamp'')) else as_last_timestamp a)"
proof -
  obtain r c where rc: "count_event d (a\<lparr>as_total_events := as_total_events a + 1\<rparr>) =
      (r, (tally d (a\<lparr>as_total_events := as_total_events a + 1\<rparr>))\<lparr>as_backend_counts := c\<rparr>)"
    "(\<exists>e. r = Inl e) \<longleftrightarrow> bad_backend d"
    using count_event_tally by blast
  let ?x = "(tally d (a\<lparr>as_total_events := as_total_events a + 1\<rparr>))\<lparr>as_backend_counts := c\<rparr>"
  have turn: "audit_turn a (JObj d) =
      (if bad_backend d then ?x\<lparr>as_malformed_events := as_malformed_events ?x + 1\<rparr> else ?x)"
    using rc by (cases r) (simp_all add: audit_turn_def json_simps)
  show "as_total_events (audit_turn a (JObj d)) = as_total_events a + 1"
    "as_allowed_events (audit_turn a (JObj d)) =
       as_allowed_events a + (if dget d ''allowed'' = JBool True then 1 else 0)"
    "as_denied_events (audit_turn a (JObj d)) =
       as_denied_events a + (if dget d ''allowed'' = JBool False then 1 else 0)"
    "as_error_events (audit_turn a (JObj d)) =
       as_error_events a + (if dget d ''error'' \<noteq> JNull then 1 else 0)"
    "as_malformed_events (audit_turn a (JObj d)) =
       as_malformed_events a + (if bad_backend d then 1 else 0)"
    "as_tools (audit_turn a (JObj d)) = count_tool (tool_of d) (as_tools a)"
    "as_recent_request_ids (audit_turn a (JObj d)) =
       (if truth (dget d ''request_id'') \<and> length (as_recent_request_ids a) < 5
        then as_recent_request_ids a @ [py_str (dget d ''request_id'')] else as_recent_request_ids a)"
    "as_first_timestamp (audit_turn a (JObj d)) =
       (if truth (dget d ''timestamp'') \<and> as_first_timestamp a = None
        then Some (py_str (dget d ''timestamp'')) else as_first_timestamp a)"
    "as_last_timestamp (audit_turn a (JObj d)) =
       (if truth (dget d ''timestamp'') then Some (py_str (dget d ''timestamp'')) else as_last_timestamp a)"
    unfolding turn by (cases "bad_backend d"; simp add: tally_def)+
qed

subsection \<open>The properties\<close>

definition hd_opt :: "'a list \<Rightarrow> 'a option" where
  "hd_opt xs = (case xs of [] \<Rightarrow> None | x # _ \<Rightarrow> Some x)"

definition last_opt :: "'a list \<Rightarrow> 'a option" where
  "last_opt xs = (if xs = [] then None else Some (last xs))"

lemma texts_snoc:
  "request_texts (ds @ [d]) =
     request_texts ds @ (if truth (dget d ''request_id'') then [py_str (dget d ''request_id'')] else [])"
  "time_texts (ds @ [d]) =
     time_texts ds @ (if truth (dget d ''timestamp'') then [py_str (dget d ''timestamp'')] else [])"
  by (simp_all add: request_texts_def time_texts_def)

lemma build_audit_recent:
  "as_recent_request_ids (build_audit vs) = take 5 (request_texts (dicts vs))"
proof (induction vs rule: rev_induct)
  case Nil
  then show ?case by (simp add: build_audit_def empty_audit_summary_def request_texts_def)
next
  case (snoc v vs)
  show ?case
  proof (cases "\<exists>d. v = JObj d")
    case True
    then obtain d where v: "v = JObj d" by blast
    have "length (take 5 xs) < 5 \<longleftrightarrow> length xs < 5"
      "take 5 (xs @ [x]) = (if length xs < 5 then take 5 xs @ [x] else take 5 xs)" for x and xs :: "string list"
      by auto
    with snoc show ?thesis
      by (simp add: build_audit_snoc v audit_turn_dict texts_snoc del: length_take take_append)
  next
    case False
    then have "\<exists>e. as_dict v = Inl e" by (auto simp: json_simps split: json.split)
    with snoc False show ?thesis
      by (cases v) (auto simp: build_audit_snoc audit_turn_other)
  qed
qed

lemma length_dicts: "length (dicts vs) \<le> length vs"
  by (induction vs rule: dicts.induct) auto

lemma event_kinds:
  obtains d where "v = JObj d" | e where "as_dict v = Inl e" "dicts [v] = []"
  by (cases v) (auto simp: json_simps)

lemma build_audit_counts:
  "as_total_events (build_audit vs) = length vs \<and>
   as_allowed_events (build_audit vs) = count_if (\<lambda>d. dget d ''allowed'' = JBool True) (dicts vs) \<and>
   as_denied_events (build_audit vs) = count_if (\<lambda>d. dget d ''allowed'' = JBool False) (dicts vs) \<and>
   as_error_events (build_audit vs) = count_if (\<lambda>d. dget d ''error'' \<noteq> JNull) (dicts vs) \<and>
   as_malformed_events (build_audit vs) = (length vs - length (dicts vs)) + count_if bad_backend (dicts vs) \<and>
   (\<forall>tool. found (as_tools (build_audit vs)) tool = count_if (\<lambda>d. tool_of d = tool) (dicts vs))"
proof (induction vs rule: rev_induct)
  case Nil
  then show ?case by (simp add: build_audit_def empty_audit_summary_def found_def)
next
  case (snoc v vs)
  then show ?case
    using length_dicts [of vs]
    by (cases v rule: event_kinds)
      (auto simp: build_audit_snoc audit_turn_dict audit_turn_other found_count_tool)
qed

lemma build_audit_times:
  "as_first_timestamp (build_audit vs) = hd_opt (time_texts (dicts vs)) \<and>
   as_last_timestamp (build_audit vs) = last_opt (time_texts (dicts vs))"
proof (induction vs rule: rev_induct)
  case Nil
  then show ?case
    by (simp add: build_audit_def empty_audit_summary_def time_texts_def hd_opt_def last_opt_def)
next
  case (snoc v vs)
  then show ?case
    by (cases v rule: event_kinds)
      (auto simp: build_audit_snoc audit_turn_dict audit_turn_other texts_snoc hd_opt_def last_opt_def
        split: list.split)
qed


text \<open>What the record of an event in the file has under each key.\<close>

definition event_members :: "audit_event \<Rightarrow> (string \<times> json) list" where
  "event_members ev = (case stored_event ev of JObj d \<Rightarrow> d | _ \<Rightarrow> [])"

lemma stored_event_members [simp]: "stored_event ev = JObj (event_members ev)"
  by (simp add: event_members_def stored_event_def)

lemma event_member: "map_of (event_members ev) k = map_option sort_keys (map_of (audit_record ev) k)"
proof -
  have "distinct (map fst (audit_record ev))" by (simp add: audit_record_def)
  from obj_get_sort_keys [OF this]
  show ?thesis by (simp only: stored_event_def [symmetric] stored_event_members obj_get.simps)
qed

lemma event_fields [simp]:
  "dget (event_members ev) ''request_id'' = JStr (ae_request_id ev)"
  "dget_or (event_members ev) ''request_id'' v = JStr (ae_request_id ev)"
  "dget (event_members ev) ''tool_name'' = JStr (ae_tool_name ev)"
  "dget_or (event_members ev) ''tool_name'' v = JStr (ae_tool_name ev)"
  "dget (event_members ev) ''allowed'' = JBool (ae_allowed ev)"
  "dget (event_members ev) ''error'' = sort_keys (ae_error ev)"
  "dget (event_members ev) ''execution_backend'' = JStr (ae_execution_backend ev)"
  by (simp_all add: json_simps event_member audit_record_def)

lemma dicts_stored [simp]: "dicts (map stored_event evs) = map event_members evs"
  by (induction evs) simp_all

lemma stored_backend: "\<not> bad_backend (event_members ev)"
  by (simp add: bad_backend_def hash_key_def)

lemma count_if_map: "count_if P (map f xs) = count_if (\<lambda>x. P (f x)) xs"
  by (simp add: count_if_def filter_map comp_def)

lemma matches_counts:
  "list_all2 event_matches rs evs \<Longrightarrow>
     length rs = length evs \<and> count_if (\<lambda>e. ae_allowed e = b) evs = count_if (\<lambda>r. ss_allowed r = b) rs \<and>
     count_if (\<lambda>e. ae_error e \<noteq> JNull) evs = count_if (\<lambda>r. ss_error r \<noteq> JNull) rs"
  by (induction rs evs rule: list_all2_induct) (auto simp: count_if_def event_matches_def)

end
