(* ===== verification/Pipeline.thy ===== *)
theory Pipeline
  imports DashboardProps
begin

text \<open>
  The components together, from a client's requests to the dashboard: \<open>ServiceRuntime\<close> with the
  persistent sink, \<open>read_events\<close>, the scheduler's \<open>plan\<close> and \<open>run_pending\<close>, and the
  snapshot of \<open>DashboardBuilder\<close>. It says what the jobs and counts are in terms of the
  requests and of the results that the client got.
\<close>

subsection \<open>The ids of the requests\<close>

lemma sr_emit_result: "sr_emit rt ev r w = (Inr r', w') \<Longrightarrow> r' = r \<and> sr_tick w' = sr_tick w"
  by (auto simp: sr_emit_def split: prod.splits sum.splits)

lemma execute_id:
  "service_execute E rt q w = (Inr r, w') \<Longrightarrow>
     ss_request_id r = sr_id E (sr_tick w) q \<and> sr_tick w' = Suc (sr_tick w)"
  by (auto simp: service_execute_def Let_def split: sum.splits prod.splits if_splits dest!: sr_emit_result)

lemma run_ids:
  "service_run E rt qs w = (Inr rs, w') \<Longrightarrow>
     map ss_request_id rs = map (\<lambda>(i, q). sr_id E i q) (enumerate (sr_tick w) qs)"
proof (induction qs arbitrary: w rs)
  case Nil
  then show ?case by simp
next
  case (Cons q qs)
  from Cons.prems obtain r w1 rs' where q: "service_execute E rt q w = (Inr r, w1)"
    and qs: "service_run E rt qs w1 = (Inr rs', w')" and rs: "rs = r # rs'"
    by (auto split: prod.splits sum.splits)
  from Cons.IH [OF qs] execute_id [OF q] rs show ?case by simp
qed

lemma sr_id_nonempty: "(\<And>i. uuid4 E i \<noteq> []) \<Longrightarrow> sr_id E i q \<noteq> []"
  by (auto simp: sr_id_def split: option.split)

lemma run_ids_nonempty:
  "service_run E rt qs w = (Inr rs, w') \<Longrightarrow> (\<And>i. uuid4 E i \<noteq> []) \<Longrightarrow> r \<in> set rs \<Longrightarrow> ss_request_id r \<noteq> []"
proof -
  assume run: "service_run E rt qs w = (Inr rs, w')" and u: "\<And>i. uuid4 E i \<noteq> []" and r: "r \<in> set rs"
  from r have "ss_request_id r \<in> set (map ss_request_id rs)" by simp
  then have "ss_request_id r \<in> set (map (\<lambda>(i, q). sr_id E i q) (enumerate (sr_tick w) qs))"
    unfolding run_ids [OF run] .
  then obtain i q where "ss_request_id r = sr_id E i q" by auto
  then show ?thesis using sr_id_nonempty [OF u] by simp
qed

subsection \<open>The job of an event\<close>

definition event_job :: "audit_event \<Rightarrow> reconciliation_job" where
  "event_job ev = planned_job (JStr (ae_request_id ev)) (event_members ev)"

lemma event_job_fields [simp]:
  "j_job_id (event_job ev) = ''reconcile:'' @ ae_request_id ev"
  "j_request_id (event_job ev) = JStr (ae_request_id ev)"
  "j_tool_name (event_job ev) = ae_tool_name ev"
  "j_source_event (event_job ev) = event_members ev"
  "j_status (event_job ev) = (if ae_allowed ev \<and> ae_error ev = JNull then PENDING else SKIPPED)"
  by (simp_all add: event_job_def planned_job_def)

lemma event_job_verdict:
  "verdict (event_job ev) =
     (if ae_request_id ev \<noteq> [] \<and> ae_tool_name ev \<noteq> [] \<and> ae_allowed ev then PASSED else FAILED)"
  by (simp add: verdict_def verify_def truth.simps)

lemma event_status:
  "j_status (settle (event_job ev)) =
     (if ae_allowed ev \<and> ae_error ev = JNull
      then if ae_request_id ev \<noteq> [] \<and> ae_tool_name ev \<noteq> [] then PASSED else FAILED else SKIPPED)"
  "j_tool_name (settle (event_job ev)) = ae_tool_name ev"
  by (simp_all add: settle_def event_job_verdict)

lemma count_if_Cons: "count_if P (x # xs) = (if P x then 1 else 0) + count_if P xs"
  by (simp add: count_if_def)

subsection \<open>Planning from an audit log\<close>

lemma add_fresh_jobs:
  "distinct (map fst jobs @ map j_job_id js) \<Longrightarrow>
     foldl (\<lambda>jobs j. job_add j jobs) jobs js = jobs @ map (\<lambda>j. (j_job_id j, j)) js"
proof (induction js arbitrary: jobs)
  case Nil
  then show ?case by simp
next
  case (Cons j js)
  then have "job_add j jobs = jobs @ [(j_job_id j, j)]"
    unfolding job_add_def by (intro dict_set_fresh) auto
  with Cons show ?case by simp
qed

text \<open>The scheduler of the examples: the events that were read, and no result store.\<close>

definition scheduler_of :: "json list \<Rightarrow> scheduler" where
  "scheduler_of events = \<lparr>sd_events = events, sd_result_store = None\<rparr>"

lemma plan_stored:
  assumes "distinct (map ae_request_id evs)" "\<forall>ev \<in> set evs. ae_request_id ev \<noteq> []" "sc_jobs s0 = []"
  shows "plan (scheduler_of (map stored_event evs)) s0 =
    (Inr (map event_job evs),
     s0\<lparr>sc_jobs := map (\<lambda>j. (j_job_id j, j)) (map event_job evs)\<rparr>)"
proof -
  have "plan_event {} (stored_event ev) = Inr (Some (event_job ev))" if "ev \<in> set evs" for ev
    using that assms(2)
    by (simp add: plan_event_def as_dict_def hash_key_def event_job_def truth.simps)
  then have "traverse (plan_event {}) (map stored_event evs) = Inr (map (\<lambda>ev. Some (event_job ev)) evs)"
    by (induction evs) simp_all
  moreover have "distinct (map j_job_id (map event_job evs))"
    using assms(1) by (simp add: comp_def distinct_map inj_on_def)
  moreover have "existing_ids [] = Inr {}" by (simp add: existing_ids_def job_list_def)
  ultimately show ?thesis
    using add_fresh_jobs [of "[]" "map event_job evs"] assms(3)
    by (cases s0) (simp add: plan_def scheduler_of_def Let_def filter_map comp_def)
qed

lemma string_events: "list_all string_event (map stored_event evs)"
  by (simp add: list_all_iff string_event_def)

text \<open>All the jobs have been settled at the end.\<close>

lemma settled_jobs:
  assumes "distinct (map ae_request_id evs)" "\<forall>ev \<in> set evs. ae_request_id ev \<noteq> []"
    and "sc_jobs s0 = []" and "sd = scheduler_of (map stored_event evs)"
  shows "\<exists>s results s'. plan sd s0 = (Inr (map event_job evs), s) \<and>
    run_pending E sd s = (Inr results, s') \<and>
    results = map job_result (filter (\<lambda>j. j_status j = PENDING) (map event_job evs)) \<and>
    job_list (sc_jobs s') = map (\<lambda>ev. settle (event_job ev)) evs"
proof -
  obtain s where plan: "plan sd s0 = (Inr (map event_job evs), s)"
    and jobs: "sc_jobs s = map (\<lambda>j. (j_job_id j, j)) (map event_job evs)"
    using plan_stored [OF assms(1-3)] assms(4) by simp
  have st: "sd_result_store sd = None" and ev: "list_all string_event (sd_events sd)"
    using assms(4) string_events by (simp_all add: scheduler_of_def)
  have inv: "sched_inv s" using plan_keeps [OF plan _ ev] assms(3) by (simp add: sched_inv_def)
  from run_loop_total [OF st inv, of "map fst (sc_jobs s)" E] obtain results s'
    where run: "run_pending E sd s = (Inr results, s')" by (auto simp: run_pending_def)
  from run_pending_jobs [OF inv run] jobs
  have "results = map job_result (filter (\<lambda>j. j_status j = PENDING) (map event_job evs))"
    "job_list (sc_jobs s') = map (\<lambda>ev. settle (event_job ev)) evs"
    by (simp_all add: job_list_def comp_def)
  with plan run show ?thesis by blast
qed

subsection \<open>The counts\<close>

lemma build_reconciliation_counts:
  "build_reconciliation jobs =
     \<lparr>rn_total_jobs = length jobs, rn_pending = count_if (\<lambda>j. j_status j = PENDING) jobs,
      rn_passed = count_if (\<lambda>j. j_status j = PASSED) jobs,
      rn_failed = count_if (\<lambda>j. j_status j = FAILED) jobs,
      rn_skipped = count_if (\<lambda>j. j_status j = SKIPPED) jobs\<rparr>"
proof -
  have "foldl (\<lambda>r job.
         let status = status_value (j_status job)
         in if status = ''pending'' then r\<lparr>rn_pending := rn_pending r + 1\<rparr>
            else if status = ''passed'' then r\<lparr>rn_passed := rn_passed r + 1\<rparr>
            else if status = ''failed'' then r\<lparr>rn_failed := rn_failed r + 1\<rparr>
            else if status = ''skipped'' then r\<lparr>rn_skipped := rn_skipped r + 1\<rparr>
            else r) \<lparr>rn_total_jobs = n, rn_pending = a, rn_passed = b, rn_failed = c, rn_skipped = d\<rparr> js =
      \<lparr>rn_total_jobs = n, rn_pending = a + count_if (\<lambda>j. j_status j = PENDING) js,
       rn_passed = b + count_if (\<lambda>j. j_status j = PASSED) js,
       rn_failed = c + count_if (\<lambda>j. j_status j = FAILED) js,
       rn_skipped = d + count_if (\<lambda>j. j_status j = SKIPPED) js\<rparr>" for n a b c d js
  proof (induction js arbitrary: a b c d)
    case Nil
    then show ?case by simp
  next
    case (Cons j js)
    then show ?case by (cases "j_status j") (simp_all add: Let_def count_if_def)
  qed
  from this [of "length jobs" 0 0 0 0 jobs] show ?thesis unfolding build_reconciliation_def by (simp only: add_0)
qed

text \<open>What becomes of a request: its id, its tool, and the status of its job.\<close>

definition request_verdict :: "sr_request \<Rightarrow> sr_result \<Rightarrow> json \<times> string \<times> reconciliation_status" where
  "request_verdict q r =
     (JStr (ss_request_id r), sq_tool_name q,
      if \<not> ss_allowed r then SKIPPED else if sq_tool_name q = [] then FAILED else PASSED)"

definition job_verdict :: "reconciliation_job \<Rightarrow> json \<times> string \<times> reconciliation_status" where
  "job_verdict j = (j_request_id j, j_tool_name j, j_status j)"

lemma settled_status:
  assumes "event_matches r ev" "event_of_request q ev" "ae_request_id ev \<noteq> []"
  shows "job_verdict (settle (event_job ev)) = request_verdict q r"
  using assms
  by (auto simp: job_verdict_def request_verdict_def event_status event_matches_def event_of_request_def)

lemma job_verdicts:
  "list_all2 event_matches rs evs \<Longrightarrow> list_all2 event_of_request qs evs \<Longrightarrow>
     \<forall>ev \<in> set evs. ae_request_id ev \<noteq> [] \<Longrightarrow>
     map job_verdict (map (\<lambda>ev. settle (event_job ev)) evs) = map2 request_verdict qs rs"
proof (induction rs evs arbitrary: qs rule: list_all2_induct)
  case (Cons r rs ev evs)
  then obtain q qs' where "qs = q # qs'" "event_of_request q ev" "list_all2 event_of_request qs' evs"
    by (cases qs) auto
  with Cons settled_status show ?case by simp
qed simp

lemma settled_counts:
  "rn_total_jobs (build_reconciliation (map (\<lambda>ev. settle (event_job ev)) evs)) = length evs \<and>
   rn_pending (build_reconciliation (map (\<lambda>ev. settle (event_job ev)) evs)) = 0 \<and>
   rn_passed (build_reconciliation (map (\<lambda>ev. settle (event_job ev)) evs)) +
     rn_failed (build_reconciliation (map (\<lambda>ev. settle (event_job ev)) evs)) =
     count_if (\<lambda>ev. ae_allowed ev \<and> ae_error ev = JNull) evs \<and>
   rn_skipped (build_reconciliation (map (\<lambda>ev. settle (event_job ev)) evs)) =
     count_if (\<lambda>ev. \<not> (ae_allowed ev \<and> ae_error ev = JNull)) evs"
  by (induction evs) (auto simp: build_reconciliation_counts count_if_Cons event_status)

lemma verdict_counts:
  assumes "list_all2 event_matches rs evs" "js = map (\<lambda>ev. settle (event_job ev)) evs"
  shows "rn_total_jobs (build_reconciliation js) = length rs" "rn_pending (build_reconciliation js) = 0"
    "rn_passed (build_reconciliation js) + rn_failed (build_reconciliation js) = count_if ss_allowed rs"
    "rn_skipped (build_reconciliation js) = count_if (\<lambda>r. \<not> ss_allowed r) rs"
proof -
  have "count_if (\<lambda>ev. ae_allowed ev \<and> ae_error ev = JNull) evs = count_if ss_allowed rs \<and>
      count_if (\<lambda>ev. \<not> (ae_allowed ev \<and> ae_error ev = JNull)) evs = count_if (\<lambda>r. \<not> ss_allowed r) rs"
    using assms(1) by (induction rs evs rule: list_all2_induct) (auto simp: count_if_def event_matches_def)
  with settled_counts [of evs] assms(2) list_all2_lengthD [OF assms(1)]
  show "rn_total_jobs (build_reconciliation js) = length rs" "rn_pending (build_reconciliation js) = 0"
    "rn_passed (build_reconciliation js) + rn_failed (build_reconciliation js) = count_if ss_allowed rs"
    "rn_skipped (build_reconciliation js) = count_if (\<lambda>r. \<not> ss_allowed r) rs" by simp_all
qed

lemma event_counts:
  assumes "list_all2 event_matches rs evs" "vs = map stored_event evs"
  shows "as_total_events (build_audit vs) = length rs"
    "as_allowed_events (build_audit vs) = count_if ss_allowed rs"
    "as_denied_events (build_audit vs) = count_if (\<lambda>r. \<not> ss_allowed r) rs"
    "as_error_events (build_audit vs) = count_if (\<lambda>r. ss_error r \<noteq> JNull) rs"
    "as_malformed_events (build_audit vs) = 0"
proof -
  have "count_if bad_backend (map event_members evs) = 0"
    by (simp add: count_if_def stored_backend)
  then show "as_total_events (build_audit vs) = length rs"
    "as_allowed_events (build_audit vs) = count_if ss_allowed rs"
    "as_denied_events (build_audit vs) = count_if (\<lambda>r. \<not> ss_allowed r) rs"
    "as_error_events (build_audit vs) = count_if (\<lambda>r. ss_error r \<noteq> JNull) rs"
    "as_malformed_events (build_audit vs) = 0"
    using build_audit_counts [of vs] matches_counts [OF assms(1), of True] matches_counts [OF assms(1), of False]
    by (simp_all add: assms(2) count_if_map del: stored_event_members)
qed

subsection \<open>The property\<close>

text \<open>What a run of the service, of \<open>plan\<close> and of \<open>run_pending\<close> come to, on any scheduler without jobs.\<close>

lemma pipeline_run:
  assumes "sr_event_sink rt = jsonl_sink p" "sound_backend (sr_backend rt)"
    "keeps_log (jsonl_holds p []) (sr_backend rt)"
    "jsonl_clean p (sr_fs w)" "audit_read_events p (sr_fs w) = Inr []"
    "service_run E rt qs w = (Inr rs, w')"
    "distinct (map ss_request_id rs)" "\<forall>i. uuid4 E i \<noteq> []" "sc_jobs s0 = []"
  shows "\<exists>evs s results s'. audit_read_events p (sr_fs w') = Inr (map stored_event evs) \<and>
    list_all2 event_matches rs evs \<and>
    plan (scheduler_of (map stored_event evs)) s0 = (Inr (map event_job evs), s) \<and>
    run_pending E (scheduler_of (map stored_event evs)) s = (Inr results, s') \<and>
    job_list (sc_jobs s') = map (\<lambda>ev. settle (event_job ev)) evs \<and>
    map job_verdict (job_list (sc_jobs s')) = map2 request_verdict qs rs"
proof -
  have "jsonl_holds p [] (sr_sink w, sr_fs w) []" using assms(4,5) by (simp add: jsonl_holds_def)
  from audit_jsonl.run_logs [OF _ assms(2,3) this assms(6)] assms(1) obtain evs where
    evs: "audit_read_events p (sr_fs w') = Inr (map stored_event evs)"
    and rs: "list_all2 event_matches rs evs" and qs: "list_all2 event_of_request qs evs"
    by (auto simp: jsonl_holds_def simp del: stored_event_members)
  have ids: "map ss_request_id rs = map ae_request_id evs"
    using rs by (induction rs evs rule: list_all2_induct) (simp_all add: event_matches_def)
  have ne: "\<forall>ev \<in> set evs. ae_request_id ev \<noteq> []"
  proof
    fix ev assume "ev \<in> set evs"
    then have "ae_request_id ev \<in> ss_request_id ` set rs" using ids by (metis image_eqI list.set_map)
    then obtain r where "r \<in> set rs" "ae_request_id ev = ss_request_id r" by blast
    with run_ids_nonempty [OF assms(6)] assms(8) show "ae_request_id ev \<noteq> []" by simp
  qed
  let ?sd = "scheduler_of (map stored_event evs)"
  from settled_jobs [OF _ ne assms(9) refl] assms(7) ids obtain s results s' where
    plan: "plan ?sd s0 = (Inr (map event_job evs), s)"
    and run: "run_pending E ?sd s = (Inr results, s')"
    and jobs: "job_list (sc_jobs s') = map (\<lambda>ev. settle (event_job ev)) evs" by metis
  have v: "map job_verdict (job_list (sc_jobs s')) = map2 request_verdict qs rs"
    unfolding jobs by (rule job_verdicts [OF rs qs ne])
  show ?thesis by (intro exI conjI, rule evs, rule rs, rule plan, rule run, rule jobs, rule v)
qed


text \<open>Three requests, as the dashboard example makes them.\<close>

definition pipeline_requests :: "sr_request list" where
  "pipeline_requests =
     map (\<lambda>tool. (demo_request tool)\<lparr>sq_request_id := None\<rparr>)
       [''filesystem.write'', ''shell.execute'', ''todo.create'']"

lemma pipeline_served:
  "\<exists>rs w'. service_run E0 (demo_service (jsonl_sink audit_path)) pipeline_requests (demo_sr_world ()) = (Inr rs, w') \<and>
     map ss_allowed rs = [True, False, True] \<and> map ss_request_id rs = [''id-1'', ''id-2'', ''id-3'']"
proof -
  have "case service_run E0 (demo_service (jsonl_sink audit_path)) pipeline_requests (demo_sr_world ()) of
      (Inr rs, w') \<Rightarrow> map ss_allowed rs = [True, False, True] \<and> map ss_request_id rs = [''id-1'', ''id-2'', ''id-3'']
    | _ \<Rightarrow> False"
    by code_simp
  then show ?thesis by (auto split: prod.splits sum.splits)
qed


end
