(* ===== verification/Programs.thy ===== *)
theory Programs
  imports Pipeline Report
begin

text \<open>
  The example programs under \<open>src/examples\<close>, as compositions of the components: each
  \<open>main\<close> is a computation on the files, the count of clock and \<open>uuid4\<close> reads and the
  texts that were printed. The Rust binary is the parameter \<open>spawn\<close>, and the name that
  \<open>TemporaryDirectory\<close> picks is a parameter too.
\<close>

subsection \<open>Scripts\<close>

record prog =
  pg_fs :: fs
  pg_tick :: nat
  pg_out :: "string list"

definition py_bind :: "('s, 'a) py \<Rightarrow> ('a \<Rightarrow> ('s, 'b) py) \<Rightarrow> ('s, 'b) py" where
  "py_bind m f s = (case m s of (Inl e, s1) \<Rightarrow> (Inl e, s1) | (Inr x, s1) \<Rightarrow> f x s1)"

definition py_return :: "'a \<Rightarrow> ('s, 'a) py" where
  "py_return x s = (Inr x, s)"

definition py_of :: "exn + 'a \<Rightarrow> ('s, 'a) py" where
  "py_of r s = (r, s)"

fun py_each :: "('a \<Rightarrow> ('s, unit) py) \<Rightarrow> 'a list \<Rightarrow> ('s, unit) py" where
  "py_each f [] = py_return ()"
| "py_each f (x # xs) = py_bind (f x) (\<lambda>_. py_each f xs)"

definition on_fs :: "(fs, 'a) py \<Rightarrow> (prog, 'a) py" where
  "on_fs m s = (case m (pg_fs s) of (r, fs1) \<Rightarrow> (r, s\<lparr>pg_fs := fs1\<rparr>))"

definition see_fs :: "(fs \<Rightarrow> exn + 'a) \<Rightarrow> (prog, 'a) py" where
  "see_fs f s = (f (pg_fs s), s)"

definition py_print :: "string \<Rightarrow> (prog, unit) py" where
  "py_print text s = (Inr (), s\<lparr>pg_out := pg_out s @ [text]\<rparr>)"

text \<open>\<open>v[k]\<close> on a value that was read.\<close>

definition item :: "json \<Rightarrow> string \<Rightarrow> exn + json" where
  "item v k =
     (case v of
        JObj d \<Rightarrow> (case map_of d k of None \<Rightarrow> Inl (KeyError (str_repr k)) | Some x \<Rightarrow> Inr x)
      | JArr _ \<Rightarrow> Inl (TypeError ''list indices must be integers or slices, not str'')
      | JStr _ \<Rightarrow> Inl (TypeError (''string indices must be integers, not '' @ str_repr ''str''))
      | _ \<Rightarrow> Inl (TypeError (str_repr (type_name v) @ '' object is not subscriptable'')))"

text \<open>\<open>path.unlink(missing_ok=True)\<close>\<close>

definition path_unlink :: "path \<Rightarrow> (fs, unit) py" where
  "path_unlink p fs =
     (let (f, fs1) = next_io fs
      in (case os_walk fs1 [] p of
            Inl (FileNotFoundError m) \<Rightarrow> (Inr (), fs1)
          | Inl e \<Rightarrow> (Inl e, fs1)
          | Inr q \<Rightarrow>
              (case node_at fs1 q of
                 None \<Rightarrow> (Inr (), fs1)
               | Some Dir \<Rightarrow> (Inl (IsADirectoryError (path_str q)), fs1)
               | Some (File _) \<Rightarrow>
                   (case f of
                      IoOk \<Rightarrow> (Inr (), del_node q fs1)
                    | IoFails m \<Rightarrow> (Inl (OSError m), fs1)
                    | IoPartial n m \<Rightarrow> (Inl (OSError m), fs1)))))"

subsection \<open>The audited runs\<close>

definition default_request :: "string \<Rightarrow> sr_request" where
  "default_request tool =
     \<lparr>sq_tool_name = tool, sq_arguments = [], sq_workspace = ''/tmp'', sq_env = None,
      sq_request_id = None\<rparr>"

text \<open>A runtime with the default boundary and a JSONL sink, and one request per tool.\<close>

definition sample_runtime :: "py_env \<Rightarrow> nat \<Rightarrow> path \<Rightarrow> unit service_runtime" where
  "sample_runtime E i p =
     service_init E i (default_runtime_boundary (boundary_init None None None)) (jsonl_sink p) None"

definition sample_run :: "py_env \<Rightarrow> path \<Rightarrow> string list \<Rightarrow> (prog, sr_result list) py" where
  "sample_run E p tools s =
     (case service_run E (sample_runtime E (pg_tick s) p) (map default_request tools)
             \<lparr>sr_sink = (), sr_fs = pg_fs s, sr_tick = Suc (pg_tick s)\<rparr> of
        (r, w) \<Rightarrow> (r, s\<lparr>pg_fs := sr_fs w, pg_tick := sr_tick w\<rparr>))"

definition sample_events :: "py_env \<Rightarrow> path \<Rightarrow> string list \<Rightarrow> (prog, json list) py" where
  "sample_events E p tools =
     py_bind (on_fs (audit_sink_init p True)) (\<lambda>sink.
     py_bind (sample_run E sink tools) (\<lambda>_.
     py_bind (on_fs (audit_sink_init p False)) (\<lambda>reader.
     see_fs (audit_read_events reader))))"

text \<open>\<open>examples/persistent_audit_store.py\<close>\<close>

definition print_audit_line :: "json \<Rightarrow> (prog, unit) py" where
  "print_audit_line event =
     py_bind (py_of (item event ''allowed'')) (\<lambda>allowed.
     py_bind (py_of (item event ''tool_name'')) (\<lambda>tool.
     py_bind (py_of (item event ''request_id'')) (\<lambda>rid.
     py_bind (py_print (''  ['' @ (if truth allowed then ''ALLOW'' else ''DENY'') @ ''] '' @ py_str tool
                @ ''  request_id='' @ py_str rid)) (\<lambda>_.
     case item event ''arguments'' of
       Inr _ \<Rightarrow> py_of (Inl (AssertionError []))
     | Inl _ \<Rightarrow> py_return ()))))"

definition persistent_audit_store_main :: "py_env \<Rightarrow> (prog, unit) py" where
  "persistent_audit_store_main E =
     (let p = [''tmp'', ''koguchi-audit.jsonl'']
      in py_bind (on_fs (audit_sink_init p True)) (\<lambda>sink.
         py_bind (sample_run E sink [''filesystem.write'', ''shell.execute'']) (\<lambda>_.
         py_bind (py_print ''=== Persistent Audit Events ==='') (\<lambda>_.
         py_bind (on_fs (audit_sink_init p False)) (\<lambda>reader.
         py_bind (see_fs (audit_read_events reader)) (\<lambda>events.
         py_bind (py_each print_audit_line events) (\<lambda>_.
         py_bind (on_fs (path_unlink p)) (\<lambda>_.
         py_print ''Done.''))))))))"

subsection \<open>Planning and running\<close>

text \<open>\<open>ReconciliationScheduler(events)\<close> with \<open>plan\<close> and \<open>run_pending\<close> on it.\<close>

definition fresh_sched :: "prog \<Rightarrow> sched" where
  "fresh_sched s = \<lparr>sc_jobs = [], sc_fs = pg_fs s, sc_tick = pg_tick s\<rparr>"

definition on_sched :: "(sched, 'a) py \<Rightarrow> sched \<Rightarrow> (prog, 'a \<times> sched) py" where
  "on_sched m sc s =
     (case m (sc\<lparr>sc_fs := pg_fs s, sc_tick := pg_tick s\<rparr>) of
        (r, sc1) \<Rightarrow> (map_sum id (\<lambda>x. (x, sc1)) r, s\<lparr>pg_fs := sc_fs sc1, pg_tick := sc_tick sc1\<rparr>))"

definition opt_repr :: "string option \<Rightarrow> string" where
  "opt_repr x = (case x of None \<Rightarrow> ''None'' | Some m \<Rightarrow> m)"

text \<open>\<open>examples/reconciliation_scheduler.py\<close>\<close>

definition reconciliation_scheduler_main :: "py_env \<Rightarrow> (prog, unit) py" where
  "reconciliation_scheduler_main E =
     (let p = [''tmp'', ''koguchi-reconcile-example.jsonl'']
      in py_bind (sample_events E p [''filesystem.write'', ''shell.execute'']) (\<lambda>events.
         py_bind (\<lambda>s. on_sched (plan (scheduler_of events)) (fresh_sched s) s) (\<lambda>(jobs, sc).
         py_bind (py_print ''=== Reconciliation Jobs ==='') (\<lambda>_.
         py_bind (py_each (\<lambda>job. py_print (''  ['' @ status_value (j_status job) @ ''] '' @ j_job_id job
                    @ ''  tool='' @ j_tool_name job)) jobs) (\<lambda>_.
         py_bind (on_sched (run_pending E (scheduler_of events)) sc) (\<lambda>(results, sc1).
         py_bind (py_print (CHR 0x0A # ''=== Results ==='')) (\<lambda>_.
         py_bind (py_each (\<lambda>r. py_print (''  ['' @ status_value (rs_status r) @ ''] '' @ rs_job_id r
                    @ '': '' @ opt_repr (rs_message r))) results) (\<lambda>_.
         py_bind (py_print (CHR 0x0A # ''=== Summary ==='')) (\<lambda>_.
         py_bind (py_each (\<lambda>(key, val). py_print (''  '' @ key @ '': '' @ show_nat val)) (summary sc1)) (\<lambda>_.
         py_bind (on_fs (path_unlink p)) (\<lambda>_.
         py_print (CHR 0x0A # ''Done.''))))))))))))"

subsection \<open>Observing\<close>

definition chokepoint_binary :: "py_env \<Rightarrow> path" where
  "chokepoint_binary E =
     resolve (getcwd E) ''crates/koguchi-chokepoint/target/debug/koguchi-chokepoint''"

text \<open>\<open>BINARY.resolve() if BINARY.exists() else None\<close>\<close>

definition binary_if_built :: "py_env \<Rightarrow> fs \<Rightarrow> path option" where
  "binary_if_built E fs =
     (if path_exists fs (chokepoint_binary E) then Some (chokepoint_binary E) else None)"

definition observe :: "py_env \<Rightarrow> path \<Rightarrow> (prog, dashboard_snapshot) py" where
  "observe E p =
     py_bind (sample_events E p [''filesystem.write'', ''shell.execute'', ''todo.create'']) (\<lambda>events.
     py_bind (\<lambda>s. on_sched (plan (scheduler_of events)) (fresh_sched s) s) (\<lambda>(_, sc).
     py_bind (on_sched (run_pending E (scheduler_of events)) sc) (\<lambda>(_, sc1) s.
     (Inr (build_snapshot E (pg_tick s) events (job_list (sc_jobs sc1)) (binary_if_built E (pg_fs s)) (pg_fs s)),
      s\<lparr>pg_tick := Suc (pg_tick s)\<rparr>))))"

text \<open>\<open>examples/dashboard_observation.py\<close>\<close>

definition dashboard_observation_main :: "py_env \<Rightarrow> (prog, unit) py" where
  "dashboard_observation_main E =
     (let p = [''tmp'', ''koguchi-dashboard-audit.jsonl'']
      in py_bind (observe E p) (\<lambda>snapshot.
         py_bind (py_print (render_text snapshot)) (\<lambda>_.
         py_bind (on_fs (path_unlink p)) (\<lambda>_.
         py_print (CHR 0x0A # ''Done.'')))))"

text \<open>\<open>examples/dashboard_static_html_report.py\<close>\<close>

definition dashboard_static_html_report_main :: "py_env \<Rightarrow> (prog, unit) py" where
  "dashboard_static_html_report_main E =
     (let p = [''tmp'', ''koguchi-html-audit.jsonl''];
          report = [''tmp'', ''koguchi-dashboard-report.html'']
      in py_bind (observe E p) (\<lambda>snapshot.
         py_bind (py_of (render_html_report snapshot None None)) (\<lambda>html.
         py_bind (on_fs (write_bytes report html)) (\<lambda>_.
         py_bind (py_print (''Wrote static dashboard report: '' @ path_str report)) (\<lambda>_.
         on_fs (path_unlink p))))))"

subsection \<open>The proxy and a runtime in memory\<close>

text \<open>A runtime with the default sink, and the requests made of it one by one.\<close>

record memory_run =
  mr_runtime :: "audit_event list service_runtime"
  mr_events :: "audit_event list"

definition memory_runtime :: "py_env \<Rightarrow> execution_backend option \<Rightarrow> (prog, memory_run) py" where
  "memory_runtime E backend s =
     (Inr \<lparr>mr_runtime = service_init E (pg_tick s)
              (default_runtime_boundary (boundary_init None None None)) in_memory_sink backend,
           mr_events = []\<rparr>,
      s\<lparr>pg_tick := Suc (pg_tick s)\<rparr>)"

definition memory_execute ::
  "py_env \<Rightarrow> memory_run \<Rightarrow> sr_request \<Rightarrow> (prog, sr_result \<times> memory_run) py" where
  "memory_execute E m q s =
     (case service_execute E (mr_runtime m) q
             \<lparr>sr_sink = mr_events m, sr_fs = pg_fs s, sr_tick = pg_tick s\<rparr> of
        (r, w) \<Rightarrow> (map_sum id (\<lambda>x. (x, m\<lparr>mr_events := sr_sink w\<rparr>)) r,
                    s\<lparr>pg_fs := sr_fs w, pg_tick := sr_tick w\<rparr>))"

definition memory_events :: "memory_run \<Rightarrow> (prog, json list) py" where
  "memory_events m s =
     (Inr (map JObj (service_events (mr_runtime m)
        \<lparr>sr_sink = mr_events m, sr_fs = pg_fs s, sr_tick = pg_tick s\<rparr>)), s)"

fun result_text :: "proxy_result \<Rightarrow> string" where
  "result_text SUCCESS = ''success''"
| "result_text FAILURE = ''failure''"
| "result_text REJECTED = ''rejected''"
| "result_text UNCONFIRMED = ''unconfirmed''"

definition example_envelope :: action_envelope where
  "example_envelope =
     \<lparr>env_action_id = ''example-1'', env_tool = ''filesystem.write'', env_target = ''./workspace/out.txt'',
      env_parameters_digest = ''abc123'', env_expected_result_digest = None,
      env_permission_scope = ''workspace'', env_risk_class = [''file_write''],
      env_redaction_policy = None\<rparr>"

text \<open>The proxy of the example, on a database in memory.\<close>

definition example_proxy :: "py_env \<Rightarrow> (exec_db, decision_db) tool_proxy" where
  "example_proxy E =
     tool_proxy_init E ''./workspace'' sqlite_execution_store None None
       (Some (gate_init (Some [deny_shell_execution]))) None"

definition example_write :: "py_env \<Rightarrow> (prog, proxy_result) py" where
  "example_write E s =
     (case write_file E (example_proxy E) (Some example_envelope) ''Hello, Koguchi'' None None
             \<lparr>w_store = empty_exec_db [] [], w_dec = empty_decision_db [] [], w_fs = pg_fs s,
              w_tick = pg_tick s\<rparr> of
        (r, w) \<Rightarrow> (r, s\<lparr>pg_fs := w_fs w, pg_tick := w_tick w\<rparr>))"

definition print_event_line :: "json \<Rightarrow> (prog, unit) py" where
  "print_event_line event =
     py_bind (py_of (item event ''event_type'')) (\<lambda>ty.
     py_bind (py_of (item event ''tool_name'')) (\<lambda>tool.
     py_bind (py_of (item event ''allowed'')) (\<lambda>allowed.
     py_print (''  ['' @ py_str ty @ ''] '' @ py_str tool @ '': allowed='' @ py_str allowed))))"

text \<open>\<open>examples/minimal_tool_proxy.py\<close>\<close>

definition minimal_tool_proxy_main :: "py_env \<Rightarrow> (prog, unit) py" where
  "minimal_tool_proxy_main E =
     py_bind (memory_runtime E None) (\<lambda>m0.
     py_bind (py_print ''=== ALLOW: filesystem.write ==='') (\<lambda>_.
     py_bind (example_write E) (\<lambda>result.
     py_bind (py_print (''  result: '' @ result_text result)) (\<lambda>_.
     py_bind (memory_execute E m0 (default_request ''filesystem.write'')) (\<lambda>(r1, m1).
     py_bind (py_print (''  runtime: allowed='' @ bool_repr (ss_allowed r1) @ '', id='' @ ss_request_id r1)) (\<lambda>_.
     py_bind (py_print ''=== DENY: shell.execute ==='') (\<lambda>_.
     py_bind (memory_execute E m1 (default_request ''shell.execute'')) (\<lambda>(r2, m2).
     py_bind (py_print (''  runtime: allowed='' @ bool_repr (ss_allowed r2) @ '', reason='' @ ss_reason r2)) (\<lambda>_.
     py_bind (py_print ''=== Audit Events ==='') (\<lambda>_.
     py_bind (memory_events m2) (py_each print_event_line)))))))))))"

subsection \<open>The chokepoint binary\<close>

definition rstrip :: "string \<Rightarrow> string" where
  "rstrip s = rev (strip_front (map rev spaces) (rev s))"

definition print_not_built :: "(prog, unit) py" where
  "print_not_built =
     py_bind (py_print ''Rust binary not found. Build it first:'') (\<lambda>_.
     py_print ''  cargo build --manifest-path crates/koguchi-chokepoint/Cargo.toml'')"

definition spike_execute ::
  "spawn \<Rightarrow> path \<Rightarrow> string \<Rightarrow> string \<Rightarrow> string \<Rightarrow> string \<Rightarrow> (prog, chokepoint_result) py" where
  "spike_execute spawn client operation p content request_id =
     on_fs (client_execute spawn client operation ''/tmp'' p content request_id (Some ''5.0''))"

text \<open>\<open>examples/rust_chokepoint_spike.py\<close>\<close>

definition rust_chokepoint_spike_main :: "py_env \<Rightarrow> spawn \<Rightarrow> (prog, unit) py" where
  "rust_chokepoint_spike_main E spawn s =
     (if \<not> path_exists (pg_fs s) (chokepoint_binary E) then print_not_built s
      else py_bind (see_fs (client_init (chokepoint_binary E))) (\<lambda>client.
           py_bind (py_print ''=== write_text ==='') (\<lambda>_.
           py_bind (spike_execute spawn client ''write_text'' ''koguchi-spike.txt''
                      ''hello from rust chokepoint'' ''ex-1'') (\<lambda>r1.
           py_bind (py_print (''  allowed='' @ bool_repr (cr_allowed r1) @ '' status='' @ cr_status r1)) (\<lambda>_.
           py_bind (py_print ''=== read_text ==='') (\<lambda>_.
           py_bind (spike_execute spawn client ''read_text'' ''koguchi-spike.txt'' [] ''ex-2'') (\<lambda>r2.
           py_bind (py_print (''  allowed='' @ bool_repr (cr_allowed r2) @ '' stdout='' @ rstrip (cr_stdout r2))) (\<lambda>_.
           py_bind (py_print ''=== path traversal denied ==='') (\<lambda>_.
           py_bind (spike_execute spawn client ''write_text'' ''../evil.txt'' [] ''ex-3'') (\<lambda>r3.
           py_bind (py_print (''  allowed='' @ bool_repr (cr_allowed r3) @ '' error='' @ py_str (cr_error r3))) (\<lambda>_.
           py_bind (on_fs (path_unlink [''tmp'', ''koguchi-spike.txt''])) (\<lambda>_.
           py_print (CHR 0x0A # ''Done.'')))))))))))) s)"

text \<open>\<open>with tempfile.TemporaryDirectory()\<close>: a fresh directory, removed with all that is in it
  when the block is left, by an exception too.\<close>

definition rmtree :: "path \<Rightarrow> fs \<Rightarrow> fs" where
  "rmtree d fs = fs\<lparr>fs_nodes := filter (\<lambda>n. \<not> prefix d (fst n)) (fs_nodes fs)\<rparr>"

definition with_temp_dir :: "path \<Rightarrow> (prog, 'a) py \<Rightarrow> (prog, 'a) py" where
  "with_temp_dir d body =
     py_bind (on_fs (os_mkdir d)) (\<lambda>_ s.
     case body s of (r, s1) \<Rightarrow> (r, s1\<lparr>pg_fs := rmtree d (pg_fs s1)\<rparr>))"

definition tool_request :: "string \<Rightarrow> path \<Rightarrow> (string \<times> json) list \<Rightarrow> sr_request" where
  "tool_request tool workspace arguments =
     \<lparr>sq_tool_name = tool, sq_arguments = arguments, sq_workspace = path_str workspace, sq_env = None,
      sq_request_id = None\<rparr>"

definition print_backend_line :: "json \<Rightarrow> (prog, unit) py" where
  "print_backend_line event =
     py_bind (py_of (as_dict event)) (\<lambda>d.
     py_bind (py_of (item event ''event_type'')) (\<lambda>ty.
     py_bind (py_of (item event ''tool_name'')) (\<lambda>tool.
     py_print (''  ['' @ py_str ty @ ''] '' @ py_str tool @ ''  backend=''
       @ py_str (dget_or d ''execution_backend'' (JStr ''unknown''))))))"

text \<open>\<open>examples/serviceruntime_chokepoint_backend.py\<close>\<close>

definition chokepoint_backend_requests :: "py_env \<Rightarrow> path \<Rightarrow> memory_run \<Rightarrow> (prog, unit) py" where
  "chokepoint_backend_requests E d m0 =
     py_bind (py_print ''=== filesystem.write (Rust backend) ==='') (\<lambda>_.
     py_bind (memory_execute E m0 (tool_request ''filesystem.write'' d
        [(''path'', JStr ''hello.txt''), (''content'', JStr ''from rust backend'')])) (\<lambda>(r1, m1).
     py_bind (py_print (''  allowed='' @ bool_repr (ss_allowed r1) @ '' result='' @ py_str (ss_result r1))) (\<lambda>_.
     py_bind (py_print ''=== filesystem.read (Rust backend) ==='') (\<lambda>_.
     py_bind (memory_execute E m1 (tool_request ''filesystem.read'' d [(''path'', JStr ''hello.txt'')])) (\<lambda>(r2, m2).
     py_bind (py_print (''  allowed='' @ bool_repr (ss_allowed r2) @ '' result='' @ py_str (ss_result r2))) (\<lambda>_.
     py_bind (py_print ''=== shell.execute (unsupported) ==='') (\<lambda>_.
     py_bind (memory_execute E m2 (tool_request ''shell.execute'' d [(''path'', JStr ''test'')])) (\<lambda>(r3, m3).
     py_bind (py_print (''  allowed='' @ bool_repr (ss_allowed r3) @ '' error='' @ py_str (ss_error r3))) (\<lambda>_.
     py_bind (py_print (CHR 0x0A # ''=== Audit Events ==='')) (\<lambda>_.
     py_bind (memory_events m3) (py_each print_backend_line)))))))))))"

definition chokepoint_backend_main :: "py_env \<Rightarrow> spawn \<Rightarrow> path \<Rightarrow> (prog, unit) py" where
  "chokepoint_backend_main E spawn d s =
     (if \<not> path_exists (pg_fs s) (chokepoint_binary E) then print_not_built s
      else py_bind (memory_runtime E
              (Some (rust_chokepoint_backend spawn (rust_init (chokepoint_binary E) (pg_fs s))))) (\<lambda>m0.
           py_bind (with_temp_dir d (chokepoint_backend_requests E d m0)) (\<lambda>_.
           py_print (CHR 0x0A # ''Done.''))) s)"

end
