(* ===== verification/ProgramsProps.thy ===== *)
theory ProgramsProps
  imports Programs
begin

text \<open>
  What the example programs do from start to end: on a quiet disk the dashboard example returns,
  prints the snapshot of its three requests and leaves the files as it found them.
\<close>

subsection \<open>Files where nothing fails\<close>

definition quiet :: "path \<Rightarrow> fs \<Rightarrow> bool" where
  "quiet p fs \<longleftrightarrow>
     os_walk fs [] p = Inr p \<and> node_at fs p \<noteq> Some Dir \<and> fs_faults fs = [] \<and> p \<notin> set (fs_unreadable fs)"

definition same_but :: "path \<Rightarrow> fs \<Rightarrow> fs \<Rightarrow> bool" where
  "same_but p fs fs' \<longleftrightarrow> (\<forall>q. q \<noteq> p \<longrightarrow> node_at fs' q = node_at fs q)"

lemma same_but_trans: "same_but p fs fs' \<Longrightarrow> same_but p fs' fs'' \<Longrightarrow> same_but p fs fs''"
  by (simp add: same_but_def)

lemma next_io_quiet: "fs_faults fs = [] \<Longrightarrow> next_io fs = (IoOk, fs)"
  by (simp add: next_io_def)

lemma quiet_set:
  "quiet p fs \<Longrightarrow> quiet p (set_node p (File d) fs) \<and> same_but p fs (set_node p (File d) fs)"
  by (auto simp: quiet_def same_but_def node_at_set node_dir_ne intro: os_walk_set)

lemma audit_emit_quiet:
  assumes "quiet p fs"
  shows "\<exists>d. audit_emit p ev fs = (Inr (), set_node p (File d) fs)"
  using assms
  by (simp add: audit_emit_def jsonl_append_def quiet_def next_io_quiet Let_def) (rule exI, rule refl)

lemma unlink_quiet:
  assumes "quiet p fs" "node_at fs p = Some (File d)"
  shows "path_unlink p fs = (Inr (), del_node p fs)"
  using assms by (simp add: path_unlink_def quiet_def next_io_quiet Let_def)

lemma sink_init_quiet:
  assumes "node_at fs (parent p) = Some Dir" "fs_faults fs = []"
  shows "audit_sink_init p True fs = (Inr p, fs)"
  using assms
  by (simp add: audit_sink_init_def path_mkdir.simps [of "parent p"] os_mkdir_def next_io_quiet Let_def)

subsection \<open>A run of the default runtime\<close>

definition default_allows :: "string \<Rightarrow> bool" where
  "default_allows tool \<longleftrightarrow> tool \<in> DEFAULT_ALLOWED_TOOLS \<and> tool \<notin> DEFAULT_DENIED_TOOLS"

lemma sample_runtime_fields [simp]:
  "sr_event_sink (sample_runtime E i p) = jsonl_sink p"
  "sr_backend (sample_runtime E i p) = python_backend"
  "sr_boundary (sample_runtime E i p) = default_runtime_boundary (boundary_init None None None)"
  by (simp_all add: sample_runtime_def service_init_def)

lemma default_boundary_allows:
  "rb_allowed (evaluate_tool (boundary_init None None None) tool) \<longleftrightarrow> default_allows tool"
  by (simp add: evaluate_tool_allowed boundary_init_def set_or_def default_allows_def)

lemma emit_quiet:
  assumes "quiet p (sr_fs w)" "sr_event_sink rt = jsonl_sink p"
  shows "\<exists>d. sr_emit rt ev r w = (Inr r, w\<lparr>sr_fs := set_node p (File d) (sr_fs w)\<rparr>)"
proof -
  obtain d where "audit_emit p ev (sr_fs w) = (Inr (), set_node p (File d) (sr_fs w))"
    using audit_emit_quiet [OF assms(1)] by blast
  then show ?thesis by (cases w) (auto simp: sr_emit_def assms(2) jsonl_sink_def)
qed

lemma execute_quiet:
  assumes "quiet p (sr_fs w)"
  shows "\<exists>r w' d. service_execute E (sample_runtime E i p) q w = (Inr r, w') \<and>
    ss_allowed r = default_allows (sq_tool_name q) \<and> sr_fs w' = set_node p (File d) (sr_fs w)"
proof -
  let ?w = "w\<lparr>sr_tick := Suc (sr_tick w)\<rparr>"
  have q: "quiet p (sr_fs ?w)" using assms by simp
  have e: "\<exists>w' d. sr_emit (sample_runtime E i p) ev r ?w = (Inr r, w') \<and> sr_fs w' = set_node p (File d) (sr_fs w)"
    for ev r
    using emit_quiet [OF q, of "sample_runtime E i p" ev r] by auto
  have same: "w\<lparr>sr_tick := Suc (sr_tick w), sr_fs := sr_fs w\<rparr> = ?w" by simp
  show ?thesis
    by (cases "default_allows (sq_tool_name q)")
      (use e in \<open>force simp: service_execute_def Let_def default_runtime_boundary_def default_boundary_allows
        python_backend_def python_execute_def same\<close>)+
qed

lemma run_quiet:
  "quiet p (sr_fs w) \<Longrightarrow> \<exists>rs w'. service_run E (sample_runtime E i p) qs w = (Inr rs, w') \<and>
     map ss_allowed rs = map (\<lambda>q. default_allows (sq_tool_name q)) qs \<and>
     quiet p (sr_fs w') \<and> same_but p (sr_fs w) (sr_fs w') \<and>
     (qs \<noteq> [] \<longrightarrow> (\<exists>d. node_at (sr_fs w') p = Some (File d)))"
proof (induction qs arbitrary: w)
  case Nil
  then show ?case by (simp add: same_but_def)
next
  case (Cons q qs)
  from execute_quiet [OF Cons.prems] obtain r w1 d where
    q: "service_execute E (sample_runtime E i p) q w = (Inr r, w1)"
    and r: "ss_allowed r = default_allows (sq_tool_name q)"
    and w1: "sr_fs w1 = set_node p (File d) (sr_fs w)" by blast
  from quiet_set [OF Cons.prems, of d] have q1: "quiet p (sr_fs w1)" and s1: "same_but p (sr_fs w) (sr_fs w1)"
    by (simp_all add: w1)
  have ne: "p \<noteq> []" using Cons.prems by (auto simp: quiet_def)
  from Cons.IH [OF q1] obtain rs w' where
    qs: "service_run E (sample_runtime E i p) qs w1 = (Inr rs, w')"
    and rs: "map ss_allowed rs = map (\<lambda>q. default_allows (sq_tool_name q)) qs"
    and q2: "quiet p (sr_fs w')" and s2: "same_but p (sr_fs w1) (sr_fs w')"
    and f: "qs \<noteq> [] \<longrightarrow> (\<exists>d. node_at (sr_fs w') p = Some (File d))" by blast
  have "\<exists>d. node_at (sr_fs w') p = Some (File d)"
    using f qs ne w1 by (cases "qs = []") (auto simp: node_at_set)
  with q qs r rs q2 same_but_trans [OF s1 s2] show ?case by simp
qed

subsection \<open>Observing it\<close>

lemma run_loop_frame:
  "sd_result_store sd = None \<Longrightarrow>
     sc_fs (snd (run_loop E sd ids s)) = sc_fs s \<and> sc_tick (snd (run_loop E sd ids s)) = sc_tick s"
proof (induction ids arbitrary: s)
  case (Cons i ids)
  have job: "sc_fs (snd (run_job E sd k s)) = sc_fs s \<and> sc_tick (snd (run_job E sd k s)) = sc_tick s" for k
    using Cons.prems by (auto simp: run_job_def append_result_def Let_def split: sum.splits)
  show ?case
    using Cons.IH [OF Cons.prems] job
    by (auto split: sum.splits prod.splits) (metis snd_conv)+
qed simp

lemma plan_frame: "sc_fs (snd (plan sd s)) = sc_fs s \<and> sc_tick (snd (plan sd s)) = sc_tick s"
  by (simp add: plan_def Let_def split: sum.split)

lemma sched_same: "sc_fs sc = pg_fs s \<Longrightarrow> sc_tick sc = pg_tick s \<Longrightarrow>
    sc\<lparr>sc_fs := pg_fs s, sc_tick := pg_tick s\<rparr> = sc"
  by simp

lemma on_sched_frame:
  assumes "m sc = (Inr x, sc1)" "sc_fs sc = pg_fs s" "sc_tick sc = pg_tick s"
    "sc_fs sc1 = pg_fs s" "sc_tick sc1 = pg_tick s"
  shows "on_sched m sc s = (Inr (x, sc1), s)"
  using assms by (simp add: on_sched_def sched_same)

text \<open>The state in which the examples start: the directory is there, and no audit file.\<close>

definition example_start :: "py_env \<Rightarrow> path \<Rightarrow> prog \<Rightarrow> bool" where
  "example_start E p s \<longleftrightarrow>
     node_at (pg_fs s) (parent p) = Some Dir \<and> quiet p (pg_fs s) \<and> node_at (pg_fs s) p = None \<and>
     inj (uuid4 E) \<and> (\<forall>i. uuid4 E i \<noteq> [])"

lemma start_fresh:
  "quiet p fs \<Longrightarrow> node_at fs p = None \<Longrightarrow> jsonl_clean p fs \<and> audit_read_events p fs = Inr []"
  by (simp add: quiet_def jsonl_clean_def audit_read_events_def jsonl_read_def)

lemma sample_ids:
  assumes "inj (uuid4 E)" "service_run E rt (map default_request tools) w = (Inr rs, w')"
  shows "distinct (map ss_request_id rs)"
proof -
  have "map (\<lambda>(i, q). sr_id E i q) (enumerate n (map default_request tools)) =
      map (uuid4 E) [n..<n + length tools]" for n
    by (rule nth_equalityI) (simp_all add: nth_enumerate_eq sr_id_def default_request_def)
  with run_ids [OF assms(2)] assms(1) show ?thesis by (simp add: distinct_map inj_on_def)
qed

text \<open>What both dashboards observe.\<close>

definition observed_requests :: "sr_request list" where
  "observed_requests = map default_request [''filesystem.write'', ''shell.execute'', ''todo.create'']"

definition three_observed :: "dashboard_snapshot \<Rightarrow> bool" where
  "three_observed sn \<longleftrightarrow>
     as_total_events (sn_audit sn) = 3 \<and> as_allowed_events (sn_audit sn) = 2 \<and>
     as_denied_events (sn_audit sn) = 1 \<and> as_malformed_events (sn_audit sn) = 0 \<and>
     sn_reconciliation sn = \<lparr>rn_total_jobs = 3, rn_pending = 0, rn_passed = 2, rn_failed = 0, rn_skipped = 1\<rparr>"

lemma three_verdicts:
  assumes "map ss_allowed rs = [True, False, True]"
    and "map job_verdict js = map2 request_verdict observed_requests rs"
  shows "build_reconciliation js =
    \<lparr>rn_total_jobs = 3, rn_pending = 0, rn_passed = 2, rn_failed = 0, rn_skipped = 1\<rparr>"
proof -
  from assms(1) obtain a b c where rs: "rs = [a, b, c]" and ss: "ss_allowed a" "\<not> ss_allowed b" "ss_allowed c"
    by (auto simp: map_eq_Cons_conv)
  from arg_cong [OF assms(2), of "map (snd \<circ> snd)"]
  have "map j_status js = [PASSED, SKIPPED, PASSED]"
    by (simp add: rs ss observed_requests_def request_verdict_def default_request_def job_verdict_def comp_def)
  then show ?thesis by (auto simp: map_eq_Cons_conv build_reconciliation_counts count_if_Cons)
qed

lemma observe_quiet:
  assumes "example_start E p s"
  shows "\<exists>sn s1 d. observe E p s = (Inr sn, s1) \<and> three_observed sn \<and> pg_out s1 = pg_out s \<and>
    quiet p (pg_fs s1) \<and> same_but p (pg_fs s) (pg_fs s1) \<and> node_at (pg_fs s1) p = Some (File d)"
proof -
  note st = assms [unfolded example_start_def]
  let ?w = "\<lparr>sr_sink = (), sr_fs = pg_fs s, sr_tick = Suc (pg_tick s)\<rparr>"
  let ?rt = "sample_runtime E (pg_tick s) p"
  from run_quiet [of p ?w E "pg_tick s" observed_requests] st obtain rs w' d where
    run: "service_run E ?rt observed_requests ?w = (Inr rs, w')"
    and rs: "map ss_allowed rs = map (\<lambda>q. default_allows (sq_tool_name q)) observed_requests"
    and q: "quiet p (sr_fs w')" and same: "same_but p (pg_fs s) (sr_fs w')"
    and there: "node_at (sr_fs w') p = Some (File d)"
    by (auto simp: observed_requests_def)
  have rs3: "map ss_allowed rs = [True, False, True]"
    unfolding rs by (simp add: observed_requests_def default_request_def default_allows_def
        DEFAULT_ALLOWED_TOOLS_def DEFAULT_DENIED_TOOLS_def)
  have ids: "distinct (map ss_request_id rs)"
    using st by (intro sample_ids [OF _ run [unfolded observed_requests_def]]) simp
  let ?s1 = "s\<lparr>pg_fs := sr_fs w', pg_tick := sr_tick w'\<rparr>"
  have fresh: "jsonl_clean p (sr_fs ?w)" "audit_read_events p (sr_fs ?w) = Inr []"
    using start_fresh st by simp_all
  have rt: "sr_event_sink ?rt = jsonl_sink p" "sound_backend (sr_backend ?rt)"
    "keeps_log (jsonl_holds p []) (sr_backend ?rt)"
    by (simp_all add: sound_python keeps_python)
  have u: "\<forall>i. uuid4 E i \<noteq> []" and none: "sc_jobs (fresh_sched ?s1) = []"
    using st by (simp_all add: fresh_sched_def)
  from pipeline_run [OF rt fresh run ids u none] obtain evs sc results sc1 where
    evs: "audit_read_events p (sr_fs w') = Inr (map stored_event evs)"
    and ev: "list_all2 event_matches rs evs"
    and plan: "plan (scheduler_of (map stored_event evs)) (fresh_sched ?s1) = (Inr (map event_job evs), sc)"
    and pend: "run_pending E (scheduler_of (map stored_event evs)) sc = (Inr results, sc1)"
    and v: "map job_verdict (job_list (sc_jobs sc1)) = map2 request_verdict observed_requests rs"
    by blast
  have f0: "sc_fs sc = pg_fs ?s1" "sc_tick sc = pg_tick ?s1"
    using plan_frame [of "scheduler_of (map stored_event evs)" "fresh_sched ?s1"] plan
    by (simp_all add: fresh_sched_def)
  have f1: "sc_fs sc1 = pg_fs ?s1" "sc_tick sc1 = pg_tick ?s1"
    using run_loop_frame [of "scheduler_of (map stored_event evs)" E "map fst (sc_jobs sc)" sc] pend f0
    by (simp_all add: run_pending_def scheduler_of_def)
  let ?sn = "build_snapshot E (sr_tick w') (map stored_event evs) (job_list (sc_jobs sc1))
     (binary_if_built E (sr_fs w')) (sr_fs w')"
  have sink: "on_fs (audit_sink_init p True) s = (Inr p, s)"
    using sink_init_quiet [of "pg_fs s" p] st by (simp add: on_fs_def quiet_def)
  have sample: "sample_run E p [''filesystem.write'', ''shell.execute'', ''todo.create''] s = (Inr rs, ?s1)"
    using run by (simp add: sample_run_def observed_requests_def del: service_run.simps)
  have events: "sample_events E p [''filesystem.write'', ''shell.execute'', ''todo.create''] s =
      (Inr (map stored_event evs), ?s1)"
    using sink sample evs
    by (simp add: sample_events_def py_bind_def on_fs_def audit_sink_init_def see_fs_def del: stored_event_members)
  let ?sd = "scheduler_of (map stored_event evs)"
  have "on_sched (plan ?sd) (fresh_sched ?s1) ?s1 = (Inr (map event_job evs, sc), ?s1)"
    by (rule on_sched_frame [where m = "plan ?sd", OF plan _ _ f0]) (simp_all add: fresh_sched_def)
  moreover have "on_sched (run_pending E ?sd) sc ?s1 = (Inr (results, sc1), ?s1)"
    by (rule on_sched_frame [where m = "run_pending E ?sd", OF pend f0 f1])
  ultimately have "observe E p s = (Inr ?sn, ?s1\<lparr>pg_tick := Suc (sr_tick w')\<rparr>)"
    using events
    by (simp add: observe_def py_bind_def fresh_sched_def del: stored_event_members)
  moreover have "three_observed ?sn"
    using event_counts [OF ev refl] three_verdicts [OF rs3 v] rs3
    by (auto simp: three_observed_def build_snapshot_def count_if_def map_eq_Cons_conv simp del: stored_event_members)
  ultimately show ?thesis
    using q same there
    by (intro exI [of _ ?sn] exI [of _ "?s1\<lparr>pg_tick := Suc (sr_tick w')\<rparr>"] exI [of _ d]) simp
qed

subsection \<open>The property\<close>

text \<open>C40: the dashboard example, from start to end: where \<open>/tmp\<close> is a directory without its audit file
  and nothing fails, it returns, prints the snapshot of three events (two allowed, one denied) and
  three jobs (two passed, one skipped), and leaves every file as it was, its audit file removed.\<close>

theorem dashboard_example:
  assumes "example_start E [''tmp'', ''koguchi-dashboard-audit.jsonl''] s"
  shows "\<exists>sn s'. dashboard_observation_main E s = (Inr (), s') \<and> three_observed sn \<and>
    pg_out s' = pg_out s @ [render_text sn, CHR 0x0A # ''Done.''] \<and>
    (\<forall>q. node_at (pg_fs s') q = node_at (pg_fs s) q)"
proof -
  let ?p = "[''tmp'', ''koguchi-dashboard-audit.jsonl'']"
  from observe_quiet [OF assms] obtain sn s1 d where
    ob: "observe E ?p s = (Inr sn, s1)" "three_observed sn" "pg_out s1 = pg_out s"
    and q: "quiet ?p (pg_fs s1)" and same: "same_but ?p (pg_fs s) (pg_fs s1)"
    and there: "node_at (pg_fs s1) ?p = Some (File d)" by blast
  let ?s' = "s1\<lparr>pg_fs := del_node ?p (pg_fs s1), pg_out := pg_out s @ [render_text sn, CHR 0x0A # ''Done.'']\<rparr>"
  have "dashboard_observation_main E s = (Inr (), ?s')"
    using ob(1,3) unlink_quiet [OF q there]
    by (cases s1) (simp add: dashboard_observation_main_def Let_def py_bind_def py_print_def on_fs_def)
  moreover have "node_at (pg_fs ?s') q = node_at (pg_fs s) q" for q
    using same assms by (auto simp: node_at_del same_but_def example_start_def)
  ultimately show ?thesis using ob(2) by (intro exI [of _ sn] exI [of _ ?s']) simp
qed

definition demo_prog :: prog where
  "demo_prog =
     \<lparr>pg_fs = \<lparr>fs_nodes = [([''tmp''], Dir), ([''home''], Dir), ([''home'', ''workspace''], Dir)],
               fs_unreadable = [], fs_faults = []\<rparr>,
      pg_tick = 0, pg_out = []\<rparr>"

definition E1 :: py_env where
  "E1 = E0\<lparr>uuid4 := (\<lambda>i. ''id'' @ replicate i (CHR ''-''))\<rparr>"

lemma demo_prog_start: "example_start E1 [''tmp'', ''koguchi-dashboard-audit.jsonl''] demo_prog"
  by (auto simp: example_start_def demo_prog_def E1_def quiet_def node_at_def parent_def inj_on_def
      replicate_eq_replicate)

theorem dashboard_example_witness:
  "\<exists>sn s'. dashboard_observation_main E1 demo_prog = (Inr (), s') \<and> three_observed sn \<and>
     pg_out s' = [render_text sn, CHR 0x0A # ''Done.''] \<and> node_at (pg_fs s') [''home''] = Some Dir"
proof -
  have "pg_out demo_prog = []" "node_at (pg_fs demo_prog) [''home''] = Some Dir"
    by (simp_all add: demo_prog_def node_at_def)
  with dashboard_example [OF demo_prog_start] show ?thesis by auto
qed

text \<open>What two of the other examples print and write.\<close>

lemma persistent_audit_store_prints:
  "pg_out (snd (persistent_audit_store_main E1 demo_prog)) =
     [''=== Persistent Audit Events ==='', ''  [ALLOW] filesystem.write  request_id=id-'',
      ''  [DENY] shell.execute  request_id=id--'', ''Done.'']"
  by code_simp

lemma minimal_tool_proxy_writes:
  "read_bytes (pg_fs (snd (minimal_tool_proxy_main E1 demo_prog))) [''home'', ''workspace'', ''out.txt''] =
     Some ''Hello, Koguchi''"
  by code_simp

end
