(* ===== verification/Spec2Isabelle.thy ===== *)
theory Spec2Isabelle
  imports AuditGate StoreProps ServiceProps SchedulerProps FsDiffProps Inspect ReportProps ProgramsProps
begin

text \<open>
  A model of koguchi, a proxy for side effects that keeps a hash-chained log of what was
  intended and what was observed, with the theorems that make it correct. The Python package
  is under \<open>src/src/koguchi\<close>, its example programs under \<open>src/examples\<close>.

  The program has three parts. The core is \<open>ToolProxy\<close>: it judges a call by policy gate and
  runtime boundary, records the decision and the intent, performs the effect (a file write, a
  shell command, a directory, an HTTP request), records what was observed, and returns one of four
  results; a reconciler later diagnoses from the log and the disk what is not settled. The service
  part is \<open>ServiceRuntime\<close>, which lets a backend execute a request and emits one audit event
  to a sink, with the scheduler that plans and settles jobs from those events. The third part
  observes: a comparison of a directory with expected artifacts, the records and command
  line of its results, the dashboard and its HTML report. The parts meet in the stores, in the
  JSONL files and in the example programs.

  THEORIES, in the order of the code's dependencies (file names are relative to the package):

  \<^item> \<open>Prelude\<close>: exceptions as the datatype \<open>exn\<close>, the type \<open>py\<close> of a computation that
    returns or raises and leaves a state either way, Python strings and dictionaries. \<open>Json\<close>:
    \<open>json.dumps\<close> and \<open>json.loads\<close>, with the round trip. \<open>PyRepr\<close>: \<open>str\<close>, \<open>repr\<close>, truth,
    \<open>strip\<close>. \<open>FileSystem\<close>: \<open>pathlib\<close> and the file operations used, on a tree of nodes.
  \<^item> \<open>I18n\<close> (\<open>i18n.py\<close>), \<open>HashChain\<close> (\<open>hashchain.py\<close>), \<open>Events\<close> (\<open>events.py\<close>,
    \<open>envelope.py\<close>, \<open>errors.py\<close> and \<open>_make_event\<close>), \<open>Store\<close> (\<open>store.py\<close>), \<open>Decision\<close>
    (\<open>decision.py\<close>), \<open>Policy\<close> (\<open>policy.py\<close>), \<open>Runtime\<close> (\<open>runtime.py\<close>, \<open>context.py\<close>).
    A SQLite store is the rows on disk and those of the open transaction, with a schedule of the
    faults of its writes and reads.
  \<^item> \<open>Proxy\<close> (\<open>proxy.py\<close>): each tool as a function on the record \<open>world\<close>: the two stores,
    the file system, the count of clock and \<open>uuid4\<close> reads. \<open>ProxySpec\<close>, \<open>ProxyProps\<close>
    and \<open>ProxyHistory\<close> hold its lemmas, \<open>Fixtures\<close> concrete instances.
  \<^item> \<open>Reconcile\<close>, \<open>ReconcileProps\<close> (\<open>reconcile.py\<close>, \<open>provider_reconcile.py\<close>);
    \<open>AuditGate\<close> (\<open>audit.py\<close>, \<open>rde.py\<close>, \<open>integrations/joujou.py\<close>); \<open>StoreProps\<close>.
  \<^item> \<open>Jsonl\<close>, \<open>Backend\<close> (\<open>execution_backend.py\<close>, \<open>chokepoint_client.py\<close>),
    \<open>ServiceRuntime\<close>, \<open>ServiceProps\<close> (\<open>service_runtime.py\<close>, \<open>audit_store.py\<close>);
    \<open>Scheduler\<close>, \<open>SchedulerProps\<close> (\<open>reconciliation_scheduler.py\<close>,
    \<open>reconciliation_store.py\<close>).
  \<^item> \<open>FsDiff\<close>, \<open>FsDiffProps\<close> (\<open>reconciliation/filesystem_diff.py\<close>,
    \<open>toolproxy/reconciliation.py\<close>, \<open>scheduler/reconciliation.py\<close>); \<open>Inspect\<close>
    (\<open>persistence/reconciliation_records.py\<close>, \<open>cli/reconciliation.py\<close>); \<open>Dashboard\<close>,
    \<open>DashboardProps\<close> (\<open>dashboard.py\<close>); \<open>Report\<close>, \<open>ReportProps\<close>
    (\<open>dashboard_report.py\<close>).
  \<^item> \<open>Pipeline\<close>, \<open>Programs\<close>, \<open>ProgramsProps\<close>: the components composed, and the
    \<open>main\<close> of every example.

  INTERFACES. \<open>hash_log\<close> is the contract of a hash-linked log (the tip, an append that
  succeeds or fails, what is durable); \<open>execution_log\<close> and \<open>decision_log\<close> extend it, and the
  two SQLite stores interpret them (\<open>sq\<close>, \<open>sqd\<close>). What a call does to a log, and what the
  reconciler reports, is proved over \<open>execution_log\<close> for any store that keeps the contract.
  \<open>jsonl_log\<close> is the contract of an append-only file, interpreted by the audit file and the
  result file; \<open>audit_log\<close> that of an event sink, interpreted by the sink in memory and the
  JSONL sink; \<open>write_once\<close> that of the record stores.

  WHAT IS SHOWN.

  \<^item> The proxy: in every history of calls, crashes and faults, no effect is on disk without an intent
    that was durable before it, both chains verify, and every row of the table is well typed; a
    write is atomic and stays inside the workspace; each of the results SUCCESS, FAILURE,
    REJECTED, UNCONFIRMED and each exception says exactly what is in the log and on disk.
  \<^item> The stores: they refine an abstract log with a pending and a committed view, a changed row is
    noticed by \<open>verify_chain\<close>, events survive their payload.
  \<^item> Reconciliation returns its reference report, finds what was left unconfirmed, checks what was
    committed, and names exactly the files that no record explains.
  \<^item> The service: one audit event per result, on disk as in memory; a torn line blocks the file.
    The scheduler: a job changes once, to the verdict of its own event; planning is idempotent;
    a result whose write fails is lost.
  \<^item> The observers: the comparison is complete and exact, the dashboard's counts are functions of
    the events, the markup of a report does not depend on the data, a stored result stays.
  \<^item> Together: the jobs and the counts at the end of the pipeline are those of the results that the
    client got, and the dashboard example leaves the disk as it was.

  Where the code does less than its documents say, a lemma states what it does: truncation
  that no verification notices, columns outside the hash, a secret inside nested arrays, a
  denial that a policy result REQUIRE_APPROVAL does not cause.

  PARAMETERS. What is not in the repository is an argument: SHA-256, \<open>uuid4\<close>, the clock, the
  locale files and the working directory (the record \<open>py_env\<close>), \<open>subprocess.run\<close> and
  \<open>urlopen\<close> (with every outcome the code distinguishes), the chokepoint binary (\<open>spawn\<close>),
  the provider of the reconciler, the rules of a gate. Faults of SQLite and of the file system
  come from schedules in the state, so that a theorem covers them all.

  FUEL AND TERMINATION. Only \<open>json.loads\<close> has fuel, twice the length of the text and two; that
  is enough for every text (\<open>parse_value_enough\<close>, \<open>loads_fuel\<close>). All other recursions have
  termination proofs, and \<open>run_pending\<close> and the pipeline are shown to return.

  LIMITS. A Python \<open>str\<close> is the list of its UTF-8 bytes; \<open>repr\<close> keeps characters from
  128 on; a float is its text. There are no symbolic links, and the paths of the binary, of the
  JSONL files and of the observed root are absolute and normal. A list that \<open>plan\<close> returned
  is a snapshot. The job store is the one in memory.

  NOT MODELLED. \<open>__init__.py\<close> (names only) and the Rust crates, which are the parameter
  \<open>spawn\<close>.
\<close>

end
